theory Spec2Isabelle
  imports Main "HOL-Library.Word"
begin

section \<open>Wire buffer\<close>

text \<open>
  A Go \<^verbatim>\<open>[]byte\<close> is a list of 8-bit words and a Go \<^verbatim>\<open>string\<close> is the list of
  its bytes.  Reading past the end of a slice panics in Go; every pop therefore returns
  an option, \<open>None\<close> standing for the index-out-of-range panic.
\<close>

type_synonym byte = "8 word"
type_synonym uuid = "byte list"

definition be_nat :: "byte list \<Rightarrow> nat" where
  "be_nat bs = foldl (\<lambda>a b. a * 256 + unat b) 0 bs"

definition be16 :: "16 word \<Rightarrow> byte list" where
  "be16 w = [ucast (drop_bit 8 w), ucast w]"

definition be32 :: "32 word \<Rightarrow> byte list" where
  "be32 w = [ucast (drop_bit 24 w), ucast (drop_bit 16 w), ucast (drop_bit 8 w), ucast w]"

text \<open>
  Modelled from the spec: package \<^verbatim>\<open>protocol\<close> (PopUint8, PopUint16, PopUint32,
  PopBytes, PopString, PopUUID, PopMessage, PutMsgLength) is not under src.  Section 4.1
  of the spec gives the framing \<^verbatim>\<open>[type:1][length:4][payload]\<close>, the length counting
  itself but not the type byte, integers big-endian, strings and blobs length-prefixed,
  type identifiers 16 bytes long.
\<close>

definition PopUint8 :: "byte list \<Rightarrow> (byte \<times> byte list) option" where
  "PopUint8 buf = (case buf of [] \<Rightarrow> None | b # rest \<Rightarrow> Some (b, rest))"

definition PopUint16 :: "byte list \<Rightarrow> (16 word \<times> byte list) option" where
  "PopUint16 buf =
     (if length buf < 2 then None else Some (of_nat (be_nat (take 2 buf)), drop 2 buf))"

definition PopUint32 :: "byte list \<Rightarrow> (32 word \<times> byte list) option" where
  "PopUint32 buf =
     (if length buf < 4 then None else Some (of_nat (be_nat (take 4 buf)), drop 4 buf))"

definition PopBytes :: "byte list \<Rightarrow> (byte list \<times> byte list) option" where
  "PopBytes buf =
     (case PopUint32 buf of
        None \<Rightarrow> None
      | Some (n, rest) \<Rightarrow>
          if length rest < unat n then None else Some (take (unat n) rest, drop (unat n) rest))"

definition PopString :: "byte list \<Rightarrow> (byte list \<times> byte list) option" where
  "PopString buf = PopBytes buf"

definition PopUUID :: "byte list \<Rightarrow> (byte list \<times> byte list) option" where
  "PopUUID buf = (if length buf < 16 then None else Some (take 16 buf, drop 16 buf))"

definition PopMessage :: "byte list \<Rightarrow> (byte list \<times> byte list) option" where
  "PopMessage buf =
     (if length buf < 5 then None
      else let n = 1 + be_nat (take 4 (drop 1 buf))
           in if length buf < n then None else Some (take n buf, drop n buf))"

definition PushUint8 :: "byte list \<Rightarrow> byte \<Rightarrow> byte list" where
  "PushUint8 buf v = buf @ [v]"

definition PushUint16 :: "byte list \<Rightarrow> 16 word \<Rightarrow> byte list" where
  "PushUint16 buf v = buf @ be16 v"

definition PushUint32 :: "byte list \<Rightarrow> 32 word \<Rightarrow> byte list" where
  "PushUint32 buf v = buf @ be32 v"

definition PushBytes :: "byte list \<Rightarrow> byte list \<Rightarrow> byte list" where
  "PushBytes buf v = buf @ be32 (of_nat (length v)) @ v"

definition PushString :: "byte list \<Rightarrow> byte list \<Rightarrow> byte list" where
  "PushString buf v = PushBytes buf v"

definition PutMsgLength :: "byte list \<Rightarrow> byte list" where
  "PutMsgLength buf =
     (case buf of
        t # _ # _ # _ # _ # rest \<Rightarrow> t # be32 (of_nat (length buf - 1)) @ rest
      | _ \<Rightarrow> buf)"

text \<open>
  Modelled from the spec: the message type constants (package \<^verbatim>\<open>message\<close>, and the
  \<^verbatim>\<open>Message\<close> constants of the script flow) are not under src.  The spec's table
  in section 6 names them; the byte values are those of the binary protocol.  Client and
  server messages are separate name spaces and may share a byte.
\<close>

definition Data :: byte where "Data = 0x44"
definition CommandComplete :: byte where "CommandComplete = 0x43"
definition ReadyForCommand :: byte where "ReadyForCommand = 0x5a"
definition ErrorResponse :: byte where "ErrorResponse = 0x45"
definition PrepareComplete :: byte where "PrepareComplete = 0x31"
definition CommandDataDescription :: byte where "CommandDataDescription = 0x54"
definition Prepare :: byte where "Prepare = 0x50"
definition DescribeStatement :: byte where "DescribeStatement = 0x44"
definition Execute :: byte where "Execute = 0x45"
definition OptimisticExecute :: byte where "OptimisticExecute = 0x4f"
definition Sync :: byte where "Sync = 0x53"
definition ExecuteScript :: byte where "ExecuteScript = 0x51"
definition DataDescription :: byte where "DataDescription = 0x54"

section \<open>Types, errors and panics\<close>

text \<open>
  A \<^verbatim>\<open>reflect.Type\<close>, as far as the code looks at it: its kind, the element type of
  a slice, array, pointer, map or channel (the kinds for which \<^verbatim>\<open>Type.Elem\<close> is
  defined), and for a struct its name, whether a pointer to it implements
  \<^verbatim>\<open>OptionalUnmarshaler\<close>, and its fields (name, type, byte offset).
\<close>

datatype rtype =
    Basic string
  | SliceOf rtype
  | ArrayOf nat rtype
  | PtrTo rtype
  | MapOf rtype rtype
  | ChanOf rtype
  | StructOf string bool "(string \<times> rtype \<times> nat) list"

datatype kind =
  KindStruct | KindSlice | KindArray | KindPtr | KindMap | KindChan | KindOther string

fun Kind :: "rtype \<Rightarrow> kind" where
  "Kind (Basic n) = KindOther n"
| "Kind (SliceOf t) = KindSlice"
| "Kind (ArrayOf n t) = KindArray"
| "Kind (PtrTo t) = KindPtr"
| "Kind (MapOf k t) = KindMap"
| "Kind (ChanOf t) = KindChan"
| "Kind (StructOf n opt fs) = KindStruct"

type_synonym Path = string

text \<open>
  The errors the code returns.  An error built by \<^verbatim>\<open>fmt.Errorf\<close> is a constructor
  that keeps the values formatted into the message:
  \<open>ErrExpectedStruct\<close> is "expected %v to be a Struct got %v",
  \<open>ErrNoFieldNamed\<close> is "expected %v to have a field named %q",
  \<open>ErrNotOptional\<close> is "expected %v at %v.%v to be %v because the field is not
  required", and \<open>ErrWrongNumberOfFields\<close> is "wrong number of object fields:
  expected %v, got %v".
\<close>

datatype error =
    ErrorZeroResults
  | errStateNotSupported
  | ServerError (severity: byte) (code: "32 word") (message: "byte list")
  | TransportError nat
  | ErrExpectedStruct Path kind
  | ErrNoFieldNamed Path string
  | ErrNotOptional rtype Path string string
  | ErrWrongNumberOfFields nat nat
  | OtherError string

datatype panic =
    UnexpectedMessageType byte
  | IndexOutOfRange
  | InterfaceConversion
  | ReflectPanic
  | OtherPanic string

text \<open>
  A Go function that returns \<^verbatim>\<open>error\<close> ends in one of three ways: it returns nil
  (\<open>Ok\<close>), it returns an error, or it panics.  Functions that also return a value
  carry it in \<open>Ok\<close>.
\<close>

datatype 'a res = Ok 'a | Err error | Panic panic

section \<open>Queries and values\<close>

text \<open>
  The headers of a message.  Go ranges over the map in an unspecified order; the
  association list fixes the order in which the entries are written.
\<close>

type_synonym Header = "(16 word \<times> byte list) list"

text \<open>
  Modelled from the spec: the \<^verbatim>\<open>query\<close> struct and its method \<^verbatim>\<open>flat()\<close> are not
  under src.  Section 3 of the spec: a query is its command text, argument values,
  expected cardinality (one or many) and wire format; the script flow also reads its
  session state and its headers.  A query is flat when a single result is expected.
  A Go value (an argument, a decoded row, the destination) is an atom or a slice of values.
\<close>

datatype cardinality = One | Many

definition cardinalityByte :: "cardinality \<Rightarrow> byte" where
  "cardinalityByte c = (case c of One \<Rightarrow> 0x6f | Many \<Rightarrow> 0x6d)"

datatype 'a val = Atom 'a | Slice "'a val list"

record 'a query =
  cmd :: "byte list"
  fmt :: byte
  expCard :: cardinality
  args :: "'a val list"

definition flat :: "('a, 'b) query_scheme \<Rightarrow> bool" where
  "flat q \<longleftrightarrow> expCard q = One"

record 'a query0pX = "'a query" +
  state :: "byte list"
  headers0pX :: Header

section \<open>The script flow (internal/client/scriptflow.go)\<close>

text \<open>
  Modelled from the spec: \<^verbatim>\<open>buff.Writer\<close> is not under src.  Section 4.1 of the
  spec: a message is framed as type byte, 4-byte length that counts itself, payload.
  The writer keeps the bytes written so far and the position of the message it is
  building; \<^verbatim>\<open>PushBytes\<close> appends the bytes as they are.
\<close>

record Writer =
  wbuf :: "byte list"
  msgPos :: nat

definition NewWriter :: "byte list \<Rightarrow> Writer" where
  "NewWriter b = \<lparr>wbuf = b, msgPos = 0\<rparr>"

definition BeginMessage :: "Writer \<Rightarrow> byte \<Rightarrow> Writer" where
  "BeginMessage w t = \<lparr>wbuf = wbuf w @ [t, 0, 0, 0, 0], msgPos = length (wbuf w)\<rparr>"

definition wPushUint16 :: "Writer \<Rightarrow> 16 word \<Rightarrow> Writer" where
  "wPushUint16 w v = w\<lparr>wbuf := wbuf w @ be16 v\<rparr>"

definition wPushUint32 :: "Writer \<Rightarrow> 32 word \<Rightarrow> Writer" where
  "wPushUint32 w v = w\<lparr>wbuf := wbuf w @ be32 v\<rparr>"

definition wPushBytes :: "Writer \<Rightarrow> byte list \<Rightarrow> Writer" where
  "wPushBytes w v = w\<lparr>wbuf := wbuf w @ v\<rparr>"

definition wPushString :: "Writer \<Rightarrow> byte list \<Rightarrow> Writer" where
  "wPushString w v = w\<lparr>wbuf := wbuf w @ be32 (of_nat (length v)) @ v\<rparr>"

definition EndMessage :: "Writer \<Rightarrow> Writer" where
  "EndMessage w =
     (let p = msgPos w; b = wbuf w
      in w\<lparr>wbuf := take (p + 1) b @ be32 (of_nat (length b - p - 1)) @ drop (p + 5) b\<rparr>)"

definition Unwrap :: "Writer \<Rightarrow> byte list" where
  "Unwrap w = wbuf w"

text \<open>\<^verbatim>\<open>writeHeaders\<close>: the count, then key, length and bytes of every entry.\<close>

definition writeHeaders :: "Writer \<Rightarrow> Header \<Rightarrow> Writer" where
  "writeHeaders w hs =
     foldl (\<lambda>w (key, val).
              wPushBytes (wPushUint32 (wPushUint16 w key) (of_nat (length val))) val)
       (wPushUint16 w (of_nat (length hs))) hs"

text \<open>
  Modelled from the spec: the socket and \<^verbatim>\<open>buff.Reader\<close> are not under src.  The
  transport is an ordered byte stream that reports a failure as a distinct error
  (section 1).  The socket records every buffer handed to \<^verbatim>\<open>WriteAll\<close>;
  \<open>wfail\<close> is the error the next write returns, if it fails.  The reader holds what
  will arrive: framed messages (type byte and body) and transport failures, in order.
  \<^verbatim>\<open>Next\<close> returns false once the done signal is set or an error is recorded; it
  records the error when the stream fails or ends, and otherwise makes the next message
  current.
\<close>

record Socket =
  written :: "byte list list"
  wfail :: "error option"

definition WriteAll :: "Socket \<Rightarrow> byte list \<Rightarrow> error option \<times> Socket" where
  "WriteAll s b =
     (case wfail s of
        Some e \<Rightarrow> (Some e, s)
      | None \<Rightarrow> (None, s\<lparr>written := written s @ [b]\<rparr>))"

record Reader =
  pending :: "(error + byte \<times> byte list) list"
  MsgType :: byte
  Buf :: "byte list"
  rErr :: "error option"

definition ErrUnexpectedEOF :: error where
  "ErrUnexpectedEOF = TransportError 0"

definition Next :: "Reader \<Rightarrow> bool \<Rightarrow> bool \<times> Reader" where
  "Next r done =
     (if done \<or> rErr r \<noteq> None then (False, r)
      else case pending r of
             [] \<Rightarrow> (False, r\<lparr>rErr := Some ErrUnexpectedEOF\<rparr>)
           | Inl e # rest \<Rightarrow> (False, r\<lparr>pending := rest, rErr := Some e\<rparr>)
           | Inr (t, body) # rest \<Rightarrow> (True, r\<lparr>pending := rest, MsgType := t, Buf := body\<rparr>))"

text \<open>
  Modelled from the spec: the message decoders of the script flow are not under src.
  \<^verbatim>\<open>decodeCommandCompleteMsg0pX\<close> and \<^verbatim>\<open>decodeReadyForCommandMsg\<close> read the
  current message to its end.  The collaborators whose results the flow returns are
  parameters: \<^verbatim>\<open>decodeErrorResponseMsg\<close> (from the message body and the command
  text), \<^verbatim>\<open>wrapAll\<close> and \<^verbatim>\<open>fallThrough\<close> (from the type and body of a message
  the switch does not name).
\<close>

definition decodeCommandCompleteMsg0pX :: "Reader \<Rightarrow> Reader" where
  "decodeCommandCompleteMsg0pX r = r\<lparr>Buf := []\<rparr>"

definition decodeReadyForCommandMsg :: "Reader \<Rightarrow> Reader" where
  "decodeReadyForCommandMsg r = r\<lparr>Buf := []\<rparr>"

record script_deps =
  decodeErrorResponseMsg :: "byte list \<Rightarrow> byte list \<Rightarrow> error"
  wrapAll :: "error option \<Rightarrow> error \<Rightarrow> error option"
  fallThrough :: "byte \<Rightarrow> byte list \<Rightarrow> error option"

record protocolConnection =
  soc :: Socket

text \<open>
  The loop \<^verbatim>\<open>for r.Next(done.Chan) { switch ... }\<close>.  \<open>Inl e\<close> is the early
  \<^verbatim>\<open>return e\<close> of the default case; \<open>Inr err\<close> is the value of \<^verbatim>\<open>err\<close> when
  \<^verbatim>\<open>Next\<close> returns false.
\<close>

function scriptLoop ::
  "script_deps \<Rightarrow> byte list \<Rightarrow> Reader \<Rightarrow> bool \<Rightarrow> error option
     \<Rightarrow> (error + error option) \<times> Reader" where
  "scriptLoop d c r done err =
     (case Next r done of
        (False, r') \<Rightarrow> (Inr err, r')
      | (True, r') \<Rightarrow>
          if MsgType r' = CommandComplete then
            scriptLoop d c (decodeCommandCompleteMsg0pX r') done err
          else if MsgType r' = ReadyForCommand then
            scriptLoop d c (decodeReadyForCommandMsg r') True err
          else if MsgType r' = ErrorResponse then
            scriptLoop d c (r'\<lparr>Buf := []\<rparr>) done
              (wrapAll d err (decodeErrorResponseMsg d (Buf r') c))
          else
            (case fallThrough d (MsgType r') (Buf r') of
               Some e \<Rightarrow> (Inl e, r')
             | None \<Rightarrow> scriptLoop d c (r'\<lparr>Buf := []\<rparr>) done err))"
  by pat_completeness auto
termination
  by (relation "measure (\<lambda>(d, c, r, done, err). length (pending r) + (if done then 0 else 1))")
     (auto simp: Next_def decodeCommandCompleteMsg0pX_def decodeReadyForCommandMsg_def
           split: if_splits list.splits sum.splits prod.splits)

definition execScriptFlow ::
  "script_deps \<Rightarrow> protocolConnection \<Rightarrow> Reader \<Rightarrow> 'a query0pX
     \<Rightarrow> error option \<times> protocolConnection \<times> Reader" where
  "execScriptFlow d c r q =
     (if length (state q) \<noteq> 0 then (Some errStateNotSupported, c, r)
      else
        let w = NewWriter [];
            w = BeginMessage w ExecuteScript;
            w = writeHeaders w (headers0pX q);
            w = wPushString w (cmd q);
            w = EndMessage w
        in case WriteAll (soc c) (Unwrap w) of
             (Some e, s) \<Rightarrow> (Some e, c\<lparr>soc := s\<rparr>, r)
           | (None, s) \<Rightarrow>
               (case scriptLoop d (cmd q) r False None of
                  (Inl e, r') \<Rightarrow> (Some e, c\<lparr>soc := s\<rparr>, r')
                | (Inr err, r') \<Rightarrow>
                    if rErr r' \<noteq> None then (rErr r', c\<lparr>soc := s\<rparr>, r')
                    else (err, c\<lparr>soc := s\<rparr>, r')))"

section \<open>Object codecs (internal/codecs, in src/rstdocs/codegen.rst)\<close>

type_synonym addr = nat

text \<open>
  Modelled from the spec: the memory a decoder writes to belongs to the caller.
  \<^verbatim>\<open>SetMissing\<close> is a method of the caller's struct type, called through reflection; it
  is the "set missing" operation of section 4.3 and records, for the value at that
  address, whether it is absent.  \<open>content\<close> holds what scalar decoders store.
\<close>

record memory =
  missing :: "addr \<Rightarrow> bool option"
  content :: "addr \<Rightarrow> byte list option"

definition SetMissing :: "rtype \<Rightarrow> addr \<Rightarrow> bool \<Rightarrow> memory \<Rightarrow> memory" where
  "SetMissing typ out b m = m\<lparr>missing := (missing m)(out := Some b)\<rparr>"

definition pAdd :: "addr \<Rightarrow> nat \<Rightarrow> addr" where
  "pAdd out off = out + off"

text \<open>
  The Go type of a decoder, which \<^verbatim>\<open>reflect.TypeOf(child)\<close> reads: the types of the
  lookup table, \<^verbatim>\<open>optionalObjectDecoder\<close>, and any other decoder type by its name.
\<close>

datatype decoder_type =
    BoolCodec | BytesCodec | DateTimeCodec | LocalDateTimeCodec | LocalDateCodec
  | LocalTimeCodec | DurationCodec | RelativeDurationCodec | namedTupleDecoderT
  | Int16Codec | Int32Codec | Int64Codec | Float32Codec | Float64Codec | BigIntCodec
  | objectDecoderT | StrCodec | tupleDecoderT | UUIDCodec
  | optionalObjectDecoderT
  | OtherDecoder string

fun optionalTypeNameLookup :: "decoder_type \<Rightarrow> string option" where
  "optionalTypeNameLookup BoolCodec = Some ''edgedb.OptionalBool''"
| "optionalTypeNameLookup BytesCodec = Some ''edgedb.OptionalBytes''"
| "optionalTypeNameLookup DateTimeCodec = Some ''edgedb.OptionalDateTime''"
| "optionalTypeNameLookup LocalDateTimeCodec = Some ''edgedb.OptionalLocalDateTime''"
| "optionalTypeNameLookup LocalDateCodec = Some ''edgedb.OptionalLocalDate''"
| "optionalTypeNameLookup LocalTimeCodec = Some ''edgedb.OptionalLocalTime''"
| "optionalTypeNameLookup DurationCodec = Some ''edgedb.OptionalDuration''"
| "optionalTypeNameLookup RelativeDurationCodec = Some ''edgedb.OptionalRelativeDuration''"
| "optionalTypeNameLookup namedTupleDecoderT = Some ''edgedb.Optional''"
| "optionalTypeNameLookup Int16Codec = Some ''edgedb.OptionalInt16''"
| "optionalTypeNameLookup Int32Codec = Some ''edgedb.OptionalInt32''"
| "optionalTypeNameLookup Int64Codec = Some ''edgedb.OptionalInt64''"
| "optionalTypeNameLookup Float32Codec = Some ''edgedb.OptionalFloat32''"
| "optionalTypeNameLookup Float64Codec = Some ''edgedb.OptionalFloat64''"
| "optionalTypeNameLookup BigIntCodec = Some ''edgedb.OptionalBigInt''"
| "optionalTypeNameLookup objectDecoderT = Some ''edgedb.Optional''"
| "optionalTypeNameLookup StrCodec = Some ''edgedb.OptionalStr''"
| "optionalTypeNameLookup tupleDecoderT = Some ''edgedb.Optional''"
| "optionalTypeNameLookup UUIDCodec = Some ''edgedb.OptionalUUID''"
| "optionalTypeNameLookup optionalObjectDecoderT = None"
| "optionalTypeNameLookup (OtherDecoder n) = None"

text \<open>
  A \<^verbatim>\<open>Decoder\<close>.  The two object decoders are those of the source.  Every other
  decoder is a \<open>CodecOf\<close>: its Go type, its \<^verbatim>\<open>Decode\<close> method (from the reader's
  unread bytes, the destination address and the memory to the result, the unread bytes
  it leaves and the memory), and its \<^verbatim>\<open>DecodeMissing\<close> method when it is an
  \<^verbatim>\<open>OptionalDecoder\<close>.
\<close>

datatype decoder =
    CodecOf decoder_type
      "byte list \<Rightarrow> addr \<Rightarrow> memory \<Rightarrow> unit res \<times> byte list \<times> memory"
      "(addr \<Rightarrow> memory \<Rightarrow> memory) option"
  | objectDecoder uuid "DecoderField list"
  | optionalObjectDecoder uuid "DecoderField list" rtype
and DecoderField =
    DecoderField (name: string) (offset: nat) (decoder: decoder)

fun TypeOf :: "decoder \<Rightarrow> decoder_type" where
  "TypeOf (CodecOf t dec mis) = t"
| "TypeOf (objectDecoder i fs) = objectDecoderT"
| "TypeOf (optionalObjectDecoder i fs typ) = optionalObjectDecoderT"

text \<open>
  \<^verbatim>\<open>DecodeMissing\<close>: \<open>None\<close> when the decoder is not an \<^verbatim>\<open>OptionalDecoder\<close>, so
  that the type assertion \<^verbatim>\<open>child.(OptionalDecoder)\<close> fails.
\<close>

fun DecodeMissing :: "decoder \<Rightarrow> (addr \<Rightarrow> memory \<Rightarrow> memory) option" where
  "DecodeMissing (CodecOf t dec mis) = mis"
| "DecodeMissing (objectDecoder i fs) = None"
| "DecodeMissing (optionalObjectDecoder i fs typ) = Some (\<lambda>out. SetMissing typ out True)"

text \<open>
  Modelled from the spec: \<^verbatim>\<open>buff.Reader\<close> is not under src.  A reader is its unread
  bytes.  \<^verbatim>\<open>PopUint32\<close> is the one of the wire buffer; \<^verbatim>\<open>Discard\<close> skips bytes;
  \<^verbatim>\<open>PopSlice\<close> bounds a new reader to exactly the next n bytes and advances this one
  past them (section 4.4).  Each panics when the bytes are not there.
\<close>

definition Discard :: "byte list \<Rightarrow> nat \<Rightarrow> byte list option" where
  "Discard r n = (if length r < n then None else Some (drop n r))"

definition PopSlice :: "byte list \<Rightarrow> 32 word \<Rightarrow> (byte list \<times> byte list) option" where
  "PopSlice r n =
     (if length r < unat n then None else Some (take (unat n) r, drop (unat n) r))"

text \<open>
  \<^verbatim>\<open>objectDecoder.Decode\<close> is \<open>decodeObject\<close> on the decoder's fields, and
  \<open>decodeFields\<close> is its loop over \<^verbatim>\<open>c.fields\<close>;
  \<^verbatim>\<open>optionalObjectDecoder.Decode\<close> calls \<^verbatim>\<open>SetMissing(false)\<close> and then the
  embedded \<^verbatim>\<open>objectDecoder.Decode\<close>.  The result is the returned error (or the
  panic), the reader's unread bytes and the memory at that moment.
\<close>

fun Decode :: "decoder \<Rightarrow> byte list \<Rightarrow> addr \<Rightarrow> memory \<Rightarrow> unit res \<times> byte list \<times> memory"
and decodeObject ::
  "DecoderField list \<Rightarrow> byte list \<Rightarrow> addr \<Rightarrow> memory \<Rightarrow> unit res \<times> byte list \<times> memory"
and decodeFields ::
  "DecoderField list \<Rightarrow> byte list \<Rightarrow> addr \<Rightarrow> memory \<Rightarrow> unit res \<times> byte list \<times> memory"
where
  "Decode (CodecOf t dec mis) r out m = dec r out m"
| "Decode (objectDecoder i fs) r out m = decodeObject fs r out m"
| "Decode (optionalObjectDecoder i fs typ) r out m =
     decodeObject fs r out (SetMissing typ out False m)"
| "decodeObject fs r out m =
     (case PopUint32 r of
        None \<Rightarrow> (Panic IndexOutOfRange, r, m)
      | Some (elmCount, r1) \<Rightarrow>
          if unat elmCount \<noteq> length fs then
            (Err (ErrWrongNumberOfFields (length fs) (unat elmCount)), r1, m)
          else decodeFields fs r1 out m)"
| "decodeFields [] r out m = (Ok (), r, m)"
| "decodeFields (DecoderField nm off d # rest) r out m =
     (case Discard r 4 of
        None \<Rightarrow> (Panic IndexOutOfRange, r, m)
      | Some r1 \<Rightarrow>
          let p = pAdd out off in
          case PopUint32 r1 of
            None \<Rightarrow> (Panic IndexOutOfRange, r1, m)
          | Some (elmLen, r2) \<Rightarrow>
              if elmLen = 0xffffffff then
                (case DecodeMissing d of
                   None \<Rightarrow> (Panic InterfaceConversion, r2, m)
                 | Some mis \<Rightarrow> decodeFields rest r2 out (mis p m))
              else
                (case PopSlice r2 elmLen of
                   None \<Rightarrow> (Panic IndexOutOfRange, r2, m)
                 | Some (s, r3) \<Rightarrow>
                     (case Decode d s p m of
                        (Ok u, s', m') \<Rightarrow> decodeFields rest r3 out m'
                      | (Err e, s', m') \<Rightarrow> (Err e, r3, m')
                      | (Panic x, s', m') \<Rightarrow> (Panic x, r3, m'))))"

text \<open>
  A descriptor, as far as \<^verbatim>\<open>buildObjectDecoder\<close> reads it: its ID and its fields,
  each with a name, a descriptor and the required flag.
\<close>

datatype Descriptor =
    Descriptor (ID: uuid) (Fields: "DescField list")
and DescField =
    DescField (Name: string) (Desc: Descriptor) (Required: bool)

text \<open>
  Modelled from the spec: \<^verbatim>\<open>introspect.StructField\<close> and \<^verbatim>\<open>Path.AddField\<close> are not
  under src.  Section 4.3 of the spec: every descriptor field must have a correspondingly
  named output field, and the path is symbolic, as in \<^verbatim>\<open>.fieldA.fieldB\<close>.
  \<^verbatim>\<open>StructField\<close> finds the struct's field of that name and gives its type and offset.
\<close>

fun StructField :: "rtype \<Rightarrow> string \<Rightarrow> (rtype \<times> nat) option" where
  "StructField (StructOf n opt fs) nm = map_of fs nm"
| "StructField t nm = None"

definition AddField :: "Path \<Rightarrow> string \<Rightarrow> Path" where
  "AddField path nm = path @ ''.'' @ nm"

text \<open>\<^verbatim>\<open>reflect.PtrTo(typ).Implements(optionalUnmarshalerType)\<close>\<close>

fun implementsOptionalUnmarshaler :: "rtype \<Rightarrow> bool" where
  "implementsOptionalUnmarshaler (StructOf n opt fs) = opt"
| "implementsOptionalUnmarshaler t = False"

text \<open>
  \<^verbatim>\<open>buildObjectDecoder\<close> (and \<^verbatim>\<open>buildObjectDecoderV2\<close>, the same code over
  \<^verbatim>\<open>BuildDecoderV2\<close>).  \<^verbatim>\<open>BuildDecoder\<close> is not under src and is the parameter
  \<open>bd\<close>.  \<open>buildFields\<close> is the loop over \<^verbatim>\<open>desc.Fields\<close>.
\<close>

type_synonym BuildDecoder = "Descriptor \<Rightarrow> rtype \<Rightarrow> Path \<Rightarrow> decoder res"

fun buildFields ::
  "BuildDecoder \<Rightarrow> rtype \<Rightarrow> Path \<Rightarrow> DescField list \<Rightarrow> DecoderField list res" where
  "buildFields bd typ path [] = Ok []"
| "buildFields bd typ path (DescField nm dsc req # rest) =
     (case StructField typ nm of
        None \<Rightarrow> Err (ErrNoFieldNamed path nm)
      | Some (sfType, sfOffset) \<Rightarrow>
          (case bd dsc sfType (AddField path nm) of
             Err e \<Rightarrow> Err e
           | Panic x \<Rightarrow> Panic x
           | Ok child \<Rightarrow>
               if \<not> req \<and> DecodeMissing child = None then
                 Err (ErrNotOptional sfType path nm
                        (case optionalTypeNameLookup (TypeOf child) of
                           Some typeName \<Rightarrow> typeName
                         | None \<Rightarrow> ''OptionalUnmarshaler interface''))
               else
                 (case buildFields bd typ path rest of
                    Ok fs \<Rightarrow> Ok (DecoderField nm sfOffset child # fs)
                  | Err e \<Rightarrow> Err e
                  | Panic x \<Rightarrow> Panic x)))"

definition buildObjectDecoder ::
  "BuildDecoder \<Rightarrow> Descriptor \<Rightarrow> rtype \<Rightarrow> Path \<Rightarrow> decoder res" where
  "buildObjectDecoder bd desc typ path =
     (if Kind typ \<noteq> KindStruct then Err (ErrExpectedStruct path (Kind typ))
      else case buildFields bd typ path (Fields desc) of
             Err e \<Rightarrow> Err e
           | Panic x \<Rightarrow> Panic x
           | Ok fs \<Rightarrow>
               if implementsOptionalUnmarshaler typ
               then Ok (optionalObjectDecoder (ID desc) fs typ)
               else Ok (objectDecoder (ID desc) fs))"

text \<open>
  The position of a reader after \<open>n\<close> elements of a compound value, read from the
  declared lengths alone: four reserved bytes, the 4-byte length, and that many bytes
  unless the length is the sentinel.
\<close>

fun skipFields :: "nat \<Rightarrow> byte list \<Rightarrow> byte list option" where
  "skipFields 0 r = Some r"
| "skipFields (Suc n) r =
     (case Discard r 4 of
        None \<Rightarrow> None
      | Some r1 \<Rightarrow>
          (case PopUint32 r1 of
             None \<Rightarrow> None
           | Some (elmLen, r2) \<Rightarrow>
               if elmLen = 0xffffffff then skipFields n r2
               else (case PopSlice r2 elmLen of
                       None \<Rightarrow> None
                     | Some (s, r3) \<Rightarrow> skipFields n r3)))"

text \<open>
  Modelled from the spec: the decoder of an optional string or byte blob
  (\<^verbatim>\<open>edgedb.OptionalStr\<close>, \<^verbatim>\<open>edgedb.OptionalBytes\<close>) is not under src.  Section 4.3
  of the spec: the normal decode stores the bytes it is given as a present value, and
  "set missing" writes the absent state instead of a zero value.
\<close>

definition optionalStrDecode ::
  "byte list \<Rightarrow> addr \<Rightarrow> memory \<Rightarrow> unit res \<times> byte list \<times> memory" where
  "optionalStrDecode r out m =
     (Ok (), [], m\<lparr>missing := (missing m)(out := Some False),
                   content := (content m)(out := Some r)\<rparr>)"

definition optionalStrDecodeMissing :: "addr \<Rightarrow> memory \<Rightarrow> memory" where
  "optionalStrDecodeMissing out m =
     m\<lparr>missing := (missing m)(out := Some True), content := (content m)(out := None)\<rparr>"

definition optionalStrDecoder :: decoder where
  "optionalStrDecoder =
     CodecOf (OtherDecoder ''optionalStrDecoder'') optionalStrDecode
       (Some optionalStrDecodeMissing)"

text \<open>
  Two decoders have the same effect when they agree on \<^verbatim>\<open>DecodeMissing\<close> and, on
  every input, on the result they return and the memory they leave; they may differ in how
  many bytes of their reader they consume.
\<close>

definition sameEffect :: "decoder \<Rightarrow> decoder \<Rightarrow> bool" where
  "sameEffect d d' \<longleftrightarrow>
     DecodeMissing d = DecodeMissing d' \<and>
     (\<forall>b p m. fst (Decode d b p m) = fst (Decode d' b p m)
            \<and> snd (snd (Decode d b p m)) = snd (snd (Decode d' b p m)))"

definition sameField :: "DecoderField \<Rightarrow> DecoderField \<Rightarrow> bool" where
  "sameField f f' \<longleftrightarrow> offset f = offset f' \<and> sameEffect (decoder f) (decoder f')"

text \<open>
  A decoder and a \<^verbatim>\<open>BuildDecoder\<close> for the examples: the decoder stores the bytes it
  is given; the builder gives the string codec for a Go string, the optional string
  decoder for \<^verbatim>\<open>edgedb.OptionalStr\<close>, and for any other type the decoder of a type with
  its own unmarshaler, which is not in the lookup table.
\<close>

definition exampleDecode ::
  "byte list \<Rightarrow> addr \<Rightarrow> memory \<Rightarrow> unit res \<times> byte list \<times> memory" where
  "exampleDecode r out m = (Ok (), [], m\<lparr>content := (content m)(out := Some r)\<rparr>)"

definition exampleBuildDecoder :: BuildDecoder where
  "exampleBuildDecoder dsc typ path =
     (if typ = Basic ''string'' then Ok (CodecOf StrCodec exampleDecode None)
      else if typ = Basic ''edgedb.OptionalStr'' then Ok optionalStrDecoder
      else Ok (CodecOf (OtherDecoder ''unmarshalerDecoder'') exampleDecode None))"

section \<open>The granular flow (edgedb/granular_flow.go)\<close>

text \<open>
  Modelled from the spec: the codecs, the caches, \<^verbatim>\<open>writeAndRead\<close> and
  \<^verbatim>\<open>decodeError\<close> are not under src.

  A codec has an ID, encodes argument values to the bytes it appends to the buffer, and
  decodes a message into a destination value; \<open>None\<close> is a panic of the decoder.

  The connection hands the core an ordered, reliable byte stream and reports a transport
  failure as a distinct error (section 1).  \<open>sent\<close> records every buffer given to
  \<^verbatim>\<open>writeAndRead\<close>; \<open>replies\<close> is what each call will get back: an error, or
  the bytes of the whole response.

  The caches are maps (section 4.5): codecs by query text, format, cardinality and output
  type; descriptors by query; descriptors by the pair of descriptor IDs.

  \<^verbatim>\<open>decodeError\<close> reads the fields of an \<^verbatim>\<open>ErrorResponse\<close> (section 6; the order is
  the one the older \<^verbatim>\<open>QueryWithArgs\<close> of src/unnamed/part_000 pops them in): message
  length, severity, code, message.
\<close>

record 'a Codec =
  codecID :: uuid
  Encode :: "'a val list \<Rightarrow> byte list"
  DecodeInto :: "byte list \<Rightarrow> 'a val \<Rightarrow> 'a val option"

record 'a codecPair =
  In :: "'a Codec"
  Out :: "'a Codec"

record idPair =
  ids_in :: uuid
  ids_out :: uuid

record descPair =
  descs_in :: "byte list"
  descs_out :: "byte list"

record conn =
  sent :: "byte list list"
  replies :: "(error + byte list) list"

definition writeAndRead :: "conn \<Rightarrow> byte list \<Rightarrow> error option \<times> conn \<times> byte list" where
  "writeAndRead c buf =
     (case replies c of
        [] \<Rightarrow> (Some ErrUnexpectedEOF, c\<lparr>sent := sent c @ [buf]\<rparr>, buf)
      | Inl e # rs \<Rightarrow> (Some e, c\<lparr>sent := sent c @ [buf], replies := rs\<rparr>, buf)
      | Inr resp # rs \<Rightarrow> (None, c\<lparr>sent := sent c @ [buf], replies := rs\<rparr>, resp))"

definition decodeError :: "byte list \<Rightarrow> error option" where
  "decodeError msg =
     (case PopUint32 msg of
        None \<Rightarrow> None
      | Some (len, m1) \<Rightarrow>
          (case PopUint8 m1 of
             None \<Rightarrow> None
           | Some (sev, m2) \<Rightarrow>
               (case PopUint32 m2 of
                  None \<Rightarrow> None
                | Some (cd, m3) \<Rightarrow>
                    (case PopString m3 of
                       None \<Rightarrow> None
                     | Some (text, m4) \<Rightarrow> Some (ServerError sev cd text)))))"

record 'a caches =
  codecCache :: "byte list \<times> byte \<times> cardinality \<times> rtype \<Rightarrow> 'a codecPair option"
  descCache :: "byte list \<times> byte \<times> cardinality \<Rightarrow> descPair option"
  descByID :: "uuid \<times> uuid \<Rightarrow> descPair option"

definition getCodecs :: "'a caches \<Rightarrow> ('a, 'b) query_scheme \<Rightarrow> rtype \<Rightarrow> 'a codecPair option" where
  "getCodecs cs q tp = codecCache cs (cmd q, fmt q, expCard q, tp)"

definition putCodecs ::
  "'a caches \<Rightarrow> ('a, 'b) query_scheme \<Rightarrow> rtype \<Rightarrow> 'a codecPair \<Rightarrow> 'a caches" where
  "putCodecs cs q tp cdcs =
     cs\<lparr>codecCache := (codecCache cs)((cmd q, fmt q, expCard q, tp) := Some cdcs)\<rparr>"

definition getDescriptors :: "'a caches \<Rightarrow> ('a, 'b) query_scheme \<Rightarrow> descPair option" where
  "getDescriptors cs q = descCache cs (cmd q, fmt q, expCard q)"

definition putDescriptors :: "'a caches \<Rightarrow> ('a, 'b) query_scheme \<Rightarrow> descPair \<Rightarrow> 'a caches" where
  "putDescriptors cs q descs =
     cs\<lparr>descCache := (descCache cs)((cmd q, fmt q, expCard q) := Some descs)\<rparr>"

definition getDescriptorsByID :: "'a caches \<Rightarrow> idPair \<Rightarrow> descPair option" where
  "getDescriptorsByID cs ids = descByID cs (ids_in ids, ids_out ids)"

definition putDescriptorsByID :: "'a caches \<Rightarrow> idPair \<Rightarrow> descPair \<Rightarrow> 'a caches" where
  "putDescriptorsByID cs ids descs =
     cs\<lparr>descByID := (descByID cs)((ids_in ids, ids_out ids) := Some descs)\<rparr>"

text \<open>
  The parameters of the flow: \<^verbatim>\<open>buildCodecs\<close>, which is not under src, and the zero
  value \<^verbatim>\<open>reflect.New(tp).Elem()\<close> of a type.
\<close>

record 'a flow_deps =
  buildCodecs :: "'a query \<Rightarrow> rtype \<Rightarrow> descPair \<Rightarrow> 'a codecPair res"
  Zero :: "rtype \<Rightarrow> 'a val"

text \<open>
  What a call works on: the connection, the process-wide caches, and the caller's memory
  that the \<^verbatim>\<open>reflect.Value\<close> \<^verbatim>\<open>out\<close> refers to, with its static type.
\<close>

record 'a world =
  conn :: conn
  cache :: "'a caches"
  dest :: "'a val"
  destType :: rtype

text \<open>
  \<^verbatim>\<open>reflect\<close>.  \<^verbatim>\<open>Type.Elem\<close> panics unless the kind of the type is Array, Chan,
  Map, Pointer or Slice.  \<^verbatim>\<open>Value.SetLen\<close> and \<^verbatim>\<open>Append\<close> panic on a value that is
  not a slice; a value of any other kind is an atom here.  The variable \<^verbatim>\<open>o\<close> starts as a copy of
  the \<^verbatim>\<open>reflect.Value\<close> \<^verbatim>\<open>out\<close>, which refers to the same slice header as
  \<^verbatim>\<open>out\<close> (\<open>SameAsOut\<close>: it reads whatever the destination holds at that moment), and
  becomes the fresh slice value that \<^verbatim>\<open>reflect.Append\<close> returns (\<open>Fresh\<close>).
\<close>

fun Elem :: "rtype \<Rightarrow> rtype option" where
  "Elem (SliceOf t) = Some t"
| "Elem (ArrayOf n t) = Some t"
| "Elem (PtrTo t) = Some t"
| "Elem (MapOf k t) = Some t"
| "Elem (ChanOf t) = Some t"
| "Elem (Basic n) = None"
| "Elem (StructOf n opt fs) = None"

fun SetLen :: "'a val \<Rightarrow> nat \<Rightarrow> 'a val option" where
  "SetLen (Slice xs) n = (if n \<le> length xs then Some (Slice (take n xs)) else None)"
| "SetLen (Atom a) n = None"

fun Append :: "'a val \<Rightarrow> 'a val \<Rightarrow> 'a val option" where
  "Append (Slice xs) x = Some (Slice (xs @ [x]))"
| "Append (Atom a) x = None"

datatype 'a ovalue = SameAsOut | Fresh "'a val"

fun valueOf :: "'a ovalue \<Rightarrow> 'a val \<Rightarrow> 'a val" where
  "valueOf SameAsOut d = d"
| "valueOf (Fresh v) d = v"

text \<open>\<^verbatim>\<open>prepare\<close>: the request, and the loop \<^verbatim>\<open>for len(buf) > 4\<close> over the response.\<close>

definition prepareRequest :: "'a query \<Rightarrow> byte list" where
  "prepareRequest q =
     (let buf = [Prepare, 0, 0, 0, 0];
          buf = PushUint16 buf 0;
          buf = PushUint8 buf (fmt q);
          buf = PushUint8 buf (cardinalityByte (expCard q));
          buf = PushBytes buf [];
          buf = PushString buf (cmd q);
          buf = PutMsgLength buf
      in buf @ [Sync, 0, 0, 0, 4])"

function prepareLoop :: "byte list \<Rightarrow> idPair \<Rightarrow> idPair res" where
  "prepareLoop buf ids =
     (if length buf > 4 then
        (case PopMessage buf of
           None \<Rightarrow> Panic IndexOutOfRange
         | Some (msg, buf') \<Rightarrow>
             (case PopUint8 msg of
                None \<Rightarrow> Panic IndexOutOfRange
              | Some (mType, msg1) \<Rightarrow>
                  if mType = PrepareComplete then
                    (case PopUint32 msg1 of
                       None \<Rightarrow> Panic IndexOutOfRange
                     | Some (len, msg2) \<Rightarrow>
                    (case PopUint16 msg2 of
                       None \<Rightarrow> Panic IndexOutOfRange
                     | Some (nh, msg3) \<Rightarrow>
                    (case PopUint8 msg3 of
                       None \<Rightarrow> Panic IndexOutOfRange
                     | Some (crd, msg4) \<Rightarrow>
                    (case PopUUID msg4 of
                       None \<Rightarrow> Panic IndexOutOfRange
                     | Some (i, msg5) \<Rightarrow>
                    (case PopUUID msg5 of
                       None \<Rightarrow> Panic IndexOutOfRange
                     | Some (j, msg6) \<Rightarrow>
                         prepareLoop buf' \<lparr>ids_in = i, ids_out = j\<rparr>)))))
                  else if mType = ReadyForCommand then prepareLoop buf' ids
                  else if mType = ErrorResponse then
                    (case decodeError msg1 of
                       None \<Rightarrow> Panic IndexOutOfRange
                     | Some e \<Rightarrow> Err e)
                  else Panic (UnexpectedMessageType mType)))
      else Ok ids)"
  by pat_completeness auto
termination
  by (relation "measure (\<lambda>(buf, ids). length buf)") (auto simp: PopMessage_def Let_def split: if_splits)

definition prepare :: "conn \<Rightarrow> 'a query \<Rightarrow> idPair res \<times> conn" where
  "prepare c q =
     (case writeAndRead c (prepareRequest q) of
        (Some e, c', buf) \<Rightarrow> (Err e, c')
      | (None, c', buf) \<Rightarrow> (prepareLoop buf \<lparr>ids_in = replicate 16 0, ids_out = replicate 16 0\<rparr>, c'))"

text \<open>\<^verbatim>\<open>describe\<close>\<close>

definition describeRequest :: "byte list" where
  "describeRequest =
     (let buf = [DescribeStatement, 0, 0, 0, 0];
          buf = PushUint16 buf 0;
          buf = PushUint8 buf DataDescription;
          buf = PushUint32 buf 0;
          buf = PutMsgLength buf
      in buf @ [Sync, 0, 0, 0, 4])"

function describeLoop :: "byte list \<Rightarrow> descPair \<Rightarrow> descPair res" where
  "describeLoop buf descs =
     (if length buf > 4 then
        (case PopMessage buf of
           None \<Rightarrow> Panic IndexOutOfRange
         | Some (msg, buf') \<Rightarrow>
             (case PopUint8 msg of
                None \<Rightarrow> Panic IndexOutOfRange
              | Some (mType, msg1) \<Rightarrow>
                  if mType = CommandDataDescription then
                    (case PopUint32 msg1 of
                       None \<Rightarrow> Panic IndexOutOfRange
                     | Some (len, msg2) \<Rightarrow>
                    (case PopUint16 msg2 of
                       None \<Rightarrow> Panic IndexOutOfRange
                     | Some (nh, msg3) \<Rightarrow>
                    (case PopUint8 msg3 of
                       None \<Rightarrow> Panic IndexOutOfRange
                     | Some (crd, msg4) \<Rightarrow>
                    (case PopUUID msg4 of
                       None \<Rightarrow> Panic IndexOutOfRange
                     | Some (i, msg5) \<Rightarrow>
                    (case PopBytes msg5 of
                       None \<Rightarrow> Panic IndexOutOfRange
                     | Some (din, msg6) \<Rightarrow>
                    (case PopUUID msg6 of
                       None \<Rightarrow> Panic IndexOutOfRange
                     | Some (j, msg7) \<Rightarrow>
                    (case PopBytes msg7 of
                       None \<Rightarrow> Panic IndexOutOfRange
                     | Some (dout, msg8) \<Rightarrow>
                         describeLoop buf'
                           \<lparr>descs_in = descs_in descs @ din,
                            descs_out = descs_out descs @ dout\<rparr>)))))))
                  else if mType = ReadyForCommand then describeLoop buf' descs
                  else if mType = ErrorResponse then
                    (case decodeError msg1 of
                       None \<Rightarrow> Panic IndexOutOfRange
                     | Some e \<Rightarrow> Err e)
                  else Panic (UnexpectedMessageType mType)))
      else Ok descs)"
  by pat_completeness auto
termination
  by (relation "measure (\<lambda>(buf, descs). length buf)") (auto simp: PopMessage_def Let_def split: if_splits)

definition describe :: "conn \<Rightarrow> descPair res \<times> conn" where
  "describe c =
     (case writeAndRead c describeRequest of
        (Some e, c', buf) \<Rightarrow> (Err e, c')
      | (None, c', buf) \<Rightarrow> (describeLoop buf \<lparr>descs_in = [], descs_out = []\<rparr>, c'))"

text \<open>
  The response loop of \<^verbatim>\<open>execute\<close>, \<^verbatim>\<open>for len(buf) > 0\<close>.  Its state is the unread
  buffer, \<^verbatim>\<open>o\<close>, the destination and \<^verbatim>\<open>err\<close>.  \<open>Inl\<close> is a return (or a panic)
  from inside the loop; \<open>Inr\<close> is the state when the buffer is empty.
\<close>

function executeLoop ::
  "'a flow_deps \<Rightarrow> 'a query \<Rightarrow> rtype \<Rightarrow> 'a codecPair \<Rightarrow> byte list \<Rightarrow> 'a ovalue \<Rightarrow> 'a val
     \<Rightarrow> error option \<Rightarrow> (unit res + 'a ovalue \<times> error option) \<times> 'a val" where
  "executeLoop d q tp cdcs buf ov out err =
     (if length buf > 0 then
        (case PopMessage buf of
           None \<Rightarrow> (Inl (Panic IndexOutOfRange), out)
         | Some (msg, buf') \<Rightarrow>
             (case PopUint8 msg of
                None \<Rightarrow> (Inl (Panic IndexOutOfRange), out)
              | Some (mType, msg1) \<Rightarrow>
                  if mType = Data then
                    (case PopUint32 msg1 of
                       None \<Rightarrow> (Inl (Panic IndexOutOfRange), out)
                     | Some (len, msg2) \<Rightarrow>
                    (case PopUint16 msg2 of
                       None \<Rightarrow> (Inl (Panic IndexOutOfRange), out)
                     | Some (n, msg3) \<Rightarrow>
                         if \<not> flat q then
                           (case DecodeInto (Out cdcs) msg3 (Zero d tp) of
                              None \<Rightarrow> (Inl (Panic (OtherPanic ''Decode'')), out)
                            | Some v \<Rightarrow>
                                (case Append (valueOf ov out) v of
                                   None \<Rightarrow> (Inl (Panic ReflectPanic), out)
                                 | Some ov' \<Rightarrow>
                                     executeLoop d q tp cdcs buf' (Fresh ov') out None))
                         else
                           (case DecodeInto (Out cdcs) msg3 out of
                              None \<Rightarrow> (Inl (Panic (OtherPanic ''Decode'')), out)
                            | Some out' \<Rightarrow> executeLoop d q tp cdcs buf' ov out' None)))
                  else if mType = CommandComplete then executeLoop d q tp cdcs buf' ov out err
                  else if mType = ReadyForCommand then executeLoop d q tp cdcs buf' ov out err
                  else if mType = ErrorResponse then
                    (case decodeError msg1 of
                       None \<Rightarrow> (Inl (Panic IndexOutOfRange), out)
                     | Some e \<Rightarrow> (Inl (Err e), out))
                  else (Inl (Panic (UnexpectedMessageType mType)), out)))
      else (Inr (ov, err), out))"
  by pat_completeness auto
termination
  by (relation "measure (\<lambda>(d, q, tp, cdcs, buf, ov, out, err). length buf)")
     (auto simp: PopMessage_def Let_def split: if_splits)

text \<open>
  The response loop of \<^verbatim>\<open>optimistic\<close> differs in one place: it skips the message
  length and the number of data elements with \<^verbatim>\<open>msg = msg[6:]\<close>.
\<close>

function optimisticLoop ::
  "'a flow_deps \<Rightarrow> 'a query \<Rightarrow> rtype \<Rightarrow> 'a codecPair \<Rightarrow> byte list \<Rightarrow> 'a ovalue \<Rightarrow> 'a val
     \<Rightarrow> error option \<Rightarrow> (unit res + 'a ovalue \<times> error option) \<times> 'a val" where
  "optimisticLoop d q tp cdcs buf ov out err =
     (if length buf > 0 then
        (case PopMessage buf of
           None \<Rightarrow> (Inl (Panic IndexOutOfRange), out)
         | Some (msg, buf') \<Rightarrow>
             (case PopUint8 msg of
                None \<Rightarrow> (Inl (Panic IndexOutOfRange), out)
              | Some (mType, msg1) \<Rightarrow>
                  if mType = Data then
                    (case Discard msg1 6 of
                       None \<Rightarrow> (Inl (Panic IndexOutOfRange), out)
                     | Some msg3 \<Rightarrow>
                         if \<not> flat q then
                           (case DecodeInto (Out cdcs) msg3 (Zero d tp) of
                              None \<Rightarrow> (Inl (Panic (OtherPanic ''Decode'')), out)
                            | Some v \<Rightarrow>
                                (case Append (valueOf ov out) v of
                                   None \<Rightarrow> (Inl (Panic ReflectPanic), out)
                                 | Some ov' \<Rightarrow>
                                     optimisticLoop d q tp cdcs buf' (Fresh ov') out None))
                         else
                           (case DecodeInto (Out cdcs) msg3 out of
                              None \<Rightarrow> (Inl (Panic (OtherPanic ''Decode'')), out)
                            | Some out' \<Rightarrow> optimisticLoop d q tp cdcs buf' ov out' None))
                  else if mType = CommandComplete then
                    optimisticLoop d q tp cdcs buf' ov out err
                  else if mType = ReadyForCommand then
                    optimisticLoop d q tp cdcs buf' ov out err
                  else if mType = ErrorResponse then
                    (case decodeError msg1 of
                       None \<Rightarrow> (Inl (Panic IndexOutOfRange), out)
                     | Some e \<Rightarrow> (Inl (Err e), out))
                  else (Inl (Panic (UnexpectedMessageType mType)), out)))
      else (Inr (ov, err), out))"
  by pat_completeness auto
termination
  by (relation "measure (\<lambda>(d, q, tp, cdcs, buf, ov, out, err). length buf)")
     (auto simp: PopMessage_def Let_def split: if_splits)

text \<open>\<^verbatim>\<open>execute\<close>\<close>

definition executeRequest :: "'a query \<Rightarrow> 'a codecPair \<Rightarrow> byte list" where
  "executeRequest q cdcs =
     (let buf = [Execute, 0, 0, 0, 0];
          buf = PushUint16 buf 0;
          buf = PushBytes buf [];
          buf = buf @ Encode (In cdcs) (args q);
          buf = PutMsgLength buf
      in buf @ [Sync, 0, 0, 0, 4])"

definition execute ::
  "'a flow_deps \<Rightarrow> 'a world \<Rightarrow> 'a query \<Rightarrow> rtype \<Rightarrow> 'a codecPair \<Rightarrow> unit res \<times> 'a world" where
  "execute d w q tp cdcs =
     (case writeAndRead (conn w) (executeRequest q cdcs) of
        (Some e, c', buf) \<Rightarrow> (Err e, w\<lparr>conn := c'\<rparr>)
      | (None, c', buf) \<Rightarrow>
          (case (if \<not> flat q then SetLen (dest w) 0 else Some (dest w)) of
             None \<Rightarrow> (Panic ReflectPanic, w\<lparr>conn := c'\<rparr>)
           | Some out \<Rightarrow>
               (case executeLoop d q tp cdcs buf SameAsOut out (Some ErrorZeroResults) of
                  (Inl r, out') \<Rightarrow> (r, w\<lparr>conn := c', dest := out'\<rparr>)
                | (Inr (ov, err), out') \<Rightarrow>
                    (case err of None \<Rightarrow> Ok () | Some e \<Rightarrow> Err e,
                     w\<lparr>conn := c',
                       dest := (if \<not> flat q then valueOf ov out' else out')\<rparr>))))"

text \<open>\<^verbatim>\<open>optimistic\<close>\<close>

definition optimisticRequest :: "'a query \<Rightarrow> 'a codecPair \<Rightarrow> byte list" where
  "optimisticRequest q cdcs =
     (let inID = codecID (In cdcs);
          outID = codecID (Out cdcs);
          buf = [OptimisticExecute, 0, 0, 0, 0, 0, 0, fmt q, cardinalityByte (expCard q)];
          buf = PushString buf (cmd q);
          buf = buf @ inID;
          buf = buf @ outID;
          buf = buf @ Encode (In cdcs) (args q);
          buf = PutMsgLength buf
      in buf @ [Sync, 0, 0, 0, 4])"

definition optimistic ::
  "'a flow_deps \<Rightarrow> 'a world \<Rightarrow> 'a query \<Rightarrow> rtype \<Rightarrow> 'a codecPair \<Rightarrow> unit res \<times> 'a world" where
  "optimistic d w q tp cdcs =
     (case writeAndRead (conn w) (optimisticRequest q cdcs) of
        (Some e, c', buf) \<Rightarrow> (Err e, w\<lparr>conn := c'\<rparr>)
      | (None, c', buf) \<Rightarrow>
          (case (if \<not> flat q then SetLen (dest w) 0 else Some (dest w)) of
             None \<Rightarrow> (Panic ReflectPanic, w\<lparr>conn := c'\<rparr>)
           | Some out \<Rightarrow>
               (case optimisticLoop d q tp cdcs buf SameAsOut out (Some ErrorZeroResults) of
                  (Inl r, out') \<Rightarrow> (r, w\<lparr>conn := c', dest := out'\<rparr>)
                | (Inr (ov, err), out') \<Rightarrow>
                    (case err of None \<Rightarrow> Ok () | Some e \<Rightarrow> Err e,
                     w\<lparr>conn := c',
                       dest := (if \<not> flat q then valueOf ov out' else out')\<rparr>))))"

text \<open>\<^verbatim>\<open>pesimistic\<close>\<close>

definition pesimistic ::
  "'a flow_deps \<Rightarrow> 'a world \<Rightarrow> 'a query \<Rightarrow> rtype \<Rightarrow> unit res \<times> 'a world" where
  "pesimistic d w q tp =
     (case prepare (conn w) q of
        (Err e, c1) \<Rightarrow> (Err e, w\<lparr>conn := c1\<rparr>)
      | (Panic x, c1) \<Rightarrow> (Panic x, w\<lparr>conn := c1\<rparr>)
      | (Ok ids, c1) \<Rightarrow>
          (case (case getDescriptorsByID (cache w) ids of
                   Some descs \<Rightarrow> (Ok descs, c1, cache w)
                 | None \<Rightarrow>
                     (case describe c1 of
                        (Ok descs, c2) \<Rightarrow> (Ok descs, c2, putDescriptorsByID (cache w) ids descs)
                      | (Err e, c2) \<Rightarrow> (Err e, c2, cache w)
                      | (Panic x, c2) \<Rightarrow> (Panic x, c2, cache w))) of
             (Err e, c2, cs) \<Rightarrow> (Err e, w\<lparr>conn := c2, cache := cs\<rparr>)
           | (Panic x, c2, cs) \<Rightarrow> (Panic x, w\<lparr>conn := c2, cache := cs\<rparr>)
           | (Ok descs, c2, cs) \<Rightarrow>
               (let cs = putDescriptors cs q descs in
                case buildCodecs d q tp descs of
                  Err e \<Rightarrow> (Err e, w\<lparr>conn := c2, cache := cs\<rparr>)
                | Panic x \<Rightarrow> (Panic x, w\<lparr>conn := c2, cache := cs\<rparr>)
                | Ok cdcs \<Rightarrow>
                    execute d (w\<lparr>conn := c2, cache := putCodecs cs q tp cdcs\<rparr>) q tp cdcs)))"

text \<open>\<^verbatim>\<open>granularFlow\<close>\<close>

definition granularFlow :: "'a flow_deps \<Rightarrow> 'a world \<Rightarrow> 'a query \<Rightarrow> unit res \<times> 'a world" where
  "granularFlow d w q =
     (case (if \<not> flat q then Elem (destType w) else Some (destType w)) of
        None \<Rightarrow> (Panic ReflectPanic, w)
      | Some tp \<Rightarrow>
          (case getCodecs (cache w) q tp of
             Some cdcs \<Rightarrow> optimistic d w q tp cdcs
           | None \<Rightarrow>
               (case getDescriptors (cache w) q of
                  Some descs \<Rightarrow>
                    (case buildCodecs d q tp descs of
                       Err e \<Rightarrow> (Err e, w)
                     | Panic x \<Rightarrow> (Panic x, w)
                     | Ok cdcs \<Rightarrow>
                         optimistic d (w\<lparr>cache := putCodecs (cache w) q tp cdcs\<rparr>) q tp cdcs)
                | None \<Rightarrow> pesimistic d w q tp)))"

text \<open>
  The messages of a response buffer, as \<^verbatim>\<open>PopMessage\<close> splits it: \<open>None\<close> when the
  framing is broken.  The first byte of a message is its type; the body of a
  \<^verbatim>\<open>Data\<close> message starts after the type byte, the length and the element count.
\<close>

function messages :: "byte list \<Rightarrow> byte list list option" where
  "messages buf =
     (if length buf > 0 then
        (case PopMessage buf of
           None \<Rightarrow> None
         | Some (msg, buf') \<Rightarrow>
             (case messages buf' of None \<Rightarrow> None | Some ms \<Rightarrow> Some (msg # ms)))
      else Some [])"
  by pat_completeness auto
termination
  by (relation "measure length") (auto simp: PopMessage_def Let_def split: if_splits)

definition mType :: "byte list \<Rightarrow> byte" where
  "mType msg = (case msg of [] \<Rightarrow> 0 | t # body \<Rightarrow> t)"

definition dataBody :: "byte list \<Rightarrow> byte list" where
  "dataBody msg = drop 7 msg"

definition firstByte :: "byte list \<Rightarrow> byte option" where
  "firstByte buf = (case buf of [] \<Rightarrow> None | t # rest \<Rightarrow> Some t)"

text \<open>
  Notions for stating what the response loops do.  A message is recognised when the
  switch has a case for it that goes on with the loop.  \<open>rowsOf\<close> are the rows a list
  of messages carries for a query that is not flat: every \<^verbatim>\<open>Data\<close> message decoded
  into a zero value of the element type, in order (\<open>None\<close> when a \<^verbatim>\<open>Data\<close> message is
  too short or its decoding panics).  \<open>decodeAll\<close> is what a flat query's destination
  holds after every \<^verbatim>\<open>Data\<close> message was decoded into it, one after the other.
\<close>

definition recognised :: "byte list \<Rightarrow> bool" where
  "recognised msg \<longleftrightarrow> mType msg = Data \<or> mType msg = CommandComplete \<or> mType msg = ReadyForCommand"

fun rowsOf :: "'a flow_deps \<Rightarrow> rtype \<Rightarrow> 'a codecPair \<Rightarrow> byte list list \<Rightarrow> 'a val list option" where
  "rowsOf d tp cdcs [] = Some []"
| "rowsOf d tp cdcs (m # ms) =
     (if mType m = Data then
        (if length m < 7 then None
         else case DecodeInto (Out cdcs) (dataBody m) (Zero d tp) of
                None \<Rightarrow> None
              | Some v \<Rightarrow> (case rowsOf d tp cdcs ms of None \<Rightarrow> None | Some vs \<Rightarrow> Some (v # vs)))
      else rowsOf d tp cdcs ms)"

fun decodeAll :: "'a codecPair \<Rightarrow> byte list list \<Rightarrow> 'a val \<Rightarrow> 'a val option" where
  "decodeAll cdcs [] out = Some out"
| "decodeAll cdcs (m # ms) out =
     (if mType m = Data then
        (if length m < 7 then None
         else case DecodeInto (Out cdcs) (dataBody m) out of
                None \<Rightarrow> None
              | Some out' \<Rightarrow> decodeAll cdcs ms out')
      else decodeAll cdcs ms out)"

text \<open>
  Values for the examples: a codec whose decoder stores the bytes of the message body it
  is given as an atom, a world with one scripted reply, and a query of a given cardinality.
\<close>

definition exampleCodec :: "byte list Codec" where
  "exampleCodec =
     \<lparr>codecID = [], Encode = (\<lambda>args. []), DecodeInto = (\<lambda>msg v. Some (Atom msg))\<rparr>"

definition exampleCodecs :: "byte list codecPair" where
  "exampleCodecs = \<lparr>In = exampleCodec, Out = exampleCodec\<rparr>"

definition exampleDeps :: "byte list flow_deps" where
  "exampleDeps = \<lparr>buildCodecs = (\<lambda>q tp descs. Ok exampleCodecs), Zero = (\<lambda>tp. Atom [])\<rparr>"

definition exampleWorld :: "byte list val \<Rightarrow> rtype \<Rightarrow> byte list \<Rightarrow> byte list world" where
  "exampleWorld v t reply =
     \<lparr>conn = \<lparr>sent = [], replies = [Inr reply]\<rparr>,
      cache = \<lparr>codecCache = (\<lambda>k. None), descCache = (\<lambda>k. None), descByID = (\<lambda>k. None)\<rparr>,
      dest = v, destType = t\<rparr>"

definition exampleQuery :: "cardinality \<Rightarrow> byte list query" where
  "exampleQuery c = \<lparr>cmd = [0x73], fmt = 0x62, expCard = c, args = []\<rparr>"

text \<open>
  For stating what the script flow returns: the request \<^verbatim>\<open>execScriptFlow\<close> writes, and
  the value of \<^verbatim>\<open>err\<close> after the loop has met a list of messages, every
  \<^verbatim>\<open>ErrorResponse\<close> decoded and combined by \<^verbatim>\<open>wrapAll\<close>.  The example collaborators
  keep the first error and refuse every message the switch does not name.
\<close>

definition scriptRequest :: "'a query0pX \<Rightarrow> byte list" where
  "scriptRequest q =
     Unwrap (EndMessage (wPushString
       (writeHeaders (BeginMessage (NewWriter []) ExecuteScript) (headers0pX q)) (cmd q)))"

definition scriptErrors ::
  "script_deps \<Rightarrow> byte list \<Rightarrow> error option \<Rightarrow> (byte \<times> byte list) list \<Rightarrow> error option" where
  "scriptErrors d c err ms =
     foldl (\<lambda>err (t, body).
              if t = ErrorResponse then wrapAll d err (decodeErrorResponseMsg d body c) else err)
       err ms"

definition exampleScriptDeps :: script_deps where
  "exampleScriptDeps =
     \<lparr>decodeErrorResponseMsg = (\<lambda>body c. ServerError 0x78 1 body),
      wrapAll = (\<lambda>err e. case err of None \<Rightarrow> Some e | Some e0 \<Rightarrow> Some e0),
      fallThrough = (\<lambda>t body. Some (OtherError ''unexpected message''))\<rparr>"

text \<open>
  The types of the messages in a request buffer, and caches for the examples: codecs of
  the query for another output type, and the query's descriptors.
\<close>

definition requestTypes :: "byte list \<Rightarrow> byte list option" where
  "requestTypes buf = map_option (map mType) (messages buf)"

definition exampleCaches :: "byte list caches" where
  "exampleCaches =
     \<lparr>codecCache =
        (\<lambda>k. None)(([0x73], 0x62, One, Basic ''other'') :=
           Some \<lparr>In = exampleCodec\<lparr>codecID := [1]\<rparr>, Out = exampleCodec\<lparr>codecID := [2]\<rparr>\<rparr>),
      descCache = (\<lambda>k. None)(([0x73], 0x62, One) := Some \<lparr>descs_in = [], descs_out = []\<rparr>),
      descByID = (\<lambda>k. None)\<rparr>"

text \<open>
  A session for the examples in which both caches miss: the server answers the
  \<^verbatim>\<open>Prepare\<close> with the two descriptor IDs, the \<^verbatim>\<open>DescribeStatement\<close> with the two
  descriptors, and the \<^verbatim>\<open>Execute\<close> with one row.
\<close>

definition examplePrepareReply :: "byte list" where
  "examplePrepareReply =
     [0x31, 0,0,0,39, 0,0, 0x6f,
      1,1,1,1, 1,1,1,1, 1,1,1,1, 1,1,1,1,
      2,2,2,2, 2,2,2,2, 2,2,2,2, 2,2,2,2,
      0x5a, 0,0,0,4]"

definition exampleIds :: idPair where
  "exampleIds = \<lparr>ids_in = [1,1,1,1, 1,1,1,1, 1,1,1,1, 1,1,1,1],
                 ids_out = [2,2,2,2, 2,2,2,2, 2,2,2,2, 2,2,2,2]\<rparr>"

definition exampleDescribeReply :: "byte list" where
  "exampleDescribeReply =
     [0x54, 0,0,0,49, 0,0, 0x6f,
      1,1,1,1, 1,1,1,1, 1,1,1,1, 1,1,1,1, 0,0,0,1, 7,
      2,2,2,2, 2,2,2,2, 2,2,2,2, 2,2,2,2, 0,0,0,1, 8,
      0x5a, 0,0,0,4]"

definition exampleSession :: "byte list world" where
  "exampleSession =
     (exampleWorld (Atom [9]) (Basic ''bytes'') [])
       \<lparr>conn := \<lparr>sent = [],
                 replies = [Inr examplePrepareReply, Inr exampleDescribeReply,
                            Inr [0x44, 0,0,0,7, 0,1, 0x2a, 0x43, 0,0,0,4, 0x5a, 0,0,0,4]]\<rparr>\<rparr>"

section \<open>Properties\<close>

lemmas message_consts =
  Data_def CommandComplete_def ReadyForCommand_def ErrorResponse_def PrepareComplete_def
  CommandDataDescription_def Prepare_def DescribeStatement_def Execute_def
  OptimisticExecute_def Sync_def ExecuteScript_def DataDescription_def

subsection \<open>Script flow\<close>

text \<open>
  C9.  A query whose session state is not empty is refused before anything is written:
  \<^verbatim>\<open>execScriptFlow\<close> returns \<^verbatim>\<open>errStateNotSupported\<close>, the connection (its
  socket and all that was written to it) is the one it was given, and the reader is
  untouched, so no response has been consumed.
\<close>

theorem execScriptFlow_state_not_supported:
  assumes "state q \<noteq> []"
  shows "execScriptFlow d c r q = (Some errStateNotSupported, c, r)"
  using assms by (simp add: execScriptFlow_def)

theorem execScriptFlow_state_not_supported_witness:
  "state \<lparr>cmd = [0x73], fmt = 0x62, expCard = Many, args = [], state = [1], headers0pX = []\<rparr> \<noteq> []
   \<and> execScriptFlow
        \<lparr>decodeErrorResponseMsg = (\<lambda>b c. ServerError 0 0 b), wrapAll = (\<lambda>a e. Some e),
         fallThrough = (\<lambda>t b. None)\<rparr>
        \<lparr>soc = \<lparr>written = [], wfail = None\<rparr>\<rparr>
        \<lparr>pending = [Inr (ReadyForCommand, [])], MsgType = 0, Buf = [], rErr = None\<rparr>
        \<lparr>cmd = [0x73], fmt = 0x62, expCard = Many, args = [], state = [1], headers0pX = []\<rparr>
     = (Some errStateNotSupported,
        \<lparr>soc = \<lparr>written = [], wfail = None\<rparr>\<rparr>,
        \<lparr>pending = [Inr (ReadyForCommand, [])], MsgType = 0, Buf = [], rErr = None\<rparr>)"
proof -
  have h: "state \<lparr>cmd = [0x73], fmt = 0x62, expCard = Many, args = [], state = [1], headers0pX = []\<rparr> \<noteq> []"
    by simp
  show ?thesis
    using h execScriptFlow_state_not_supported [OF h] by simp
qed

subsection \<open>Object decoding\<close>

lemma PopUint32_drop: "PopUint32 r = Some (n, r1) \<Longrightarrow> r1 = drop 4 r \<and> 4 \<le> length r"
  by (auto simp: PopUint32_def split: if_splits)

lemma Discard_drop: "Discard r n = Some r1 \<Longrightarrow> r1 = drop n r \<and> n \<le> length r"
  by (auto simp: Discard_def split: if_splits)

lemma PopSlice_take_drop:
  "PopSlice r n = Some (s, r3) \<Longrightarrow>
     s = take (unat n) r \<and> r3 = drop (unat n) r \<and> length s = unat n"
  by (auto simp: PopSlice_def split: if_splits)

declare decodeObject.simps [simp del]

lemma decodeObject_mismatch:
  assumes "PopUint32 r = Some (elmCount, r1)"
    and "unat elmCount \<noteq> length fs"
  shows "decodeObject fs r out m =
           (Err (ErrWrongNumberOfFields (length fs) (unat elmCount)), drop 4 r, m)"
  using assms PopUint32_drop [OF assms(1)] by (simp add: decodeObject.simps)

lemma field_position:
  assumes "Discard r0 4 = Some ra" and "PopUint32 ra = Some (elmLen, rb)"
    and "PopSlice rb elmLen = Some (s, rc)"
  shows "rc = drop (8 + unat elmLen) r0"
  using Discard_drop [OF assms(1)] PopUint32_drop [OF assms(2)]
    PopSlice_take_drop [OF assms(3)]
  by (simp add: add.commute)

text \<open>
  C2.  When the element count an object value declares differs from the number of
  compiled fields, \<^verbatim>\<open>objectDecoder.Decode\<close> (and the optional object decoder, which
  embeds it) returns the error "wrong number of object fields", which carries the
  expected and the actual count, after reading only the four bytes of the count.  When
  the object is a field of a parent, its reader \<open>r\<close> is the \<open>elmLen\<close> bytes the parent
  declared for it; the parent returns the same error with its own reader exactly past
  those bytes (8 bytes of marker and length, then \<open>elmLen\<close>), and the memory is
  untouched.
\<close>

theorem objectDecoder_count_mismatch:
  assumes "PopUint32 r = Some (elmCount, r1)"
    and "unat elmCount \<noteq> length fs"
  shows "Decode (objectDecoder i fs) r out m =
           (Err (ErrWrongNumberOfFields (length fs) (unat elmCount)), drop 4 r, m)
       \<and> Decode (optionalObjectDecoder i fs typ) r out m =
           (Err (ErrWrongNumberOfFields (length fs) (unat elmCount)), drop 4 r,
            SetMissing typ out False m)
       \<and> (\<forall>r0 ra elmLen rb rc nm off rest.
             Discard r0 4 = Some ra \<and> PopUint32 ra = Some (elmLen, rb)
             \<and> elmLen \<noteq> 0xffffffff \<and> PopSlice rb elmLen = Some (r, rc) \<longrightarrow>
             decodeFields (DecoderField nm off (objectDecoder i fs) # rest) r0 out m =
               (Err (ErrWrongNumberOfFields (length fs) (unat elmCount)),
                drop (8 + unat elmLen) r0, m))"
proof -
  have inner: "decodeObject fs r p m' =
      (Err (ErrWrongNumberOfFields (length fs) (unat elmCount)), drop 4 r, m')" for p m'
    using assms by (rule decodeObject_mismatch)
  have nested: "decodeFields (DecoderField nm off (objectDecoder i fs) # rest) r0 out m =
               (Err (ErrWrongNumberOfFields (length fs) (unat elmCount)),
                drop (8 + unat elmLen) r0, m)"
    if "Discard r0 4 = Some ra" "PopUint32 ra = Some (elmLen, rb)"
      "elmLen \<noteq> 0xffffffff" "PopSlice rb elmLen = Some (r, rc)"
    for r0 ra elmLen rb rc nm off rest
  proof -
    have "rc = drop (8 + unat elmLen) r0"
      using that(1,2,4) by (rule field_position)
    then show ?thesis using that by (simp add: inner)
  qed
  show ?thesis
    using nested by (simp add: inner)
qed

theorem objectDecoder_count_mismatch_witness:
  "Decode (objectDecoder [] [DecoderField ''a'' 0 optionalStrDecoder])
        [0,0,0,2, 0,0,0,0, 0,0,0,0, 0,0,0,0, 0,0,0,0] 16
        \<lparr>missing = (\<lambda>a. None), content = (\<lambda>a. None)\<rparr>
     = (Err (ErrWrongNumberOfFields 1 2), [0,0,0,0, 0,0,0,0, 0,0,0,0, 0,0,0,0],
        \<lparr>missing = (\<lambda>a. None), content = (\<lambda>a. None)\<rparr>)
   \<and> decodeFields
        [DecoderField ''o'' 8 (objectDecoder [] [DecoderField ''a'' 0 optionalStrDecoder]),
         DecoderField ''s'' 0 optionalStrDecoder]
        [0,0,0,0, 0,0,0,20, 0,0,0,2, 0,0,0,0, 0,0,0,0, 0,0,0,0, 0,0,0,0,
         0,0,0,0, 0,0,0,1, 7] 16
        \<lparr>missing = (\<lambda>a. None), content = (\<lambda>a. None)\<rparr>
     = (Err (ErrWrongNumberOfFields 1 2), [0,0,0,0, 0,0,0,1, 7],
        \<lparr>missing = (\<lambda>a. None), content = (\<lambda>a. None)\<rparr>)"
proof -
  let ?parent = "[0,0,0,0, 0,0,0,20, 0,0,0,2, 0,0,0,0, 0,0,0,0, 0,0,0,0, 0,0,0,0,
         0,0,0,0, 0,0,0,1, 7] :: byte list"
  let ?child = "[0,0,0,2, 0,0,0,0, 0,0,0,0, 0,0,0,0, 0,0,0,0] :: byte list"
  let ?mem = "\<lparr>missing = (\<lambda>a. None), content = (\<lambda>a. None)\<rparr>"
  have 1: "PopUint32 ?child = Some (2, drop 4 ?child)"
    by (simp add: PopUint32_def be_nat_def)
  have 2: "unat (2 :: 32 word) \<noteq> length [DecoderField ''a'' 0 optionalStrDecoder]"
    by simp
  have 3: "Discard ?parent 4 = Some (drop 4 ?parent)
         \<and> PopUint32 (drop 4 ?parent) = Some (20, drop 8 ?parent)
         \<and> (20 :: 32 word) \<noteq> 0xffffffff
         \<and> PopSlice (drop 8 ?parent) 20 = Some (?child, drop 28 ?parent)"
    by (simp add: Discard_def PopUint32_def be_nat_def PopSlice_def)
  note t = objectDecoder_count_mismatch [OF 1 2, of "[]" 16 ?mem "Basic ''t''"]
  from t have a: "Decode (objectDecoder [] [DecoderField ''a'' 0 optionalStrDecoder]) ?child 16 ?mem
      = (Err (ErrWrongNumberOfFields (length [DecoderField ''a'' 0 optionalStrDecoder])
               (unat (2 :: 32 word))), drop 4 ?child, ?mem)"
    by blast
  from t 3 have b: "decodeFields
        (DecoderField ''o'' 8 (objectDecoder [] [DecoderField ''a'' 0 optionalStrDecoder])
         # [DecoderField ''s'' 0 optionalStrDecoder]) ?parent 16 ?mem
      = (Err (ErrWrongNumberOfFields (length [DecoderField ''a'' 0 optionalStrDecoder])
               (unat (2 :: 32 word))), drop (8 + unat (20 :: 32 word)) ?parent, ?mem)"
    by blast
  show ?thesis
    using a b by simp
qed

lemma decodeFields_sentinel:
  assumes "Discard ra 4 = Some ra1" and "PopUint32 ra1 = Some (0xffffffff, ra2)"
    and "DecodeMissing d = Some mis"
  shows "decodeFields (DecoderField nm off d # rest) ra out m =
           decodeFields rest ra2 out (mis (pAdd out off) m)"
  using assms by simp

lemma decodeFields_present:
  assumes "Discard rb 4 = Some rb1" and "PopUint32 rb1 = Some (elmLen, rb2)"
    and "elmLen \<noteq> 0xffffffff" and "PopSlice rb2 elmLen = Some (s, rb3)"
  shows "decodeFields (DecoderField nm off d # rest) rb out m =
           (case Decode d s (pAdd out off) m of
              (Ok u, s', m') \<Rightarrow> decodeFields rest rb3 out m'
            | (Err e, s', m') \<Rightarrow> (Err e, rb3, m')
            | (Panic x, s', m') \<Rightarrow> (Panic x, rb3, m'))"
  using assms by simp

text \<open>
  C3 (as amended).  For a field whose decoder is an \<^verbatim>\<open>OptionalDecoder\<close>: when the
  4-byte element length is the sentinel \<open>0xffffffff\<close>, the loop calls the decoder's
  \<^verbatim>\<open>DecodeMissing\<close> on the field's address and goes on, without calling its
  \<^verbatim>\<open>Decode\<close>.  For a field whose decoder is not an \<^verbatim>\<open>OptionalDecoder\<close> the
  sentinel makes the type assertion \<^verbatim>\<open>field.decoder.(OptionalDecoder)\<close> panic, and
  nothing is written.  For any other length, zero included, the loop calls the
  field's normal \<^verbatim>\<open>Decode\<close> on a reader of exactly that many bytes, and not
  \<^verbatim>\<open>DecodeMissing\<close>.  The two states differ: the optional object decoder's
  \<^verbatim>\<open>DecodeMissing\<close> is \<^verbatim>\<open>SetMissing(true)\<close> and its \<^verbatim>\<open>Decode\<close> starts with
  \<^verbatim>\<open>SetMissing(false)\<close>; the optional string decoder leaves the absent state when
  missing and the present empty string when the length is zero.
\<close>

theorem decodeFields_missing_and_present:
  assumes "Discard ra 4 = Some ra1"
    and "PopUint32 ra1 = Some (0xffffffff, ra2)"
    and "DecodeMissing d = Some mis"
    and "Discard rb 4 = Some rb1"
    and "PopUint32 rb1 = Some (elmLen, rb2)"
    and "elmLen \<noteq> 0xffffffff"
    and "PopSlice rb2 elmLen = Some (s, rb3)"
  shows "decodeFields (DecoderField nm off d # rest) ra out m =
           decodeFields rest ra2 out (mis (pAdd out off) m)
       \<and> (DecodeMissing d' = None \<longrightarrow>
            decodeFields (DecoderField nm off d' # rest) ra out m =
              (Panic InterfaceConversion, ra2, m))
       \<and> decodeFields (DecoderField nm off d # rest) rb out m =
           (case Decode d s (pAdd out off) m of
              (Ok u, s', m') \<Rightarrow> decodeFields rest rb3 out m'
            | (Err e, s', m') \<Rightarrow> (Err e, rb3, m')
            | (Panic x, s', m') \<Rightarrow> (Panic x, rb3, m'))
       \<and> length s = unat elmLen
       \<and> DecodeMissing (optionalObjectDecoder i fs typ) = Some (\<lambda>p. SetMissing typ p True)
       \<and> missing (SetMissing typ p True m) p = Some True
       \<and> missing (snd (snd (Decode (optionalObjectDecoder i fs typ) [] p m))) p = Some False
       \<and> DecodeMissing optionalStrDecoder = Some optionalStrDecodeMissing
       \<and> missing (optionalStrDecodeMissing p m) p = Some True
       \<and> content (optionalStrDecodeMissing p m) p = None
       \<and> fst (Decode optionalStrDecoder [] p m) = Ok ()
       \<and> missing (snd (snd (Decode optionalStrDecoder [] p m))) p = Some False
       \<and> content (snd (snd (Decode optionalStrDecoder [] p m))) p = Some []"
proof -
  have a: "decodeFields (DecoderField nm off d # rest) ra out m =
           decodeFields rest ra2 out (mis (pAdd out off) m)"
    using assms(1-3) by (rule decodeFields_sentinel)
  have a': "DecodeMissing d' = None \<longrightarrow>
            decodeFields (DecoderField nm off d' # rest) ra out m =
              (Panic InterfaceConversion, ra2, m)"
    using assms(1,2) by simp
  have b: "decodeFields (DecoderField nm off d # rest) rb out m =
           (case Decode d s (pAdd out off) m of
              (Ok u, s', m') \<Rightarrow> decodeFields rest rb3 out m'
            | (Err e, s', m') \<Rightarrow> (Err e, rb3, m')
            | (Panic x, s', m') \<Rightarrow> (Panic x, rb3, m'))"
    using assms(4-7) by (rule decodeFields_present)
  have c: "length s = unat elmLen"
    using PopSlice_take_drop [OF assms(7)] by blast
  have d: "missing (snd (snd (Decode (optionalObjectDecoder i fs typ) [] p m))) p = Some False"
    by (simp add: decodeObject.simps PopUint32_def SetMissing_def)
  have e: "missing (SetMissing typ p True m) p = Some True"
    by (simp add: SetMissing_def)
  have f: "missing (optionalStrDecodeMissing p m) p = Some True
         \<and> content (optionalStrDecodeMissing p m) p = None"
    by (simp add: optionalStrDecodeMissing_def)
  have g: "fst (Decode optionalStrDecoder [] p m) = Ok ()
       \<and> missing (snd (snd (Decode optionalStrDecoder [] p m))) p = Some False
       \<and> content (snd (snd (Decode optionalStrDecoder [] p m))) p = Some []"
    by (simp add: optionalStrDecoder_def optionalStrDecode_def)
  have h: "DecodeMissing optionalStrDecoder = Some optionalStrDecodeMissing"
    by (simp add: optionalStrDecoder_def)
  show ?thesis
    using a a' b c d e f g h by simp
qed

theorem decodeFields_missing_and_present_witness:
  "decodeFields [DecoderField ''s'' 4 optionalStrDecoder]
      [0,0,0,0, 0xff,0xff,0xff,0xff] 16 \<lparr>missing = (\<lambda>a. None), content = (\<lambda>a. None)\<rparr>
     = (Ok (), [],
        \<lparr>missing = (\<lambda>a. None)(20 := Some True), content = (\<lambda>a. None)(20 := None)\<rparr>)
   \<and> decodeFields [DecoderField ''s'' 4 (CodecOf Int32Codec exampleDecode None)]
      [0,0,0,0, 0xff,0xff,0xff,0xff] 16 \<lparr>missing = (\<lambda>a. None), content = (\<lambda>a. None)\<rparr>
     = (Panic InterfaceConversion, [], \<lparr>missing = (\<lambda>a. None), content = (\<lambda>a. None)\<rparr>)
   \<and> decodeFields [DecoderField ''s'' 4 optionalStrDecoder]
      [0,0,0,0, 0,0,0,0] 16 \<lparr>missing = (\<lambda>a. None), content = (\<lambda>a. None)\<rparr>
     = (Ok (), [],
        \<lparr>missing = (\<lambda>a. None)(20 := Some False), content = (\<lambda>a. None)(20 := Some [])\<rparr>)"
proof -
  let ?absent = "[0,0,0,0, 0xff,0xff,0xff,0xff] :: byte list"
  let ?empty = "[0,0,0,0, 0,0,0,0] :: byte list"
  have 1: "Discard ?absent 4 = Some (drop 4 ?absent)" by (simp add: Discard_def)
  have 2: "PopUint32 (drop 4 ?absent) = Some (0xffffffff, [])"
    by (simp add: PopUint32_def be_nat_def)
  have 3: "DecodeMissing optionalStrDecoder = Some optionalStrDecodeMissing"
    by (simp add: optionalStrDecoder_def)
  have 4: "Discard ?empty 4 = Some (drop 4 ?empty)" by (simp add: Discard_def)
  have 5: "PopUint32 (drop 4 ?empty) = Some (0, [])"
    by (simp add: PopUint32_def be_nat_def)
  have 6: "(0 :: 32 word) \<noteq> 0xffffffff" by simp
  have 7: "PopSlice [] 0 = Some ([], [])" by (simp add: PopSlice_def)
  have 8: "DecodeMissing (CodecOf Int32Codec exampleDecode None) = None" by simp
  show ?thesis
    using 8 decodeFields_missing_and_present [OF 1 2 3 4 5 6 7, of "''s''" 4 "[]" 16
        "\<lparr>missing = (\<lambda>a. None), content = (\<lambda>a. None)\<rparr>"
        "CodecOf Int32Codec exampleDecode None"]
    by (simp add: optionalStrDecoder_def optionalStrDecode_def optionalStrDecodeMissing_def
          pAdd_def)
qed

text \<open>
  C3, as the specification words it, speaks of every field.  A field whose decoder
  is an ordinary codec, with no \<^verbatim>\<open>DecodeMissing\<close>, that receives the sentinel length
  is not marked missing: the loop panics at the type assertion.
\<close>

theorem decodeFields_missing_and_present_counterexample:
  "DecodeMissing (CodecOf Int32Codec exampleDecode None) = None
   \<and> decodeFields [DecoderField ''n'' 4 (CodecOf Int32Codec exampleDecode None)]
        [0,0,0,0, 0xff,0xff,0xff,0xff] 16 \<lparr>missing = (\<lambda>a. None), content = (\<lambda>a. None)\<rparr>
      = (Panic InterfaceConversion, [], \<lparr>missing = (\<lambda>a. None), content = (\<lambda>a. None)\<rparr>)"
  by (simp add: Discard_def PopUint32_def be_nat_def)

subsection \<open>Building object decoders\<close>

lemma buildFields_append_not_optional:
  assumes "buildFields bd typ path pre = Ok fs"
    and "StructField typ nm = Some (sfType, sfOffset)"
    and "bd dsc sfType (AddField path nm) = Ok child"
    and "DecodeMissing child = None"
  shows "buildFields bd typ path (pre @ DescField nm dsc False # post) =
           Err (ErrNotOptional sfType path nm
                  (case optionalTypeNameLookup (TypeOf child) of
                     Some typeName \<Rightarrow> typeName
                   | None \<Rightarrow> ''OptionalUnmarshaler interface''))"
  using assms(1)
proof (induction pre arbitrary: fs)
  case Nil
  then show ?case using assms(2-4) by simp
next
  case (Cons f pre)
  obtain n d q where f: "f = DescField n d q" by (cases f)
  from Cons.prems obtain gs where "buildFields bd typ path pre = Ok gs"
    by (auto simp: f split: option.splits res.splits if_splits)
  from Cons.IH [OF this] Cons.prems show ?case
    by (auto simp: f split: option.splits res.splits if_splits)
qed

text \<open>
  C6 (as amended).  When the loop of \<^verbatim>\<open>buildObjectDecoder\<close> reaches a descriptor field
  that is not required (the type is a struct, every earlier field was built, the struct
  has the field and \<^verbatim>\<open>BuildDecoder\<close> returned a decoder for it) and that decoder is
  not an \<^verbatim>\<open>OptionalDecoder\<close>, construction fails with the error "expected T at P.F to
  be N because the field is not required": T the output field's type, P the path, F the
  field, and N the name the lookup table gives for the decoder's type when it has an
  entry, and "OptionalUnmarshaler interface" when it has none.
\<close>

theorem buildObjectDecoder_not_optional:
  assumes "Kind typ = KindStruct"
    and "Fields desc = pre @ DescField nm dsc False # post"
    and "buildFields bd typ path pre = Ok fs"
    and "StructField typ nm = Some (sfType, sfOffset)"
    and "bd dsc sfType (AddField path nm) = Ok child"
    and "DecodeMissing child = None"
  shows "buildObjectDecoder bd desc typ path =
           Err (ErrNotOptional sfType path nm
                  (case optionalTypeNameLookup (TypeOf child) of
                     Some typeName \<Rightarrow> typeName
                   | None \<Rightarrow> ''OptionalUnmarshaler interface''))"
  using assms(1,2) buildFields_append_not_optional [OF assms(3-6)]
  by (simp add: buildObjectDecoder_def)

theorem buildObjectDecoder_not_optional_witness:
  "buildObjectDecoder exampleBuildDecoder
      (Descriptor [] [DescField ''id'' (Descriptor [] []) True,
                      DescField ''name'' (Descriptor [] []) False])
      (StructOf ''User'' False [(''id'', Basic ''string'', 0), (''name'', Basic ''string'', 16)])
      ''''
     = Err (ErrNotOptional (Basic ''string'') '''' ''name'' ''edgedb.OptionalStr'')"
proof -
  let ?struct = "StructOf ''User'' False
                [(''id'', Basic ''string'', 0), (''name'', Basic ''string'', 16)]"
  let ?desc = "Descriptor [] [DescField ''id'' (Descriptor [] []) True,
                      DescField ''name'' (Descriptor [] []) False]"
  have 1: "Kind ?struct = KindStruct" by simp
  have 2: "Fields ?desc = [DescField ''id'' (Descriptor [] []) True]
             @ DescField ''name'' (Descriptor [] []) False # []" by simp
  have 3: "buildFields exampleBuildDecoder ?struct ''''
             [DescField ''id'' (Descriptor [] []) True]
           = Ok [DecoderField ''id'' 0 (CodecOf StrCodec exampleDecode None)]"
    by (simp add: exampleBuildDecoder_def)
  have 4: "StructField ?struct ''name'' = Some (Basic ''string'', 16)" by simp
  have 5: "exampleBuildDecoder (Descriptor [] []) (Basic ''string'') (AddField '''' ''name'')
           = Ok (CodecOf StrCodec exampleDecode None)"
    by (simp add: exampleBuildDecoder_def)
  have 6: "DecodeMissing (CodecOf StrCodec exampleDecode None) = None" by simp
  show ?thesis
    using buildObjectDecoder_not_optional [OF 1 2 3 4 5 6] by simp
qed

text \<open>
  C6 as stated fails for a decoder whose type has no entry in the table: the error then
  names "OptionalUnmarshaler interface", which is no built-in optional wrapper type of
  the table.
\<close>

theorem buildObjectDecoder_not_optional_counterexample:
  "optionalTypeNameLookup (OtherDecoder ''unmarshalerDecoder'') = None
   \<and> DecodeMissing (CodecOf (OtherDecoder ''unmarshalerDecoder'') exampleDecode None) = None
   \<and> exampleBuildDecoder (Descriptor [] []) (Basic ''Money'') (AddField '''' ''price'')
       = Ok (CodecOf (OtherDecoder ''unmarshalerDecoder'') exampleDecode None)
   \<and> buildObjectDecoder exampleBuildDecoder
        (Descriptor [] [DescField ''price'' (Descriptor [] []) False])
        (StructOf ''Item'' False [(''price'', Basic ''Money'', 0)])
        ''''
       = Err (ErrNotOptional (Basic ''Money'') '''' ''price'' ''OptionalUnmarshaler interface'')"
  by (simp add: buildObjectDecoder_def exampleBuildDecoder_def)

subsection \<open>Byte bounds of nested decoders\<close>

lemma case_child_result:
  "(case x of (Ok u, s', m') \<Rightarrow> A m' | (Err e, s', m') \<Rightarrow> B e m' | (Panic y, s', m') \<Rightarrow> C y m')
   = (case fst x of Ok u \<Rightarrow> A (snd (snd x)) | Err e \<Rightarrow> B e (snd (snd x))
       | Panic y \<Rightarrow> C y (snd (snd x)))"
  by (cases x) (auto split: res.splits)

lemma decodeFields_position:
  "decodeFields fs r out m = (Ok (), r', m') \<Longrightarrow> skipFields (length fs) r = Some r'"
proof (induction fs arbitrary: r m)
  case Nil
  then show ?case by simp
next
  case (Cons f fs)
  obtain nm off d where f: "f = DecoderField nm off d" by (cases f)
  from Cons.prems obtain r1 where r1: "Discard r 4 = Some r1"
    by (auto simp: f Let_def split: option.splits)
  from Cons.prems r1 obtain elmLen r2 where r2: "PopUint32 r1 = Some (elmLen, r2)"
    by (auto simp: f Let_def split: option.splits)
  show ?case
  proof (cases "elmLen = 0xffffffff")
    case True
    with Cons.prems r1 r2 obtain mis where "DecodeMissing d = Some mis"
      and "decodeFields fs r2 out (mis (pAdd out off) m) = (Ok (), r', m')"
      by (auto simp: f Let_def split: option.splits)
    from Cons.IH [OF this(2)] show ?thesis using r1 r2 True by simp
  next
    case False
    with Cons.prems r1 r2 obtain s r3 where r3: "PopSlice r2 elmLen = Some (s, r3)"
      by (auto simp: f Let_def split: option.splits)
    from Cons.prems r1 r2 False r3 obtain m1 where
      "decodeFields fs r3 out m1 = (Ok (), r', m')"
      by (auto simp: f Let_def split: prod.splits res.splits)
    from Cons.IH [OF this] show ?thesis using r1 r2 False r3 by simp
  qed
qed

lemma decodeFields_sameField:
  "list_all2 sameField fs fs' \<Longrightarrow> decodeFields fs r out m = decodeFields fs' r out m"
proof (induction fs fs' arbitrary: r m rule: list_all2_induct)
  case Nil
  then show ?case by simp
next
  case (Cons f fs f' fs')
  obtain nm off d where f: "f = DecoderField nm off d" by (cases f)
  obtain nm' off' d' where f': "f' = DecoderField nm' off' d'" by (cases f')
  from Cons.hyps(1) have off: "off' = off" and eff: "sameEffect d d'"
    by (simp_all add: sameField_def f f')
  from eff have mis: "DecodeMissing d' = DecodeMissing d"
    and res: "\<And>b p m. fst (Decode d' b p m) = fst (Decode d b p m)"
    and mem: "\<And>b p m. snd (snd (Decode d' b p m)) = snd (snd (Decode d b p m))"
    by (simp_all add: sameEffect_def)
  show ?case
    unfolding f f' off
    by (simp add: case_child_result mis res mem Cons.IH Let_def
          split: option.splits res.splits)
qed


text \<open>
  C7.  In the loop over the fields of a compound value, a field whose length is not the
  sentinel has its decoder called on a reader \<open>s\<close> of exactly the declared
  \<open>elmLen\<close> bytes (the next bytes of the parent), and the parent goes on, or returns
  the child's error, at the position 8 + \<open>elmLen\<close> bytes past the start of the
  element: the bytes the child leaves unread (\<open>s'\<close>) are not looked at.  So
  replacing every field decoder by one with the same effect that consumes a different
  number of bytes changes nothing in the parent's result, position and memory, and after
  a successful decode the parent's position is the one the declared lengths give.
\<close>

theorem decodeFields_bounds_children:
  assumes "decodeFields fs r out m = (res, r', m')"
    and "list_all2 sameField fs fs'"
    and "Discard q 4 = Some q1"
    and "PopUint32 q1 = Some (elmLen, q2)"
    and "elmLen \<noteq> 0xffffffff"
    and "PopSlice q2 elmLen = Some (s, q3)"
  shows "decodeFields fs' r out m = (res, r', m')
       \<and> (res = Ok () \<longrightarrow> skipFields (length fs) r = Some r')
       \<and> s = take (unat elmLen) q2 \<and> length s = unat elmLen
       \<and> q3 = drop (8 + unat elmLen) q
       \<and> decodeFields (DecoderField nm off d # rest) q out m =
           (case Decode d s (pAdd out off) m of
              (Ok u, s', m1) \<Rightarrow> decodeFields rest q3 out m1
            | (Err e, s', m1) \<Rightarrow> (Err e, q3, m1)
            | (Panic x, s', m1) \<Rightarrow> (Panic x, q3, m1))"
proof -
  have a: "decodeFields fs' r out m = (res, r', m')"
    using decodeFields_sameField [OF assms(2), of r out m] assms(1) by simp
  have b: "res = Ok () \<longrightarrow> skipFields (length fs) r = Some r'"
    using assms(1) by (auto dest: decodeFields_position)
  have c: "s = take (unat elmLen) q2 \<and> length s = unat elmLen"
    using PopSlice_take_drop [OF assms(6)] by blast
  have d: "q3 = drop (8 + unat elmLen) q"
    using assms(3,4,6) by (rule field_position)
  have e: "decodeFields (DecoderField nm off d # rest) q out m =
           (case Decode d s (pAdd out off) m of
              (Ok u, s', m1) \<Rightarrow> decodeFields rest q3 out m1
            | (Err e, s', m1) \<Rightarrow> (Err e, q3, m1)
            | (Panic x, s', m1) \<Rightarrow> (Panic x, q3, m1))"
    using assms(3-6) by (rule decodeFields_present)
  show ?thesis
    using a b c d e by blast
qed

theorem decodeFields_bounds_children_witness:
  "decodeFields
      [DecoderField ''s'' 0
         (CodecOf (OtherDecoder ''lazy'')
            (\<lambda>b p m. (Ok (), b, m\<lparr>missing := (missing m)(p := Some False),
                                   content := (content m)(p := Some b)\<rparr>))
            (Some optionalStrDecodeMissing))]
      [0,0,0,0, 0,0,0,2, 0x68,0x69, 9,9] 0
      \<lparr>missing = (\<lambda>a. None), content = (\<lambda>a. None)\<rparr>
     = (Ok (), [9,9],
        \<lparr>missing = (\<lambda>a. None)(0 := Some False),
         content = (\<lambda>a. None)(0 := Some [0x68,0x69])\<rparr>)
   \<and> skipFields (length [DecoderField ''s'' 0 optionalStrDecoder])
        [0,0,0,0, 0,0,0,2, 0x68,0x69, 9,9] = Some [9,9]"
proof -
  let ?buf = "[0,0,0,0, 0,0,0,2, 0x68,0x69, 9,9] :: byte list"
  let ?lazy = "CodecOf (OtherDecoder ''lazy'')
            (\<lambda>b p m. (Ok (), b, m\<lparr>missing := (missing m)(p := Some False),
                                   content := (content m)(p := Some b)\<rparr>))
            (Some optionalStrDecodeMissing)"
  let ?mem = "\<lparr>missing = (\<lambda>a. None), content = (\<lambda>a. None)\<rparr>"
  have 3: "Discard ?buf 4 = Some (drop 4 ?buf)" by (simp add: Discard_def)
  have 4: "PopUint32 (drop 4 ?buf) = Some (2, drop 8 ?buf)"
    by (simp add: PopUint32_def be_nat_def)
  have 5: "(2 :: 32 word) \<noteq> 0xffffffff" by simp
  have 6: "PopSlice (drop 8 ?buf) 2 = Some ([0x68,0x69], [9,9])"
    by (simp add: PopSlice_def)
  have 1: "decodeFields [DecoderField ''s'' 0 optionalStrDecoder] ?buf 0 ?mem
           = (Ok (), [9,9],
              \<lparr>missing = (\<lambda>a. None)(0 := Some False),
               content = (\<lambda>a. None)(0 := Some [0x68,0x69])\<rparr>)"
    using decodeFields_present [OF 3 4 5 6, of "''s''" 0 optionalStrDecoder "[]" 0 ?mem]
    by (simp add: optionalStrDecoder_def optionalStrDecode_def pAdd_def)
  have 2: "list_all2 sameField [DecoderField ''s'' 0 optionalStrDecoder]
             [DecoderField ''s'' 0 ?lazy]"
    by (simp add: sameField_def sameEffect_def optionalStrDecoder_def optionalStrDecode_def)
  show ?thesis
    using decodeFields_bounds_children [OF 1 2 3 4 5 6] by simp
qed

subsection \<open>The response loops\<close>

declare executeLoop.simps [simp del] optimisticLoop.simps [simp del] messages.simps [simp del]
  prepareLoop.simps [simp del] describeLoop.simps [simp del] scriptLoop.simps [simp del]

lemma pop_six:
  "(case PopUint32 m of None \<Rightarrow> X | Some (l, m2) \<Rightarrow>
      (case PopUint16 m2 of None \<Rightarrow> X | Some (n, m3) \<Rightarrow> F m3))
   = (case Discard m 6 of None \<Rightarrow> X | Some m3 \<Rightarrow> F m3)"
  by (auto simp: PopUint32_def PopUint16_def Discard_def)

lemma PopMessage_shorter:
  "PopMessage buf = Some (msg, rest) \<Longrightarrow> length rest < length buf"
  by (auto simp: PopMessage_def Let_def split: if_splits)

lemma optimisticLoop_eq:
  "optimisticLoop d q tp cdcs buf ov out err = executeLoop d q tp cdcs buf ov out err"
proof (induction "length buf" arbitrary: buf ov out err rule: less_induct)
  case less
  have IH: "optimisticLoop d q tp cdcs b ov' out' err' = executeLoop d q tp cdcs b ov' out' err'"
    if "PopMessage buf = Some (m, b)" for m b ov' out' err'
    using less [OF PopMessage_shorter [OF that]] .
  show ?case
    apply (subst optimisticLoop.simps)
    apply (subst executeLoop.simps)
    apply (simp only: pop_six)
    apply (auto split: option.splits simp: IH)
    done
qed

lemma messages_Nil: "messages buf = Some [] \<Longrightarrow> buf = []"
  by (subst (asm) messages.simps) (auto split: if_splits option.splits)

lemma messages_Cons:
  "messages buf = Some (m # ms) \<Longrightarrow>
     \<exists>buf'. 0 < length buf \<and> PopMessage buf = Some (m, buf') \<and> messages buf' = Some ms"
  by (subst (asm) messages.simps) (auto split: if_splits option.splits)

lemma PopMessage_nonempty:
  "PopMessage buf = Some (m, buf') \<Longrightarrow> PopUint8 m = Some (mType m, tl m)"
  by (auto simp: PopMessage_def PopUint8_def mType_def Let_def split: if_splits list.splits)


lemma executeLoop_Nil: "executeLoop d q tp cdcs [] ov out err = (Inr (ov, err), out)"
  by (subst executeLoop.simps) simp

lemma executeLoop_skip:
  assumes "0 < length buf" and "PopMessage buf = Some (m, buf')"
    and "mType m = CommandComplete \<or> mType m = ReadyForCommand"
  shows "executeLoop d q tp cdcs buf ov out err = executeLoop d q tp cdcs buf' ov out err"
  using assms PopMessage_nonempty [OF assms(2)]
  by (subst executeLoop.simps) (auto simp: message_consts)

lemma data_body:
  assumes "7 \<le> length m"
  shows "(case PopUint32 (tl m) of None \<Rightarrow> X | Some (l, m2) \<Rightarrow>
            (case PopUint16 m2 of None \<Rightarrow> X | Some (n, m3) \<Rightarrow> F m3)) = F (dataBody m)"
proof -
  have a: "PopUint32 (tl m) = Some (of_nat (be_nat (take 4 (tl m))), drop 4 (tl m))"
    using assms by (simp add: PopUint32_def)
  have b: "PopUint16 (drop 4 (tl m)) =
             Some (of_nat (be_nat (take 2 (drop 4 (tl m)))), drop 6 (tl m))"
    using assms by (simp add: PopUint16_def)
  have c: "drop 6 (tl m) = dataBody m"
    using drop_Suc [of 6 m] by (simp add: dataBody_def)
  show ?thesis by (simp add: a b c)
qed

lemma executeLoop_data_many:
  assumes "0 < length buf" and "PopMessage buf = Some (m, buf')"
    and "mType m = Data" and "7 \<le> length m" and "\<not> flat q"
    and "DecodeInto (Out cdcs) (dataBody m) (Zero d tp) = Some v"
    and "valueOf ov out = Slice xs"
  shows "executeLoop d q tp cdcs buf ov out err =
           executeLoop d q tp cdcs buf' (Fresh (Slice (xs @ [v]))) out None"
  using assms(1,2,3,5,6,7) PopMessage_nonempty [OF assms(2)]
  by (subst executeLoop.simps) (simp add: data_body [OF assms(4)])

lemma executeLoop_data_flat:
  assumes "0 < length buf" and "PopMessage buf = Some (m, buf')"
    and "mType m = Data" and "7 \<le> length m" and "flat q"
    and "DecodeInto (Out cdcs) (dataBody m) out = Some out'"
  shows "executeLoop d q tp cdcs buf ov out err = executeLoop d q tp cdcs buf' ov out' None"
  using assms(1,2,3,5,6) PopMessage_nonempty [OF assms(2)]
  by (subst executeLoop.simps) (simp add: data_body [OF assms(4)])

lemma executeLoop_error:
  assumes "0 < length buf" and "PopMessage buf = Some (m, buf')"
    and "mType m = ErrorResponse" and "decodeError (tl m) = Some e"
  shows "executeLoop d q tp cdcs buf ov out err = (Inl (Err e), out)"
  using assms PopMessage_nonempty [OF assms(2)]
  by (subst executeLoop.simps) (simp add: message_consts)

lemma executeLoop_unexpected:
  assumes "0 < length buf" and "PopMessage buf = Some (m, buf')"
    and "mType m \<noteq> Data" and "mType m \<noteq> CommandComplete"
    and "mType m \<noteq> ReadyForCommand" and "mType m \<noteq> ErrorResponse"
  shows "executeLoop d q tp cdcs buf ov out err =
           (Inl (Panic (UnexpectedMessageType (mType m))), out)"
  using assms PopMessage_nonempty [OF assms(2)]
  by (subst executeLoop.simps) simp

lemma executeLoop_prefix_many:
  assumes "\<not> flat q"
  shows "messages buf = Some (pre @ post) \<Longrightarrow> \<forall>m\<in>set pre. recognised m \<Longrightarrow>
         rowsOf d tp cdcs pre = Some rows \<Longrightarrow> valueOf ov out = Slice xs \<Longrightarrow>
         \<exists>buf'. messages buf' = Some post \<and>
           executeLoop d q tp cdcs buf ov out err =
             executeLoop d q tp cdcs buf'
               (if rows = [] then ov else Fresh (Slice (xs @ rows))) out
               (if rows = [] then err else None)"
proof (induction pre arbitrary: buf ov err xs rows)
  case Nil
  then show ?case by auto
next
  case (Cons m pre)
  from Cons.prems(1) obtain buf1 where pos: "0 < length buf"
    and pop: "PopMessage buf = Some (m, buf1)" and rest: "messages buf1 = Some (pre @ post)"
    using messages_Cons [of buf m "pre @ post"] by auto
  from Cons.prems(2) have rec: "recognised m" and recs: "\<forall>m\<in>set pre. recognised m"
    by simp_all
  show ?case
  proof (cases "mType m = Data")
    case True
    with Cons.prems(3) obtain v vs where len: "7 \<le> length m"
      and dec: "DecodeInto (Out cdcs) (dataBody m) (Zero d tp) = Some v"
      and vs: "rowsOf d tp cdcs pre = Some vs" and rows: "rows = v # vs"
      by (auto split: if_splits option.splits)
    have step: "executeLoop d q tp cdcs buf ov out err =
        executeLoop d q tp cdcs buf1 (Fresh (Slice (xs @ [v]))) out None"
      using pos pop True len assms dec Cons.prems(4) by (rule executeLoop_data_many)
    from Cons.IH [OF rest recs vs, of "Fresh (Slice (xs @ [v]))" "xs @ [v]" None]
    obtain buf' where "messages buf' = Some post"
      and "executeLoop d q tp cdcs buf1 (Fresh (Slice (xs @ [v]))) out None =
             executeLoop d q tp cdcs buf'
               (if vs = [] then Fresh (Slice (xs @ [v])) else Fresh (Slice ((xs @ [v]) @ vs)))
               out None"
      by auto
    then show ?thesis using step rows by (intro exI [of _ buf']) auto
  next
    case False
    with rec have skip: "mType m = CommandComplete \<or> mType m = ReadyForCommand"
      by (simp add: recognised_def)
    have step: "executeLoop d q tp cdcs buf ov out err = executeLoop d q tp cdcs buf1 ov out err"
      using pos pop skip by (rule executeLoop_skip)
    from Cons.prems(3) False have vs: "rowsOf d tp cdcs pre = Some rows" by simp
    from Cons.IH [OF rest recs vs Cons.prems(4), of err] step show ?thesis by simp
  qed
qed

lemma executeLoop_prefix_flat:
  assumes "flat q"
  shows "messages buf = Some (pre @ post) \<Longrightarrow> \<forall>m\<in>set pre. recognised m \<Longrightarrow>
         decodeAll cdcs pre out = Some out' \<Longrightarrow>
         \<exists>buf'. messages buf' = Some post \<and>
           executeLoop d q tp cdcs buf ov out err =
             executeLoop d q tp cdcs buf' ov out'
               (if filter (\<lambda>m. mType m = Data) pre = [] then err else None)"
proof (induction pre arbitrary: buf out err)
  case Nil
  then show ?case by auto
next
  case (Cons m pre)
  from Cons.prems(1) obtain buf1 where pos: "0 < length buf"
    and pop: "PopMessage buf = Some (m, buf1)" and rest: "messages buf1 = Some (pre @ post)"
    using messages_Cons [of buf m "pre @ post"] by auto
  from Cons.prems(2) have rec: "recognised m" and recs: "\<forall>m\<in>set pre. recognised m"
    by simp_all
  show ?case
  proof (cases "mType m = Data")
    case True
    with Cons.prems(3) obtain out1 where len: "7 \<le> length m"
      and dec: "DecodeInto (Out cdcs) (dataBody m) out = Some out1"
      and more: "decodeAll cdcs pre out1 = Some out'"
      by (auto split: if_splits option.splits)
    have step: "executeLoop d q tp cdcs buf ov out err =
        executeLoop d q tp cdcs buf1 ov out1 None"
      using pos pop True len assms dec by (rule executeLoop_data_flat)
    from Cons.IH [OF rest recs more, of None] step True show ?thesis by auto
  next
    case False
    with rec have skip: "mType m = CommandComplete \<or> mType m = ReadyForCommand"
      by (simp add: recognised_def)
    have step: "executeLoop d q tp cdcs buf ov out err = executeLoop d q tp cdcs buf1 ov out err"
      using pos pop skip by (rule executeLoop_skip)
    from Cons.prems(3) False have more: "decodeAll cdcs pre out = Some out'" by simp
    from Cons.IH [OF rest recs more, of err] step False show ?thesis by simp
  qed
qed

subsection \<open>Results of the execution flow\<close>

lemma writeAndRead_reply:
  "replies c = Inr buf # rest \<Longrightarrow>
     writeAndRead c req = (None, c\<lparr>sent := sent c @ [req], replies := rest\<rparr>, buf)"
  by (simp add: writeAndRead_def)

lemma rowsOf_length:
  "rowsOf d tp cdcs ms = Some rows \<Longrightarrow> length rows = length (filter (\<lambda>m. mType m = Data) ms)"
  by (induction ms arbitrary: rows) (auto split: if_splits option.splits)

lemma executeLoop_all_many:
  assumes "\<not> flat q" and "messages buf = Some ms" and "\<forall>m\<in>set ms. recognised m"
    and "rowsOf d tp cdcs ms = Some rows"
  shows "executeLoop d q tp cdcs buf SameAsOut (Slice []) err =
           (Inr (if rows = [] then SameAsOut else Fresh (Slice rows),
                 if rows = [] then err else None), Slice [])"
proof -
  from executeLoop_prefix_many [OF assms(1), of buf ms "[]" d tp cdcs rows SameAsOut "Slice []" "[]" err]
    assms(2-4)
  obtain buf' where "messages buf' = Some []"
    and eq: "executeLoop d q tp cdcs buf SameAsOut (Slice []) err =
             executeLoop d q tp cdcs buf'
               (if rows = [] then SameAsOut else Fresh (Slice ([] @ rows))) (Slice [])
               (if rows = [] then err else None)"
    by auto
  then have "buf' = []" by (simp add: messages_Nil)
  with eq show ?thesis by (simp add: executeLoop_Nil)
qed

lemma executeLoop_all_flat:
  assumes "flat q" and "messages buf = Some ms" and "\<forall>m\<in>set ms. recognised m"
    and "decodeAll cdcs ms out = Some out'"
  shows "executeLoop d q tp cdcs buf ov out err =
           (Inr (ov, if filter (\<lambda>m. mType m = Data) ms = [] then err else None), out')"
proof -
  from executeLoop_prefix_flat [OF assms(1), of buf ms "[]" cdcs out out' d tp ov err] assms(2-4)
  obtain buf' where "messages buf' = Some []"
    and eq: "executeLoop d q tp cdcs buf ov out err =
             executeLoop d q tp cdcs buf' ov out'
               (if filter (\<lambda>m. mType m = Data) ms = [] then err else None)"
    by auto
  then have "buf' = []" by (simp add: messages_Nil)
  with eq show ?thesis by (simp add: executeLoop_Nil)
qed

lemma execute_many:
  assumes "expCard q = Many" and "dest w = Slice residue"
    and "replies (conn w) = Inr buf # rest" and "messages buf = Some ms"
    and "\<forall>m\<in>set ms. recognised m" and "rowsOf d tp cdcs ms = Some rows"
  shows "execute d w q tp cdcs =
           (if rows = [] then Err ErrorZeroResults else Ok (),
            w\<lparr>conn := (conn w)\<lparr>sent := sent (conn w) @ [executeRequest q cdcs], replies := rest\<rparr>,
              dest := Slice rows\<rparr>)"
proof -
  have nf: "\<not> flat q" using assms(1) by (simp add: flat_def)
  show ?thesis
    using nf assms(2)
    by (simp add: execute_def writeAndRead_reply [OF assms(3)]
          executeLoop_all_many [OF nf assms(4-6)])
qed

lemma optimistic_many:
  assumes "expCard q = Many" and "dest w = Slice residue"
    and "replies (conn w) = Inr buf # rest" and "messages buf = Some ms"
    and "\<forall>m\<in>set ms. recognised m" and "rowsOf d tp cdcs ms = Some rows"
  shows "optimistic d w q tp cdcs =
           (if rows = [] then Err ErrorZeroResults else Ok (),
            w\<lparr>conn := (conn w)\<lparr>sent := sent (conn w) @ [optimisticRequest q cdcs], replies := rest\<rparr>,
              dest := Slice rows\<rparr>)"
proof -
  have nf: "\<not> flat q" using assms(1) by (simp add: flat_def)
  show ?thesis
    using nf assms(2)
    by (simp add: optimistic_def optimisticLoop_eq writeAndRead_reply [OF assms(3)]
          executeLoop_all_many [OF nf assms(4-6)])
qed

lemma execute_flat:
  assumes "expCard q = One"
    and "replies (conn w) = Inr buf # rest" and "messages buf = Some ms"
    and "\<forall>m\<in>set ms. recognised m" and "decodeAll cdcs ms (dest w) = Some v"
  shows "execute d w q tp cdcs =
           (if filter (\<lambda>m. mType m = Data) ms = [] then Err ErrorZeroResults else Ok (),
            w\<lparr>conn := (conn w)\<lparr>sent := sent (conn w) @ [executeRequest q cdcs], replies := rest\<rparr>,
              dest := v\<rparr>)"
proof -
  have f: "flat q" using assms(1) by (simp add: flat_def)
  show ?thesis
    using f
    by (simp add: execute_def writeAndRead_reply [OF assms(2)]
          executeLoop_all_flat [OF f assms(3-5)])
qed

lemma optimistic_flat:
  assumes "expCard q = One"
    and "replies (conn w) = Inr buf # rest" and "messages buf = Some ms"
    and "\<forall>m\<in>set ms. recognised m" and "decodeAll cdcs ms (dest w) = Some v"
  shows "optimistic d w q tp cdcs =
           (if filter (\<lambda>m. mType m = Data) ms = [] then Err ErrorZeroResults else Ok (),
            w\<lparr>conn := (conn w)\<lparr>sent := sent (conn w) @ [optimisticRequest q cdcs], replies := rest\<rparr>,
              dest := v\<rparr>)"
proof -
  have f: "flat q" using assms(1) by (simp add: flat_def)
  show ?thesis
    using f
    by (simp add: optimistic_def optimisticLoop_eq writeAndRead_reply [OF assms(2)]
          executeLoop_all_flat [OF f assms(3-5)])
qed


text \<open>
  C5.  For a query of cardinality many whose destination is a slice, whatever the slice
  held before (\<open>residue\<close>): \<^verbatim>\<open>out.SetLen(0)\<close> empties it before the loop, and when
  the reply consists of recognised messages whose rows decode, \<^verbatim>\<open>execute\<close> and
  \<^verbatim>\<open>optimistic\<close> leave in the destination exactly the rows of this reply, in order.
  Its length is the number of \<^verbatim>\<open>Data\<close> messages of this call, so a second call into
  the same destination keeps nothing of the first.
\<close>

theorem execute_many_no_residue:
  assumes "expCard q = Many"
    and "dest w = Slice residue"
    and "replies (conn w) = Inr buf # rest"
    and "messages buf = Some ms"
    and "\<forall>m\<in>set ms. recognised m"
    and "rowsOf d tp cdcs ms = Some rows"
  shows "SetLen (dest w) 0 = Some (Slice [])
       \<and> dest (snd (execute d w q tp cdcs)) = Slice rows
       \<and> dest (snd (optimistic d w q tp cdcs)) = Slice rows
       \<and> length rows = length (filter (\<lambda>m. mType m = Data) ms)
       \<and> fst (execute d w q tp cdcs) = (if rows = [] then Err ErrorZeroResults else Ok ())
       \<and> fst (optimistic d w q tp cdcs) = (if rows = [] then Err ErrorZeroResults else Ok ())"
  using assms(2) rowsOf_length [OF assms(6)]
  by (simp add: execute_many [OF assms] optimistic_many [OF assms])

lemma example_messages:
  "messages [0x44, 0,0,0,7, 0,1, 0x61, 0x44, 0,0,0,7, 0,1, 0x62, 0x43, 0,0,0,4, 0x5a, 0,0,0,4]
     = Some [[0x44, 0,0,0,7, 0,1, 0x61], [0x44, 0,0,0,7, 0,1, 0x62],
             [0x43, 0,0,0,4], [0x5a, 0,0,0,4]]"
  by (simp add: messages.simps PopMessage_def be_nat_def Let_def)

theorem execute_many_no_residue_witness:
  "dest (snd (execute exampleDeps
      (exampleWorld (Slice [Atom [9], Atom [9], Atom [9]]) (SliceOf (Basic ''bytes''))
         [0x44, 0,0,0,7, 0,1, 0x61, 0x44, 0,0,0,7, 0,1, 0x62, 0x43, 0,0,0,4, 0x5a, 0,0,0,4])
      (exampleQuery Many) (Basic ''bytes'') exampleCodecs))
     = Slice [Atom [0x61], Atom [0x62]]
   \<and> dest (snd (optimistic exampleDeps
      (exampleWorld (Slice [Atom [9], Atom [9], Atom [9]]) (SliceOf (Basic ''bytes''))
         [0x44, 0,0,0,7, 0,1, 0x61, 0x44, 0,0,0,7, 0,1, 0x62, 0x43, 0,0,0,4, 0x5a, 0,0,0,4])
      (exampleQuery Many) (Basic ''bytes'') exampleCodecs))
     = Slice [Atom [0x61], Atom [0x62]]"
proof -
  let ?buf = "[0x44, 0,0,0,7, 0,1, 0x61, 0x44, 0,0,0,7, 0,1, 0x62, 0x43, 0,0,0,4,
               0x5a, 0,0,0,4] :: byte list"
  let ?ms = "[[0x44, 0,0,0,7, 0,1, 0x61], [0x44, 0,0,0,7, 0,1, 0x62],
             [0x43, 0,0,0,4], [0x5a, 0,0,0,4]] :: byte list list"
  let ?w = "exampleWorld (Slice [Atom [9], Atom [9], Atom [9]]) (SliceOf (Basic ''bytes'')) ?buf"
  have 1: "expCard (exampleQuery Many) = Many" by (simp add: exampleQuery_def)
  have 2: "dest ?w = Slice [Atom [9], Atom [9], Atom [9]]" by (simp add: exampleWorld_def)
  have 3: "replies (conn ?w) = Inr ?buf # []" by (simp add: exampleWorld_def)
  have 4: "messages ?buf = Some ?ms" by (rule example_messages)
  have 5: "\<forall>m\<in>set ?ms. recognised m"
    by (simp add: recognised_def mType_def message_consts)
  have 6: "rowsOf exampleDeps (Basic ''bytes'') exampleCodecs ?ms
             = Some [Atom [0x61], Atom [0x62]]"
    by (simp add: mType_def message_consts dataBody_def exampleCodecs_def exampleCodec_def)
  show ?thesis
    using execute_many_no_residue [OF 1 2 3 4 5 6] by simp
qed


lemma decodeAll_filter:
  "decodeAll cdcs (filter (\<lambda>m. mType m = Data) ms) out = decodeAll cdcs ms out"
  by (induction ms arbitrary: out) (auto split: option.splits)

lemma decodeAll_snoc:
  "decodeAll cdcs (ds @ [l]) out = Some v \<Longrightarrow> mType l = Data \<Longrightarrow>
     \<exists>prev. decodeAll cdcs ds out = Some prev
          \<and> DecodeInto (Out cdcs) (dataBody l) prev = Some v"
  by (induction ds arbitrary: out) (auto split: if_splits option.splits)

text \<open>
  C10.  For a flat query (cardinality one) whose reply holds one or more \<^verbatim>\<open>Data\<close>
  messages among recognised messages: \<^verbatim>\<open>execute\<close> and \<^verbatim>\<open>optimistic\<close> do not fail on
  the extra rows.  Each \<^verbatim>\<open>Data\<close> message is decoded into the same destination, and the
  call returns nil with the destination holding what decoding the last \<^verbatim>\<open>Data\<close>
  message \<open>l\<close> over the previous value gave.
\<close>

theorem execute_flat_last_row:
  assumes "expCard q = One"
    and "replies (conn w) = Inr buf # rest"
    and "messages buf = Some ms"
    and "\<forall>m\<in>set ms. recognised m"
    and "filter (\<lambda>m. mType m = Data) ms = ds @ [l]"
    and "decodeAll cdcs ms (dest w) = Some v"
  shows "fst (execute d w q tp cdcs) = Ok ()
       \<and> dest (snd (execute d w q tp cdcs)) = v
       \<and> fst (optimistic d w q tp cdcs) = Ok ()
       \<and> dest (snd (optimistic d w q tp cdcs)) = v
       \<and> (\<exists>prev. decodeAll cdcs ds (dest w) = Some prev
               \<and> DecodeInto (Out cdcs) (dataBody l) prev = Some v)"
proof -
  have "mType l = Data"
    using assms(5) filter_eq_ConsD [of "\<lambda>m. mType m = Data" "rev ms" l "rev ds"]
    by (metis (mono_tags, lifting) in_set_conv_decomp mem_Collect_eq set_filter)
  moreover have "decodeAll cdcs (ds @ [l]) (dest w) = Some v"
    using assms(5,6) decodeAll_filter [of cdcs ms "dest w"] by simp
  ultimately have last: "\<exists>prev. decodeAll cdcs ds (dest w) = Some prev
               \<and> DecodeInto (Out cdcs) (dataBody l) prev = Some v"
    by (rule decodeAll_snoc [rotated])
  have ne: "filter (\<lambda>m. mType m = Data) ms \<noteq> []" using assms(5) by simp
  show ?thesis
    using last ne
    by (simp add: execute_flat [OF assms(1-4,6)] optimistic_flat [OF assms(1-4,6)])
qed

theorem execute_flat_last_row_witness:
  "fst (execute exampleDeps
      (exampleWorld (Atom [9]) (Basic ''bytes'')
         [0x44, 0,0,0,7, 0,1, 0x61, 0x44, 0,0,0,7, 0,1, 0x62, 0x43, 0,0,0,4, 0x5a, 0,0,0,4])
      (exampleQuery One) (Basic ''bytes'') exampleCodecs) = Ok ()
   \<and> dest (snd (execute exampleDeps
      (exampleWorld (Atom [9]) (Basic ''bytes'')
         [0x44, 0,0,0,7, 0,1, 0x61, 0x44, 0,0,0,7, 0,1, 0x62, 0x43, 0,0,0,4, 0x5a, 0,0,0,4])
      (exampleQuery One) (Basic ''bytes'') exampleCodecs)) = Atom [0x62]
   \<and> DecodeInto (Out exampleCodecs) (dataBody [0x44, 0,0,0,7, 0,1, 0x62]) (Atom [0x61])
       = Some (Atom [0x62])"
proof -
  let ?buf = "[0x44, 0,0,0,7, 0,1, 0x61, 0x44, 0,0,0,7, 0,1, 0x62, 0x43, 0,0,0,4,
               0x5a, 0,0,0,4] :: byte list"
  let ?ms = "[[0x44, 0,0,0,7, 0,1, 0x61], [0x44, 0,0,0,7, 0,1, 0x62],
             [0x43, 0,0,0,4], [0x5a, 0,0,0,4]] :: byte list list"
  let ?w = "exampleWorld (Atom [9]) (Basic ''bytes'') ?buf"
  have 1: "expCard (exampleQuery One) = One" by (simp add: exampleQuery_def)
  have 2: "replies (conn ?w) = Inr ?buf # []" by (simp add: exampleWorld_def)
  have 3: "messages ?buf = Some ?ms" by (rule example_messages)
  have 4: "\<forall>m\<in>set ?ms. recognised m"
    by (simp add: recognised_def mType_def message_consts)
  have 5: "filter (\<lambda>m. mType m = Data) ?ms
             = [[0x44, 0,0,0,7, 0,1, 0x61]] @ [[0x44, 0,0,0,7, 0,1, 0x62]]"
    by (simp add: mType_def message_consts)
  have 6: "decodeAll exampleCodecs ?ms (dest ?w) = Some (Atom [0x62])"
    by (simp add: mType_def message_consts dataBody_def exampleCodecs_def exampleCodec_def)
  show ?thesis
    using execute_flat_last_row [OF 1 2 3 4 5 6, of exampleDeps "Basic ''bytes''"]
    by (simp add: exampleWorld_def mType_def message_consts dataBody_def exampleCodecs_def
          exampleCodec_def)
qed

text \<open>
  C1 (as amended).  Whatever the cardinality: when the reply holds no \<^verbatim>\<open>Data\<close> message
  and no \<^verbatim>\<open>ErrorResponse\<close>, only \<^verbatim>\<open>CommandComplete\<close> and \<^verbatim>\<open>ReadyForCommand\<close>,
  \<^verbatim>\<open>execute\<close> and \<^verbatim>\<open>optimistic\<close> return \<^verbatim>\<open>ErrorZeroResults\<close> (for cardinality many
  the destination must be a slice, or \<^verbatim>\<open>SetLen\<close> panics first).  The error is never
  what \<^verbatim>\<open>decodeError\<close> gives for a server error.
\<close>

theorem execute_zero_results:
  assumes "expCard q = One \<or> dest w = Slice residue"
    and "replies (conn w) = Inr buf # rest"
    and "messages buf = Some ms"
    and "\<forall>m\<in>set ms. mType m = CommandComplete \<or> mType m = ReadyForCommand"
  shows "fst (execute d w q tp cdcs) = Err ErrorZeroResults
       \<and> fst (optimistic d w q tp cdcs) = Err ErrorZeroResults
       \<and> decodeError b \<noteq> Some ErrorZeroResults"
proof -
  have rec: "\<forall>m\<in>set ms. recognised m"
    using assms(4) by (auto simp: recognised_def)
  have nodata: "\<forall>m\<in>set ms. mType m \<noteq> Data"
    using assms(4) by (auto simp: message_consts)
  have rows: "rowsOf d tp cdcs ms = Some []"
    using nodata by (induction ms) auto
  have all: "decodeAll cdcs ms out = Some out" for out
    using nodata by (induction ms) auto
  have none: "filter (\<lambda>m. mType m = Data) ms = []"
    using nodata by (induction ms) auto
  have srv: "decodeError b \<noteq> Some ErrorZeroResults"
    by (auto simp: decodeError_def split: option.splits)
  show ?thesis
  proof (cases "expCard q")
    case One
    show ?thesis
      using none srv
      by (simp add: execute_flat [OF One assms(2,3) rec all]
            optimistic_flat [OF One assms(2,3) rec all])
  next
    case Many
    with assms(1) have sl: "dest w = Slice residue" by simp
    show ?thesis
      using srv
      by (simp add: execute_many [OF Many sl assms(2,3) rec rows]
            optimistic_many [OF Many sl assms(2,3) rec rows])
  qed
qed

lemma example_messages_empty:
  "messages [0x43, 0,0,0,4, 0x5a, 0,0,0,4] = Some [[0x43, 0,0,0,4], [0x5a, 0,0,0,4]]"
  by (simp add: messages.simps PopMessage_def be_nat_def Let_def)

theorem execute_zero_results_witness:
  "fst (execute exampleDeps
         (exampleWorld (Atom [9]) (Basic ''bytes'') [0x43, 0,0,0,4, 0x5a, 0,0,0,4])
         (exampleQuery One) (Basic ''bytes'') exampleCodecs) = Err ErrorZeroResults"
proof -
  let ?buf = "[0x43, 0,0,0,4, 0x5a, 0,0,0,4] :: byte list"
  let ?w = "exampleWorld (Atom [9]) (Basic ''bytes'') ?buf"
  have 1: "expCard (exampleQuery One) = One \<or> dest ?w = Slice []"
    by (simp add: exampleQuery_def)
  have 2: "replies (conn ?w) = Inr ?buf # []" by (simp add: exampleWorld_def)
  have 3: "messages ?buf = Some [[0x43, 0,0,0,4], [0x5a, 0,0,0,4]]"
    by (rule example_messages_empty)
  have 4: "\<forall>m\<in>set [[0x43, 0,0,0,4], [0x5a, 0,0,0,4 :: byte]].
             mType m = CommandComplete \<or> mType m = ReadyForCommand"
    by (simp add: mType_def message_consts)
  show ?thesis
    using execute_zero_results [OF 1 2 3 4] by simp
qed

text \<open>
  C1 as stated fails in its last part: the zero-results error is not tied to cardinality
  one.  A query of cardinality many whose reply holds no row gets it too.
\<close>

theorem execute_zero_results_counterexample:
  "expCard (exampleQuery Many) = Many
   \<and> messages [0x43, 0,0,0,4, 0x5a, 0,0,0,4] = Some [[0x43, 0,0,0,4], [0x5a, 0,0,0,4]]
   \<and> execute exampleDeps
        (exampleWorld (Slice [Atom [9]]) (SliceOf (Basic ''bytes''))
           [0x43, 0,0,0,4, 0x5a, 0,0,0,4])
        (exampleQuery Many) (Basic ''bytes'') exampleCodecs
      = (Err ErrorZeroResults,
         (exampleWorld (Slice [Atom [9]]) (SliceOf (Basic ''bytes''))
           [0x43, 0,0,0,4, 0x5a, 0,0,0,4])
         \<lparr>conn := \<lparr>sent = [executeRequest (exampleQuery Many) exampleCodecs], replies = []\<rparr>,
           dest := Slice []\<rparr>)"
  by (simp add: example_messages_empty exampleQuery_def execute_def exampleWorld_def
        writeAndRead_def flat_def executeLoop.simps PopMessage_def be_nat_def Let_def
        PopUint8_def message_consts)

subsection \<open>Error responses\<close>

lemma message_distinct:
  "CommandComplete \<noteq> ReadyForCommand" "ReadyForCommand \<noteq> CommandComplete"
  "CommandComplete \<noteq> ErrorResponse" "ErrorResponse \<noteq> CommandComplete"
  "ErrorResponse \<noteq> ReadyForCommand" "ReadyForCommand \<noteq> ErrorResponse"
  "Data \<noteq> CommandComplete" "CommandComplete \<noteq> Data"
  "Data \<noteq> ReadyForCommand" "ReadyForCommand \<noteq> Data"
  "Data \<noteq> ErrorResponse" "ErrorResponse \<noteq> Data"
  by (simp_all add: message_consts)

lemma scriptLoop_done: "scriptLoop d c r True err = (Inr err, r)"
  by (subst scriptLoop.simps) (simp add: Next_def)

lemma scriptLoop_drain:
  "rErr r = None \<Longrightarrow> pending r = map Inr pre @ Inr (ReadyForCommand, b) # rest \<Longrightarrow>
   \<forall>(t, body)\<in>set pre. t = CommandComplete \<or> t = ErrorResponse
        \<or> (t \<noteq> ReadyForCommand \<and> fallThrough d t body = None) \<Longrightarrow>
   scriptLoop d c r False err =
     (Inr (scriptErrors d c err pre),
      r\<lparr>pending := rest, MsgType := ReadyForCommand, Buf := []\<rparr>)"
proof (induction pre arbitrary: r err)
  case Nil
  then show ?case
    by (subst scriptLoop.simps)
       (simp add: Next_def scriptLoop_done decodeReadyForCommandMsg_def scriptErrors_def
          message_distinct)
next
  case (Cons m pre)
  obtain t body where m: "m = (t, body)" by (cases m)
  have next1: "Next r False =
      (True, r\<lparr>pending := map Inr pre @ Inr (ReadyForCommand, b) # rest, MsgType := t,
               Buf := body\<rparr>)"
    using Cons.prems(1,2) by (simp add: Next_def m)
  have IH: "scriptLoop d c
      (r\<lparr>pending := map Inr pre @ Inr (ReadyForCommand, b) # rest, MsgType := t',
         Buf := []\<rparr>) False e =
      (Inr (scriptErrors d c e pre),
       r\<lparr>pending := rest, MsgType := ReadyForCommand, Buf := []\<rparr>)" for e t'
    using Cons.IH [of "r\<lparr>pending := map Inr pre @ Inr (ReadyForCommand, b) # rest,
         MsgType := t', Buf := []\<rparr>" e] Cons.prems by simp
  from Cons.prems(3) have cases: "t = CommandComplete \<or> t = ErrorResponse
        \<or> (t \<noteq> ReadyForCommand \<and> fallThrough d t body = None)"
    by (simp add: m)
  show ?case
    using cases
    by (subst scriptLoop.simps)
       (auto simp: next1 IH decodeCommandCompleteMsg0pX_def scriptErrors_def m message_distinct)
qed

lemma execScriptFlow_drain:
  assumes "state q = []" and "wfail (soc c) = None" and "rErr r = None"
    and "pending r = map Inr pre @ Inr (ReadyForCommand, b) # rest"
    and "\<forall>(t, body)\<in>set pre. t = CommandComplete \<or> t = ErrorResponse
        \<or> (t \<noteq> ReadyForCommand \<and> fallThrough d t body = None)"
  shows "execScriptFlow d c r q =
     (scriptErrors d (cmd q) None pre,
      c\<lparr>soc := (soc c)\<lparr>written := written (soc c) @ [scriptRequest q]\<rparr>\<rparr>,
      r\<lparr>pending := rest, MsgType := ReadyForCommand, Buf := []\<rparr>)"
  using assms(1,2,3)
  by (simp add: execScriptFlow_def WriteAll_def Let_def scriptRequest_def
        scriptLoop_drain [OF assms(3-5)])

lemma executeLoop_error_many:
  assumes "\<not> flat q" and "messages buf = Some (pre @ e # post)"
    and "\<forall>m\<in>set pre. recognised m" and "rowsOf d tp cdcs pre = Some rows"
    and "valueOf ov out = Slice xs"
    and "mType e = ErrorResponse" and "decodeError (tl e) = Some se"
  shows "executeLoop d q tp cdcs buf ov out err = (Inl (Err se), out)"
proof -
  from executeLoop_prefix_many [OF assms(1,2,3,4,5), of err]
  obtain buf' where m: "messages buf' = Some (e # post)"
    and eq: "executeLoop d q tp cdcs buf ov out err =
             executeLoop d q tp cdcs buf'
               (if rows = [] then ov else Fresh (Slice (xs @ rows))) out
               (if rows = [] then err else None)"
    by auto
  from messages_Cons [OF m] obtain buf2 where "0 < length buf'"
    and "PopMessage buf' = Some (e, buf2)" by auto
  then have "executeLoop d q tp cdcs buf' ov' out err' = (Inl (Err se), out)" for ov' err'
    using assms(6,7) by (rule executeLoop_error)
  then show ?thesis unfolding eq .
qed

lemma executeLoop_error_flat:
  assumes "flat q" and "messages buf = Some (pre @ e # post)"
    and "\<forall>m\<in>set pre. recognised m" and "decodeAll cdcs pre out = Some out'"
    and "mType e = ErrorResponse" and "decodeError (tl e) = Some se"
  shows "executeLoop d q tp cdcs buf ov out err = (Inl (Err se), out')"
proof -
  from executeLoop_prefix_flat [OF assms(1,2,3,4), of d tp ov err]
  obtain buf' where m: "messages buf' = Some (e # post)"
    and eq: "executeLoop d q tp cdcs buf ov out err =
             executeLoop d q tp cdcs buf' ov out'
               (if filter (\<lambda>m. mType m = Data) pre = [] then err else None)"
    by auto
  from messages_Cons [OF m] obtain buf2 where "0 < length buf'"
    and "PopMessage buf' = Some (e, buf2)" by auto
  then have "executeLoop d q tp cdcs buf' ov' out' err' = (Inl (Err se), out')" for ov' err'
    using assms(5,6) by (rule executeLoop_error)
  then show ?thesis unfolding eq .
qed

lemma decodeError_ServerError:
  "decodeError b = Some se \<Longrightarrow> \<exists>s c t. se = ServerError s c t"
  by (auto simp: decodeError_def split: option.splits)

lemma execute_error:
  assumes "expCard q = One \<and> decodeAll cdcs pre (dest w) = Some v
         \<or> expCard q = Many \<and> dest w = Slice residue \<and> rowsOf d tp cdcs pre = Some rows"
    and "replies (conn w) = Inr buf # rest"
    and "messages buf = Some (pre @ e # post)"
    and "\<forall>m\<in>set pre. recognised m"
    and "mType e = ErrorResponse" and "decodeError (tl e) = Some se"
  shows "fst (execute d w q tp cdcs) = Err se \<and> fst (optimistic d w q tp cdcs) = Err se
       \<and> replies (conn (snd (execute d w q tp cdcs))) = rest
       \<and> replies (conn (snd (optimistic d w q tp cdcs))) = rest"
  using assms(1)
proof
  assume a: "expCard q = One \<and> decodeAll cdcs pre (dest w) = Some v"
  then have f: "flat q" by (simp add: flat_def)
  show ?thesis
    using f a
    by (simp add: execute_def optimistic_def optimisticLoop_eq writeAndRead_reply [OF assms(2)]
          executeLoop_error_flat [OF f assms(3,4) _ assms(5,6)])
next
  assume a: "expCard q = Many \<and> dest w = Slice residue \<and> rowsOf d tp cdcs pre = Some rows"
  then have nf: "\<not> flat q" by (simp add: flat_def)
  from a have r: "rowsOf d tp cdcs pre = Some rows" by simp
  have v: "valueOf SameAsOut (Slice []) = Slice []" by simp
  show ?thesis
    using nf a
    by (simp add: execute_def optimistic_def optimisticLoop_eq writeAndRead_reply [OF assms(2)]
          executeLoop_error_many [OF nf assms(3,4) r v assms(5,6)])
qed


lemma scriptLoop_prefix:
  "rErr r = None \<Longrightarrow> pending r = map Inr pre @ rest \<Longrightarrow>
   \<forall>(t, body)\<in>set pre. t = CommandComplete \<or> t = ErrorResponse
        \<or> (t \<noteq> ReadyForCommand \<and> fallThrough d t body = None) \<Longrightarrow>
   \<exists>r'. pending r' = rest \<and> rErr r' = None \<and>
     scriptLoop d c r False err = scriptLoop d c r' False (scriptErrors d c err pre)"
proof (induction pre arbitrary: r err)
  case Nil
  then show ?case by (auto simp: scriptErrors_def)
next
  case (Cons m pre)
  obtain t body where m: "m = (t, body)" by (cases m)
  let ?r1 = "r\<lparr>pending := map Inr pre @ rest, MsgType := t, Buf := []\<rparr>"
  have next1: "Next r False =
      (True, r\<lparr>pending := map Inr pre @ rest, MsgType := t, Buf := body\<rparr>)"
    using Cons.prems(1,2) by (simp add: Next_def m)
  have IH: "\<exists>r'. pending r' = rest \<and> rErr r' = None \<and>
      scriptLoop d c ?r1 False e = scriptLoop d c r' False (scriptErrors d c e pre)" for e
    using Cons.IH [of ?r1 e] Cons.prems by simp
  from Cons.prems(3) have cases: "t = CommandComplete \<or> t = ErrorResponse
        \<or> (t \<noteq> ReadyForCommand \<and> fallThrough d t body = None)"
    by (simp add: m)
  let ?e = "if t = ErrorResponse then wrapAll d err (decodeErrorResponseMsg d body c) else err"
  have step: "scriptLoop d c r False err = scriptLoop d c ?r1 False ?e"
    using cases
    by (subst scriptLoop.simps)
       (auto simp: next1 decodeCommandCompleteMsg0pX_def message_distinct)
  have fold: "scriptErrors d c err (m # pre) = scriptErrors d c ?e pre"
    by (simp add: scriptErrors_def m)
  show ?case
    unfolding step fold by (rule IH)
qed

lemma scriptLoop_refused:
  assumes "rErr r = None" and "pending r = Inr (t, body) # later"
    and "t \<noteq> CommandComplete" and "t \<noteq> ReadyForCommand" and "t \<noteq> ErrorResponse"
    and "fallThrough d t body = Some fe"
  shows "fst (scriptLoop d c r False err) = Inl fe"
  using assms by (subst scriptLoop.simps) (simp add: Next_def)

lemma scriptLoop_failed:
  assumes "rErr r = None" and "pending r = Inl te # later"
  shows "\<exists>r'. scriptLoop d c r False err = (Inr err, r') \<and> rErr r' = Some te"
  using assms by (subst scriptLoop.simps) (simp add: Next_def)

lemma scriptLoop_eof:
  assumes "rErr r = None" and "pending r = []"
  shows "\<exists>r'. scriptLoop d c r False err = (Inr err, r') \<and> rErr r' = Some ErrUnexpectedEOF"
  using assms by (subst scriptLoop.simps) (simp add: Next_def)

lemma execScriptFlow_loop:
  assumes "state q = []" and "wfail (soc c) = None"
  shows "fst (execScriptFlow d c r q) =
     (case scriptLoop d (cmd q) r False None of
        (Inl e, r') \<Rightarrow> Some e
      | (Inr err, r') \<Rightarrow> if rErr r' \<noteq> None then rErr r' else err)"
  using assms
  by (simp add: execScriptFlow_def WriteAll_def Let_def split: prod.splits sum.splits)

lemma execScriptFlow_not_drained:
  assumes "state q = []" and "wfail (soc c) = None" and "rErr r = None"
    and "\<forall>(t, body)\<in>set ms. t = CommandComplete \<or> t = ErrorResponse
        \<or> (t \<noteq> ReadyForCommand \<and> fallThrough d t body = None)"
  shows "pending r = map Inr ms @ Inr (ut, ub) # later \<Longrightarrow> ut \<noteq> CommandComplete \<Longrightarrow>
           ut \<noteq> ReadyForCommand \<Longrightarrow> ut \<noteq> ErrorResponse \<Longrightarrow> fallThrough d ut ub = Some fe \<Longrightarrow>
           fst (execScriptFlow d c r q) = Some fe"
    and "pending r = map Inr ms @ Inl te # later \<Longrightarrow> fst (execScriptFlow d c r q) = Some te"
    and "pending r = map Inr ms \<Longrightarrow> fst (execScriptFlow d c r q) = Some ErrUnexpectedEOF"
proof -
  note loop = execScriptFlow_loop [OF assms(1,2), of d r]
  { assume p: "pending r = map Inr ms @ Inr (ut, ub) # later"
      and u: "ut \<noteq> CommandComplete" "ut \<noteq> ReadyForCommand" "ut \<noteq> ErrorResponse"
        "fallThrough d ut ub = Some fe"
    from scriptLoop_prefix [OF assms(3) p assms(4), of "cmd q" None]
    obtain r' where r': "pending r' = Inr (ut, ub) # later" "rErr r' = None"
      and eq: "scriptLoop d (cmd q) r False None =
               scriptLoop d (cmd q) r' False (scriptErrors d (cmd q) None ms)"
      by blast
    from scriptLoop_refused [OF r'(2,1) u, of "cmd q" "scriptErrors d (cmd q) None ms"]
    show "fst (execScriptFlow d c r q) = Some fe"
      by (auto simp: loop eq split: prod.splits) }
  { assume p: "pending r = map Inr ms @ Inl te # later"
    from scriptLoop_prefix [OF assms(3) p assms(4), of "cmd q" None]
    obtain r' where r': "pending r' = Inl te # later" "rErr r' = None"
      and eq: "scriptLoop d (cmd q) r False None =
               scriptLoop d (cmd q) r' False (scriptErrors d (cmd q) None ms)"
      by blast
    from scriptLoop_failed [OF r'(2,1), of d "cmd q" "scriptErrors d (cmd q) None ms"]
    show "fst (execScriptFlow d c r q) = Some te"
      by (auto simp: loop eq) }
  { assume "pending r = map Inr ms"
    then have p: "pending r = map Inr ms @ []" by simp
    from scriptLoop_prefix [OF assms(3) p assms(4), of "cmd q" None]
    obtain r' where r': "pending r' = []" "rErr r' = None"
      and eq: "scriptLoop d (cmd q) r False None =
               scriptLoop d (cmd q) r' False (scriptErrors d (cmd q) None ms)"
      by blast
    from scriptLoop_eof [OF r'(2,1), of d "cmd q" "scriptErrors d (cmd q) None ms"]
    show "fst (execScriptFlow d c r q) = Some ErrUnexpectedEOF"
      by (auto simp: loop eq) }
qed

lemma executeLoop_unexpected_many:
  assumes "\<not> flat q" and "messages buf = Some (pre @ u # post)"
    and "\<forall>m\<in>set pre. recognised m" and "rowsOf d tp cdcs pre = Some rows"
    and "valueOf ov out = Slice xs"
    and "\<not> recognised u" and "mType u \<noteq> ErrorResponse"
  shows "executeLoop d q tp cdcs buf ov out err =
           (Inl (Panic (UnexpectedMessageType (mType u))), out)"
proof -
  from executeLoop_prefix_many [OF assms(1,2,3,4,5), of err]
  obtain buf' where m: "messages buf' = Some (u # post)"
    and eq: "executeLoop d q tp cdcs buf ov out err =
             executeLoop d q tp cdcs buf'
               (if rows = [] then ov else Fresh (Slice (xs @ rows))) out
               (if rows = [] then err else None)"
    by auto
  from messages_Cons [OF m] obtain buf2 where "0 < length buf'"
    and "PopMessage buf' = Some (u, buf2)" by auto
  then have "executeLoop d q tp cdcs buf' ov' out err' =
      (Inl (Panic (UnexpectedMessageType (mType u))), out)" for ov' err'
    using assms(6,7) by (intro executeLoop_unexpected) (auto simp: recognised_def)
  then show ?thesis unfolding eq .
qed

lemma executeLoop_unexpected_flat:
  assumes "flat q" and "messages buf = Some (pre @ u # post)"
    and "\<forall>m\<in>set pre. recognised m" and "decodeAll cdcs pre out = Some out'"
    and "\<not> recognised u" and "mType u \<noteq> ErrorResponse"
  shows "executeLoop d q tp cdcs buf ov out err =
           (Inl (Panic (UnexpectedMessageType (mType u))), out')"
proof -
  from executeLoop_prefix_flat [OF assms(1,2,3,4), of d tp ov err]
  obtain buf' where m: "messages buf' = Some (u # post)"
    and eq: "executeLoop d q tp cdcs buf ov out err =
             executeLoop d q tp cdcs buf' ov out'
               (if filter (\<lambda>m. mType m = Data) pre = [] then err else None)"
    by auto
  from messages_Cons [OF m] obtain buf2 where "0 < length buf'"
    and "PopMessage buf' = Some (u, buf2)" by auto
  then have "executeLoop d q tp cdcs buf' ov' out' err' =
      (Inl (Panic (UnexpectedMessageType (mType u))), out')" for ov' err'
    using assms(5,6) by (intro executeLoop_unexpected) (auto simp: recognised_def)
  then show ?thesis unfolding eq .
qed

lemma execute_unexpected:
  assumes "expCard q = One \<and> decodeAll cdcs pre (dest w) = Some v
         \<or> expCard q = Many \<and> dest w = Slice residue \<and> rowsOf d tp cdcs pre = Some rows"
    and "replies (conn w) = Inr buf # rest"
    and "messages buf = Some (pre @ u # post)"
    and "\<forall>m\<in>set pre. recognised m"
    and "\<not> recognised u" and "mType u \<noteq> ErrorResponse"
  shows "fst (execute d w q tp cdcs) = Panic (UnexpectedMessageType (mType u))
       \<and> fst (optimistic d w q tp cdcs) = Panic (UnexpectedMessageType (mType u))"
  using assms(1)
proof
  assume a: "expCard q = One \<and> decodeAll cdcs pre (dest w) = Some v"
  then have f: "flat q" by (simp add: flat_def)
  show ?thesis
    using f a
    by (simp add: execute_def optimistic_def optimisticLoop_eq writeAndRead_reply [OF assms(2)]
          executeLoop_unexpected_flat [OF f assms(3,4) _ assms(5,6)])
next
  assume a: "expCard q = Many \<and> dest w = Slice residue \<and> rowsOf d tp cdcs pre = Some rows"
  then have nf: "\<not> flat q" by (simp add: flat_def)
  from a have r: "rowsOf d tp cdcs pre = Some rows" by simp
  have v: "valueOf SameAsOut (Slice []) = Slice []" by simp
  show ?thesis
    using nf a
    by (simp add: execute_def optimistic_def optimisticLoop_eq writeAndRead_reply [OF assms(2)]
          executeLoop_unexpected_many [OF nf assms(3,4) r v assms(5,6)])
qed

text \<open>
  C8 (as amended).  \<^verbatim>\<open>execute\<close> and \<^verbatim>\<open>optimistic\<close> work on a response that
  \<^verbatim>\<open>writeAndRead\<close> has already read in full.  When its first messages are
  recognised ones whose rows decode and the next is an \<^verbatim>\<open>ErrorResponse\<close> that
  \<^verbatim>\<open>decodeError\<close> can read, the call returns that decoded server error as soon as
  the loop reaches it; the messages after it, whatever they are, are not processed.
  When the next message is instead of a type the switch does not name, the call panics
  with that type, also when an \<^verbatim>\<open>ErrorResponse\<close> follows.

  \<^verbatim>\<open>execScriptFlow\<close>, for a query without session state whose request was written:
  as long as the messages are \<^verbatim>\<open>CommandComplete\<close>, \<^verbatim>\<open>ErrorResponse\<close> or ones that
  \<^verbatim>\<open>fallThrough\<close> accepts, the flow goes on reading.  If \<^verbatim>\<open>ReadyForCommand\<close> comes
  next, it is read too and only then the decoded server errors are returned, combined
  by \<^verbatim>\<open>wrapAll\<close>.  If a message comes next that \<^verbatim>\<open>fallThrough\<close> refuses, its error
  is returned at once; if the reader fails or the stream ends, the reader's error is
  returned; in both cases whatever \<^verbatim>\<open>ErrorResponse\<close> was decoded before is dropped.
\<close>

theorem error_response_returned:
  "((expCard q = One \<and> decodeAll cdcs pre (dest w) = Some v
       \<or> expCard q = Many \<and> dest w = Slice residue \<and> rowsOf d tp cdcs pre = Some rows)
      \<and> replies (conn w) = Inr buf # rest
      \<and> messages buf = Some (pre @ m # post)
      \<and> (\<forall>x\<in>set pre. recognised x) \<longrightarrow>
      (mType m = ErrorResponse \<and> decodeError (tl m) = Some se \<longrightarrow>
           fst (execute d w q tp cdcs) = Err se
         \<and> fst (optimistic d w q tp cdcs) = Err se
         \<and> (\<exists>s c t. se = ServerError s c t)
         \<and> replies (conn (snd (execute d w q tp cdcs))) = rest
         \<and> replies (conn (snd (optimistic d w q tp cdcs))) = rest)
    \<and> (\<not> recognised m \<and> mType m \<noteq> ErrorResponse \<longrightarrow>
           fst (execute d w q tp cdcs) = Panic (UnexpectedMessageType (mType m))
         \<and> fst (optimistic d w q tp cdcs) = Panic (UnexpectedMessageType (mType m))))
   \<and> (state q0 = [] \<and> wfail (soc c) = None \<and> rErr r = None
      \<and> (\<forall>(t, body)\<in>set ms. t = CommandComplete \<or> t = ErrorResponse
             \<or> (t \<noteq> ReadyForCommand \<and> fallThrough sd t body = None)) \<longrightarrow>
      (pending r = map Inr ms @ Inr (ReadyForCommand, b) # later \<longrightarrow>
           execScriptFlow sd c r q0 =
             (scriptErrors sd (cmd q0) None ms,
              c\<lparr>soc := (soc c)\<lparr>written := written (soc c) @ [scriptRequest q0]\<rparr>\<rparr>,
              r\<lparr>pending := later, MsgType := ReadyForCommand, Buf := []\<rparr>))
    \<and> (pending r = map Inr ms @ Inr (ut, ub) # later \<and> ut \<noteq> CommandComplete
          \<and> ut \<noteq> ReadyForCommand \<and> ut \<noteq> ErrorResponse \<and> fallThrough sd ut ub = Some fe \<longrightarrow>
           fst (execScriptFlow sd c r q0) = Some fe)
    \<and> (pending r = map Inr ms @ Inl te # later \<longrightarrow>
           fst (execScriptFlow sd c r q0) = Some te)
    \<and> (pending r = map Inr ms \<longrightarrow>
           fst (execScriptFlow sd c r q0) = Some ErrUnexpectedEOF))"
  (is "(?X \<longrightarrow> (?E \<longrightarrow> ?XE) \<and> (?U \<longrightarrow> ?XU))
       \<and> (?S \<longrightarrow> (?D \<longrightarrow> ?SD) \<and> (?F \<longrightarrow> ?SF) \<and> (?T \<longrightarrow> ?ST) \<and> (?O \<longrightarrow> ?SO))")
proof (intro conjI impI)
  assume x: ?X and e: ?E
  from x have 1: "expCard q = One \<and> decodeAll cdcs pre (dest w) = Some v
         \<or> expCard q = Many \<and> dest w = Slice residue \<and> rowsOf d tp cdcs pre = Some rows"
    and 2: "replies (conn w) = Inr buf # rest"
    and 3: "messages buf = Some (pre @ m # post)"
    and 4: "\<forall>x\<in>set pre. recognised x" by blast+
  from e have 5: "mType m = ErrorResponse" and 6: "decodeError (tl m) = Some se" by blast+
  note r = execute_error [OF 1 2 3 4 5 6]
  from r show "fst (execute d w q tp cdcs) = Err se" by blast
  from r show "fst (optimistic d w q tp cdcs) = Err se" by blast
  from r show "replies (conn (snd (execute d w q tp cdcs))) = rest" by blast
  from r show "replies (conn (snd (optimistic d w q tp cdcs))) = rest" by blast
  show "\<exists>s c t. se = ServerError s c t" by (rule decodeError_ServerError [OF 6])
next
  assume x: ?X and u: ?U
  from x have 1: "expCard q = One \<and> decodeAll cdcs pre (dest w) = Some v
         \<or> expCard q = Many \<and> dest w = Slice residue \<and> rowsOf d tp cdcs pre = Some rows"
    and 2: "replies (conn w) = Inr buf # rest"
    and 3: "messages buf = Some (pre @ m # post)"
    and 4: "\<forall>x\<in>set pre. recognised x" by blast+
  from u have 5: "\<not> recognised m" and 6: "mType m \<noteq> ErrorResponse" by blast+
  note r = execute_unexpected [OF 1 2 3 4 5 6]
  from r show "fst (execute d w q tp cdcs) = Panic (UnexpectedMessageType (mType m))"
    by blast
  from r show "fst (optimistic d w q tp cdcs) = Panic (UnexpectedMessageType (mType m))"
    by blast
next
  assume s: ?S and p: ?D
  from s have 1: "state q0 = []" and 2: "wfail (soc c) = None" and 3: "rErr r = None"
    and 4: "\<forall>(t, body)\<in>set ms. t = CommandComplete \<or> t = ErrorResponse
             \<or> (t \<noteq> ReadyForCommand \<and> fallThrough sd t body = None)" by blast+
  show ?SD by (rule execScriptFlow_drain [OF 1 2 3 p 4])
next
  assume s: ?S and p: ?F
  from s have 1: "state q0 = []" and 2: "wfail (soc c) = None" and 3: "rErr r = None"
    and 4: "\<forall>(t, body)\<in>set ms. t = CommandComplete \<or> t = ErrorResponse
             \<or> (t \<noteq> ReadyForCommand \<and> fallThrough sd t body = None)" by blast+
  from p show ?SF using execScriptFlow_not_drained(1) [OF 1 2 3 4] by blast
next
  assume s: ?S and p: ?T
  from s have 1: "state q0 = []" and 2: "wfail (soc c) = None" and 3: "rErr r = None"
    and 4: "\<forall>(t, body)\<in>set ms. t = CommandComplete \<or> t = ErrorResponse
             \<or> (t \<noteq> ReadyForCommand \<and> fallThrough sd t body = None)" by blast+
  show ?ST by (rule execScriptFlow_not_drained(2) [OF 1 2 3 4 p])
next
  assume s: ?S and p: ?O
  from s have 1: "state q0 = []" and 2: "wfail (soc c) = None" and 3: "rErr r = None"
    and 4: "\<forall>(t, body)\<in>set ms. t = CommandComplete \<or> t = ErrorResponse
             \<or> (t \<noteq> ReadyForCommand \<and> fallThrough sd t body = None)" by blast+
  show ?SO by (rule execScriptFlow_not_drained(3) [OF 1 2 3 4 p])
qed

theorem error_response_returned_witness:
  "fst (execute exampleDeps
         (exampleWorld (Atom [9]) (Basic ''bytes'')
            [0x43, 0,0,0,4, 0x45, 0,0,0,14, 0x78, 0,0,0,1, 0,0,0,1, 0x21,
             0x4c, 0,0,0,4, 0x5a, 0,0,0,4])
         (exampleQuery One) (Basic ''bytes'') exampleCodecs)
     = Err (ServerError 0x78 1 [0x21])
   \<and> fst (execute exampleDeps
         (exampleWorld (Atom [9]) (Basic ''bytes'')
            [0x4c, 0,0,0,4, 0x45, 0,0,0,14, 0x78, 0,0,0,1, 0,0,0,1, 0x21, 0x5a, 0,0,0,4])
         (exampleQuery One) (Basic ''bytes'') exampleCodecs)
     = Panic (UnexpectedMessageType 0x4c)
   \<and> execScriptFlow exampleScriptDeps \<lparr>soc = \<lparr>written = [], wfail = None\<rparr>\<rparr>
        \<lparr>pending = [Inr (ErrorResponse, [0x21]), Inr (CommandComplete, []),
                    Inr (ReadyForCommand, []), Inr (CommandComplete, [])],
         MsgType = 0, Buf = [], rErr = None\<rparr>
        \<lparr>cmd = [0x73], fmt = 0x62, expCard = Many, args = [] :: byte list val list, state = [], headers0pX = []\<rparr>
     = (Some (ServerError 0x78 1 [0x21]),
        \<lparr>soc = \<lparr>written = [[0x51, 0,0,0,11, 0,0, 0,0,0,1, 0x73]], wfail = None\<rparr>\<rparr>,
        \<lparr>pending = [Inr (CommandComplete, [])], MsgType = ReadyForCommand, Buf = [],
         rErr = None\<rparr>)
   \<and> fst (execScriptFlow exampleScriptDeps \<lparr>soc = \<lparr>written = [], wfail = None\<rparr>\<rparr>
        \<lparr>pending = [Inr (ErrorResponse, [0x21]), Inr (CommandComplete, []),
                    Inr (0x4c, []), Inr (ReadyForCommand, [])],
         MsgType = 0, Buf = [], rErr = None\<rparr>
        \<lparr>cmd = [0x73], fmt = 0x62, expCard = Many, args = [] :: byte list val list, state = [], headers0pX = []\<rparr>)
     = Some (OtherError ''unexpected message'')
   \<and> fst (execScriptFlow exampleScriptDeps \<lparr>soc = \<lparr>written = [], wfail = None\<rparr>\<rparr>
        \<lparr>pending = [Inr (ErrorResponse, [0x21]), Inr (CommandComplete, []),
                    Inl (TransportError 1), Inr (ReadyForCommand, [])],
         MsgType = 0, Buf = [], rErr = None\<rparr>
        \<lparr>cmd = [0x73], fmt = 0x62, expCard = Many, args = [] :: byte list val list, state = [], headers0pX = []\<rparr>)
     = Some (TransportError 1)"
proof -
  let ?e = "[0x45, 0,0,0,14, 0x78, 0,0,0,1, 0,0,0,1, 0x21] :: byte list"
  let ?u = "[0x4c, 0,0,0,4] :: byte list"
  let ?buf1 = "[0x43, 0,0,0,4, 0x45, 0,0,0,14, 0x78, 0,0,0,1, 0,0,0,1, 0x21,
                0x4c, 0,0,0,4, 0x5a, 0,0,0,4] :: byte list"
  let ?buf2 = "[0x4c, 0,0,0,4, 0x45, 0,0,0,14, 0x78, 0,0,0,1, 0,0,0,1, 0x21, 0x5a, 0,0,0,4]
                :: byte list"
  let ?w1 = "exampleWorld (Atom [9]) (Basic ''bytes'') ?buf1"
  let ?w2 = "exampleWorld (Atom [9]) (Basic ''bytes'') ?buf2"
  let ?q0 = "\<lparr>cmd = [0x73], fmt = 0x62, expCard = Many, args = [] :: byte list val list, state = [],
              headers0pX = []\<rparr>"
  let ?c = "\<lparr>soc = \<lparr>written = [], wfail = None\<rparr>\<rparr>"
  let ?ms = "[(ErrorResponse, [0x21]), (CommandComplete, [])] :: (byte \<times> byte list) list"
  let ?r1 = "\<lparr>pending = [Inr (ErrorResponse, [0x21]), Inr (CommandComplete, []),
                    Inr (ReadyForCommand, []), Inr (CommandComplete, [])],
         MsgType = 0, Buf = [], rErr = None\<rparr>"
  let ?r2 = "\<lparr>pending = [Inr (ErrorResponse, [0x21]), Inr (CommandComplete, []),
                    Inr (0x4c, []), Inr (ReadyForCommand, [])],
         MsgType = 0, Buf = [], rErr = None\<rparr>"
  let ?r3 = "\<lparr>pending = [Inr (ErrorResponse, [0x21]), Inr (CommandComplete, []),
                    Inl (TransportError 1), Inr (ReadyForCommand, [])],
         MsgType = 0, Buf = [], rErr = None\<rparr>"
  have x1: "(expCard (exampleQuery One) = One
             \<and> decodeAll exampleCodecs [[0x43, 0,0,0,4]] (dest ?w1) = Some (Atom [9])
         \<or> expCard (exampleQuery One) = Many \<and> dest ?w1 = Slice []
             \<and> rowsOf exampleDeps (Basic ''bytes'') exampleCodecs [[0x43, 0,0,0,4]] = Some [])
      \<and> replies (conn ?w1) = Inr ?buf1 # []
      \<and> messages ?buf1 = Some ([[0x43, 0,0,0,4]] @ ?e # [?u, [0x5a, 0,0,0,4]])
      \<and> (\<forall>x\<in>set [[0x43, 0,0,0,4 :: byte]]. recognised x)"
    by (simp add: exampleQuery_def exampleWorld_def mType_def message_consts recognised_def
          messages.simps PopMessage_def be_nat_def Let_def)
  have e1: "mType ?e = ErrorResponse \<and> decodeError (tl ?e) = Some (ServerError 0x78 1 [0x21])"
    by (simp add: mType_def message_consts decodeError_def PopUint32_def PopUint8_def
          PopString_def PopBytes_def be_nat_def)
  have x2: "(expCard (exampleQuery One) = One
             \<and> decodeAll exampleCodecs [] (dest ?w2) = Some (Atom [9])
         \<or> expCard (exampleQuery One) = Many \<and> dest ?w2 = Slice []
             \<and> rowsOf exampleDeps (Basic ''bytes'') exampleCodecs [] = Some [])
      \<and> replies (conn ?w2) = Inr ?buf2 # []
      \<and> messages ?buf2 = Some ([] @ ?u # [?e, [0x5a, 0,0,0,4]])
      \<and> (\<forall>x\<in>set ([] :: byte list list). recognised x)"
    by (simp add: exampleQuery_def exampleWorld_def
          messages.simps PopMessage_def be_nat_def Let_def)
  have u2: "\<not> recognised ?u \<and> mType ?u \<noteq> ErrorResponse"
    by (simp add: recognised_def mType_def message_consts)
  have mu: "mType ?u = 0x4c" by (simp add: mType_def)
  have s: "state ?q0 = [] \<and> wfail (soc ?c) = None \<and> rErr r = None
      \<and> (\<forall>(t, body)\<in>set ?ms. t = CommandComplete \<or> t = ErrorResponse
             \<or> (t \<noteq> ReadyForCommand \<and> fallThrough exampleScriptDeps t body = None))"
    if "rErr r = None" for r
    using that by simp
  have p1: "pending ?r1 = map Inr ?ms @ Inr (ReadyForCommand, []) # [Inr (CommandComplete, [])]"
    by simp
  have p2: "pending ?r2 = map Inr ?ms @ Inr (0x4c, []) # [Inr (ReadyForCommand, [])]
      \<and> (0x4c :: byte) \<noteq> CommandComplete \<and> (0x4c :: byte) \<noteq> ReadyForCommand
      \<and> (0x4c :: byte) \<noteq> ErrorResponse
      \<and> fallThrough exampleScriptDeps 0x4c [] = Some (OtherError ''unexpected message'')"
    by (simp add: message_consts exampleScriptDeps_def)
  have p3: "pending ?r3 = map Inr ?ms @ Inl (TransportError 1) # [Inr (ReadyForCommand, [])]"
    by simp
  have se: "scriptErrors exampleScriptDeps [0x73] None ?ms = Some (ServerError 0x78 1 [0x21])"
    by (simp add: scriptErrors_def exampleScriptDeps_def message_distinct)
  have rq: "scriptRequest ?q0 = [0x51, 0,0,0,11, 0,0, 0,0,0,1, 0x73]"
    by (simp add: scriptRequest_def Unwrap_def EndMessage_def wPushString_def
          writeHeaders_def BeginMessage_def NewWriter_def wPushUint16_def be16_def be32_def
          Let_def ExecuteScript_def)
  note t1 = error_response_returned [where q = "exampleQuery One" and cdcs = exampleCodecs
      and pre = "[[0x43, 0,0,0,4]]" and w = ?w1 and v = "Atom [9]" and residue = "[]"
      and rows = "[]" and d = exampleDeps and tp = "Basic ''bytes''" and buf = ?buf1
      and rest = "[]" and m = ?e and post = "[?u, [0x5a, 0,0,0,4]]"
      and se = "ServerError 0x78 1 [0x21]"
      and ?q0.0 = ?q0 and c = ?c and r = ?r1 and ms = ?ms and sd = exampleScriptDeps
      and b = "[]" and later = "[Inr (CommandComplete, [])]"]
  note t2 = error_response_returned [where q = "exampleQuery One" and cdcs = exampleCodecs
      and pre = "[]" and w = ?w2 and v = "Atom [9]" and residue = "[]"
      and rows = "[]" and d = exampleDeps and tp = "Basic ''bytes''" and buf = ?buf2
      and rest = "[]" and m = ?u and post = "[?e, [0x5a, 0,0,0,4]]"
      and ?q0.0 = ?q0 and c = ?c and r = ?r2 and ms = ?ms and sd = exampleScriptDeps
      and ut = "0x4c" and ub = "[]" and later = "[Inr (ReadyForCommand, [])]"
      and fe = "OtherError ''unexpected message''"]
  note t3 = error_response_returned [where ?q0.0 = ?q0 and c = ?c and r = ?r3 and ms = ?ms
      and sd = exampleScriptDeps and te = "TransportError 1"
      and later = "[Inr (ReadyForCommand, [])]", THEN conjunct2]
  from t1 x1 e1 have a: "fst (execute exampleDeps ?w1 (exampleQuery One) (Basic ''bytes'')
      exampleCodecs) = Err (ServerError 0x78 1 [0x21])"
    by blast
  from t2 x2 u2 have "fst (execute exampleDeps ?w2 (exampleQuery One) (Basic ''bytes'')
      exampleCodecs) = Panic (UnexpectedMessageType (mType ?u))"
    by blast
  then have b: "fst (execute exampleDeps ?w2 (exampleQuery One) (Basic ''bytes'')
      exampleCodecs) = Panic (UnexpectedMessageType 0x4c)"
    by (simp only: mu)
  from t1 s [of ?r1] p1 have "execScriptFlow exampleScriptDeps ?c ?r1 ?q0 =
      (scriptErrors exampleScriptDeps (cmd ?q0) None ?ms,
       ?c\<lparr>soc := (soc ?c)\<lparr>written := written (soc ?c) @ [scriptRequest ?q0]\<rparr>\<rparr>,
       ?r1\<lparr>pending := [Inr (CommandComplete, [])], MsgType := ReadyForCommand, Buf := []\<rparr>)"
    by simp
  then have c: "execScriptFlow exampleScriptDeps ?c ?r1 ?q0 =
     (Some (ServerError 0x78 1 [0x21]),
        \<lparr>soc = \<lparr>written = [[0x51, 0,0,0,11, 0,0, 0,0,0,1, 0x73]], wfail = None\<rparr>\<rparr>,
        \<lparr>pending = [Inr (CommandComplete, [])], MsgType = ReadyForCommand, Buf = [],
         rErr = None\<rparr>)"
    by (simp add: se rq)
  from t2 s [of ?r2] p2 have d: "fst (execScriptFlow exampleScriptDeps ?c ?r2 ?q0)
      = Some (OtherError ''unexpected message'')"
    by simp
  from t3 s [of ?r3] p3 have e: "fst (execScriptFlow exampleScriptDeps ?c ?r3 ?q0)
      = Some (TransportError 1)"
    by simp
  show ?thesis
    by (intro conjI) (rule a, rule b, rule c, rule d, rule e)
qed

text \<open>
  C8 as stated fails on a response that also holds a message the flow does not accept, or
  on a reader that fails while draining: \<^verbatim>\<open>execute\<close> panics on an unknown message
  type before the \<^verbatim>\<open>ErrorResponse\<close>, and \<^verbatim>\<open>execScriptFlow\<close> returns the reader's
  transport error, or the error of \<^verbatim>\<open>fallThrough\<close>, instead of the decoded server error.
\<close>

theorem error_response_returned_counterexample:
  "messages [0x4c, 0,0,0,4, 0x45, 0,0,0,14, 0x78, 0,0,0,1, 0,0,0,1, 0x21, 0x5a, 0,0,0,4]
     = Some [[0x4c, 0,0,0,4], [0x45, 0,0,0,14, 0x78, 0,0,0,1, 0,0,0,1, 0x21], [0x5a, 0,0,0,4]]
   \<and> mType [0x45, 0,0,0,14, 0x78, 0,0,0,1, 0,0,0,1, 0x21] = ErrorResponse
   \<and> fst (execute exampleDeps
         (exampleWorld (Atom [9]) (Basic ''bytes'')
            [0x4c, 0,0,0,4, 0x45, 0,0,0,14, 0x78, 0,0,0,1, 0,0,0,1, 0x21, 0x5a, 0,0,0,4])
         (exampleQuery One) (Basic ''bytes'') exampleCodecs)
      = Panic (UnexpectedMessageType 0x4c)
   \<and> fst (execScriptFlow exampleScriptDeps \<lparr>soc = \<lparr>written = [], wfail = None\<rparr>\<rparr>
        \<lparr>pending = [Inr (ErrorResponse, [0x21]), Inl (TransportError 1),
                    Inr (ReadyForCommand, [])],
         MsgType = 0, Buf = [], rErr = None\<rparr>
        \<lparr>cmd = [0x73], fmt = 0x62, expCard = Many, args = [] :: byte list val list, state = [], headers0pX = []\<rparr>)
      = Some (TransportError 1)
   \<and> fst (execScriptFlow exampleScriptDeps \<lparr>soc = \<lparr>written = [], wfail = None\<rparr>\<rparr>
        \<lparr>pending = [Inr (ErrorResponse, [0x21]), Inr (0x4c, []), Inr (ReadyForCommand, [])],
         MsgType = 0, Buf = [], rErr = None\<rparr>
        \<lparr>cmd = [0x73], fmt = 0x62, expCard = Many, args = [] :: byte list val list, state = [], headers0pX = []\<rparr>)
      = Some (OtherError ''unexpected message'')"
  by (simp add: messages.simps PopMessage_def be_nat_def Let_def mType_def
        execute_def exampleWorld_def exampleQuery_def writeAndRead_def flat_def
        executeLoop.simps PopUint8_def execScriptFlow_def WriteAll_def scriptLoop.simps
        Next_def exampleScriptDeps_def message_consts)

subsection \<open>Choice of the path\<close>

lemma split_bytes:
  fixes n :: nat
  shows "16777216 * (n div 16777216) + 65536 * (n div 65536 mod 256) + n div 256 mod 256 * 256
           + n mod 256 = n"
proof -
  have b: "n div 65536 div 256 = n div 16777216" by (simp add: div_mult2_eq [symmetric])
  have c: "n div 256 div 256 = n div 65536" by (simp add: div_mult2_eq [symmetric])
  have "n div 16777216 * 256 + n div 65536 mod 256 = n div 65536"
    using div_mult_mod_eq [of "n div 65536" 256] b by simp
  moreover have "n div 65536 * 256 + n div 256 mod 256 = n div 256"
    using div_mult_mod_eq [of "n div 256" 256] c by simp
  moreover have "n div 256 * 256 + n mod 256 = n"
    using div_mult_mod_eq [of n 256] by simp
  ultimately show ?thesis by linarith
qed

lemma be_nat_be32: "be_nat (be32 w) = unat w"
proof -
  have lt: "unat w < 4294967296" using unsigned_less [of w, where 'a = nat] by simp
  then have a: "unat w div 16777216 mod 256 = unat w div 16777216" by simp
  show ?thesis
    by (simp add: be_nat_def be32_def unsigned_ucast_eq take_bit_eq_mod unat_drop_bit_eq
          drop_bit_nat_def a split_bytes)
qed

lemma PopMessage_framed:
  assumes "5 \<le> length body" and "length body \<le> 2 ^ 32"
  shows "PopMessage (PutMsgLength body @ rest) = Some (PutMsgLength body, rest)"
proof -
  from assms(1) obtain t r1 where 1: "body = t # r1" "4 \<le> length r1"
    by (cases body) auto
  then obtain b1 r2 where 2: "r1 = b1 # r2" "3 \<le> length r2" by (cases r1) auto
  then obtain b2 r3 where 3: "r2 = b2 # r3" "2 \<le> length r3" by (cases r2) auto
  then obtain b3 r4 where 4: "r3 = b3 # r4" "1 \<le> length r4" by (cases r3) auto
  then obtain b4 payload where 5: "r4 = b4 # payload" by (cases r4) auto
  have body: "body = t # b1 # b2 # b3 # b4 # payload"
    using 1 2 3 4 5 by simp
  have small: "k < 2 ^ 32 \<Longrightarrow> unat (of_nat k :: 32 word) = k" for k
    by (simp add: unat_of_nat)
  have "length body - 1 < 2 ^ 32" using assms by simp
  then have n: "unat (of_nat (length body - 1) :: 32 word) = length body - 1"
    by (rule small)
  have put: "PutMsgLength body = t # be32 (of_nat (length body - 1)) @ payload"
    by (simp add: PutMsgLength_def body)
  have len4: "length (be32 x) = 4" for x by (simp add: be32_def)
  have "take 4 (drop 1 (PutMsgLength body @ rest)) = be32 (of_nat (length body - 1))"
    unfolding put by (simp add: len4)
  then have "be_nat (take 4 (drop 1 (PutMsgLength body @ rest))) = length body - 1"
    using n by (simp only: be_nat_be32)
  moreover have "length (PutMsgLength body) = length body"
    unfolding put by (simp add: len4 body)
  ultimately show ?thesis
    using assms(1) by (simp add: PopMessage_def Let_def)
qed

lemma writeAndRead_sent: "sent (fst (snd (writeAndRead c req))) = sent c @ [req]"
  by (simp add: writeAndRead_def split: list.splits sum.splits)

lemma optimistic_sent:
  "sent (conn (snd (optimistic d w q tp cdcs))) = sent (conn w) @ [optimisticRequest q cdcs]"
  using writeAndRead_sent [of "conn w" "optimisticRequest q cdcs"]
  by (auto simp: optimistic_def split: prod.splits option.splits sum.splits)

lemma optimistic_cache: "cache (snd (optimistic d w q tp cdcs)) = cache w"
  by (auto simp: optimistic_def split: prod.splits option.splits sum.splits)

lemma execute_sent:
  "sent (conn (snd (execute d w q tp cdcs))) = sent (conn w) @ [executeRequest q cdcs]"
  using writeAndRead_sent [of "conn w" "executeRequest q cdcs"]
  by (auto simp: execute_def split: prod.splits option.splits sum.splits)

lemma prepare_sent: "sent (snd (prepare c q)) = sent c @ [prepareRequest q]"
  using writeAndRead_sent [of c "prepareRequest q"]
  by (auto simp: prepare_def split: prod.splits option.splits)

lemma describe_sent: "sent (snd (describe c)) = sent c @ [describeRequest]"
  using writeAndRead_sent [of c describeRequest]
  by (auto simp: describe_def split: prod.splits option.splits)

lemma pesimistic_sent:
  "\<exists>more. sent (conn (snd (pesimistic d w q tp))) = sent (conn w) @ prepareRequest q # more"
proof -
  obtain r1 c1 where p: "prepare (conn w) q = (r1, c1)" by (cases "prepare (conn w) q")
  have s1: "sent c1 = sent (conn w) @ [prepareRequest q]"
    using prepare_sent [of "conn w" q] p by simp
  obtain r2 c2 where ds: "describe c1 = (r2, c2)" by (cases "describe c1")
  have s2: "sent c2 = sent (conn w) @ [prepareRequest q, describeRequest]"
    using describe_sent [of c1] ds s1 by simp
  show ?thesis
    using s1 s2
    by (auto simp: pesimistic_def p ds execute_sent Let_def
          split: res.splits option.splits prod.splits)
qed

lemma request_first_bytes:
  "firstByte (optimisticRequest q cdcs) = Some OptimisticExecute"
  "firstByte (prepareRequest q') = Some Prepare"
  "firstByte describeRequest = Some DescribeStatement"
  "firstByte (executeRequest q cdcs) = Some Execute"
  by (simp_all add: firstByte_def optimisticRequest_def prepareRequest_def describeRequest_def
        executeRequest_def PutMsgLength_def PushString_def PushBytes_def PushUint16_def
        PushUint8_def PushUint32_def be16_def be32_def Let_def)


lemma PutMsgLength_length: "length (PutMsgLength body) = length body"
  by (simp add: PutMsgLength_def be32_def split: list.splits)

lemma PutMsgLength_mType: "5 \<le> length body \<Longrightarrow> mType (PutMsgLength body) = mType body"
  by (auto simp: PutMsgLength_def mType_def split: list.splits)

lemma requestTypes_framed:
  assumes "5 \<le> length body" and "length body \<le> 2 ^ 32"
  shows "requestTypes (PutMsgLength body @ [Sync, 0, 0, 0, 4]) = Some [mType body, Sync]"
proof -
  have sync: "messages [Sync, 0, 0, 0, 4] = Some [[Sync, 0, 0, 0, 4]]"
    by (simp add: messages.simps PopMessage_def be_nat_def Let_def)
  have "messages (PutMsgLength body @ [Sync, 0, 0, 0, 4])
          = Some [PutMsgLength body, [Sync, 0, 0, 0, 4]]"
    by (subst messages.simps) (simp add: PopMessage_framed [OF assms] sync)
  moreover have "mType [Sync, 0, 0, 0, 4] = Sync" by (simp add: mType_def)
  ultimately show ?thesis
    by (simp add: requestTypes_def PutMsgLength_mType [OF assms(1)])
qed

lemma optimisticRequest_types:
  assumes "length (optimisticRequest q cdcs) \<le> 2 ^ 32"
  shows "requestTypes (optimisticRequest q cdcs) = Some [OptimisticExecute, Sync]"
proof -
  define body where "body = [OptimisticExecute, 0, 0, 0, 0, 0, 0, fmt q, cardinalityByte (expCard q)]
      @ be32 (of_nat (length (cmd q))) @ cmd q @ codecID (In cdcs) @ codecID (Out cdcs)
      @ Encode (In cdcs) (args q)"
  have req: "optimisticRequest q cdcs = PutMsgLength body @ [Sync, 0, 0, 0, 4]"
    by (simp add: optimisticRequest_def body_def Let_def PushString_def PushBytes_def)
  have 5: "5 \<le> length body" by (simp add: body_def)
  have "length body \<le> 2 ^ 32"
    using assms by (simp add: req PutMsgLength_length)
  from requestTypes_framed [OF 5 this] show ?thesis
    by (simp add: req) (simp add: body_def mType_def)
qed

text \<open>
  \<^verbatim>\<open>Type.Elem\<close> panics exactly on the kinds that have no element type.  A query of
  many results whose destination has an element type but is not a slice gets as far as
  the request: the panic is that of \<^verbatim>\<open>SetLen\<close>, after the response was read.
\<close>

lemma Elem_kinds:
  "Elem t = None \<longleftrightarrow>
     Kind t \<noteq> KindSlice \<and> Kind t \<noteq> KindArray \<and> Kind t \<noteq> KindPtr \<and> Kind t \<noteq> KindMap
     \<and> Kind t \<noteq> KindChan"
  by (cases t) simp_all

lemma granularFlow_not_a_slice:
  assumes "\<not> flat q" and "Elem (destType w) = Some tp"
    and "getCodecs (cache w) q tp = Some cdcs"
    and "dest w = Atom a" and "replies (conn w) = Inr buf # rest"
  shows "fst (granularFlow d w q) = Panic ReflectPanic"
    and "sent (conn (snd (granularFlow d w q))) = sent (conn w) @ [optimisticRequest q cdcs]"
  using assms
  by (simp_all add: granularFlow_def optimistic_def writeAndRead_def)

lemma execute_cache: "cache (snd (execute d w q tp cdcs)) = cache w"
  by (auto simp: execute_def split: prod.splits option.splits sum.splits)

lemma example_prepare:
  "prepare (conn exampleSession) (exampleQuery One) =
     (Ok exampleIds,
      \<lparr>sent = [prepareRequest (exampleQuery One)],
       replies = [Inr exampleDescribeReply,
                  Inr [0x44, 0,0,0,7, 0,1, 0x2a, 0x43, 0,0,0,4, 0x5a, 0,0,0,4]]\<rparr>)"
  by (simp add: prepare_def exampleSession_def exampleWorld_def writeAndRead_def
        examplePrepareReply_def exampleIds_def prepareLoop.simps PopMessage_def be_nat_def
        Let_def PopUint8_def PopUint32_def PopUint16_def PopUUID_def message_consts)

lemma example_describe:
  "describe \<lparr>sent = s, replies = [Inr exampleDescribeReply, r]\<rparr> =
     (Ok \<lparr>descs_in = [7], descs_out = [8]\<rparr>,
      \<lparr>sent = s @ [describeRequest], replies = [r]\<rparr>)"
  by (simp add: describe_def writeAndRead_def exampleDescribeReply_def describeLoop.simps
        PopMessage_def be_nat_def Let_def PopUint8_def PopUint32_def PopUint16_def PopUUID_def
        PopBytes_def message_consts)


lemma pesimistic_prepare_error:
  assumes "prepare (conn w) q = (Err pe, c1)"
  shows "pesimistic d w q tp = (Err pe, w\<lparr>conn := c1\<rparr>)"
  using assms by (simp add: pesimistic_def)

lemma pesimistic_describe_error:
  assumes "prepare (conn w) q = (Ok ids, c1)" and "getDescriptorsByID (cache w) ids = None"
    and "describe c1 = (Err de, c2)"
  shows "pesimistic d w q tp = (Err de, w\<lparr>conn := c2\<rparr>)"
  using assms by (simp add: pesimistic_def)

lemma pesimistic_described:
  assumes "prepare (conn w) q = (Ok ids, c1)" and "getDescriptorsByID (cache w) ids = None"
    and "describe c1 = (Ok ds, c2)"
  shows "pesimistic d w q tp =
     (case buildCodecs d q tp ds of
        Err e \<Rightarrow> (Err e, w\<lparr>conn := c2,
                    cache := putDescriptors (putDescriptorsByID (cache w) ids ds) q ds\<rparr>)
      | Panic x \<Rightarrow> (Panic x, w\<lparr>conn := c2,
                    cache := putDescriptors (putDescriptorsByID (cache w) ids ds) q ds\<rparr>)
      | Ok cdcs \<Rightarrow>
          execute d (w\<lparr>conn := c2,
             cache := putCodecs (putDescriptors (putDescriptorsByID (cache w) ids ds) q ds)
                        q tp cdcs\<rparr>) q tp cdcs)"
  using assms by (simp add: pesimistic_def Let_def)

lemma pesimistic_known_ids:
  assumes "prepare (conn w) q = (Ok ids, c1)" and "getDescriptorsByID (cache w) ids = Some ds"
  shows "pesimistic d w q tp =
     (case buildCodecs d q tp ds of
        Err e \<Rightarrow> (Err e, w\<lparr>conn := c1, cache := putDescriptors (cache w) q ds\<rparr>)
      | Panic x \<Rightarrow> (Panic x, w\<lparr>conn := c1, cache := putDescriptors (cache w) q ds\<rparr>)
      | Ok cdcs \<Rightarrow>
          execute d (w\<lparr>conn := c1,
             cache := putCodecs (putDescriptors (cache w) q ds) q tp cdcs\<rparr>) q tp cdcs)"
  using assms by (simp add: pesimistic_def Let_def)

lemma cache_lookups:
  "getCodecs (putCodecs cs q tp cdcs) q tp = Some cdcs"
  "getDescriptors (putCodecs cs q tp cdcs) q = getDescriptors cs q"
  "getDescriptorsByID (putCodecs cs q tp cdcs) ids = getDescriptorsByID cs ids"
  "getDescriptors (putDescriptors cs q ds) q = Some ds"
  "getDescriptorsByID (putDescriptors cs q ds) ids = getDescriptorsByID cs ids"
  "getDescriptorsByID (putDescriptorsByID cs ids ds) ids = Some ds"
  by (simp_all add: getCodecs_def putCodecs_def getDescriptors_def putDescriptors_def
        getDescriptorsByID_def putDescriptorsByID_def)

lemma pesimistic_cycle:
  assumes "prepare (conn w) q = (Ok ids, c1)" and "getDescriptorsByID (cache w) ids = None"
    and "describe c1 = (Ok ds, c2)" and "buildCodecs d q tp ds = Ok built"
  shows "pesimistic d w q tp =
           execute d (w\<lparr>conn := c2,
             cache := putCodecs (putDescriptors (putDescriptorsByID (cache w) ids ds) q ds)
                        q tp built\<rparr>) q tp built"
    and "sent (conn (snd (pesimistic d w q tp))) =
           sent (conn w) @ [prepareRequest q, describeRequest, executeRequest q built]"
    and "getCodecs (cache (snd (pesimistic d w q tp))) q tp = Some built"
    and "getDescriptors (cache (snd (pesimistic d w q tp))) q = Some ds"
    and "getDescriptorsByID (cache (snd (pesimistic d w q tp))) ids = Some ds"
proof -
  have s1: "sent c1 = sent (conn w) @ [prepareRequest q]"
    using prepare_sent [of "conn w" q] assms(1) by simp
  have s2: "sent c2 = sent c1 @ [describeRequest]"
    using describe_sent [of c1] assms(3) by simp
  show eq: "pesimistic d w q tp =
           execute d (w\<lparr>conn := c2,
             cache := putCodecs (putDescriptors (putDescriptorsByID (cache w) ids ds) q ds)
                        q tp built\<rparr>) q tp built"
    by (simp add: pesimistic_described [OF assms(1-3)] assms(4))
  show "sent (conn (snd (pesimistic d w q tp))) =
           sent (conn w) @ [prepareRequest q, describeRequest, executeRequest q built]"
    by (simp add: eq execute_sent s1 s2)
  show "getCodecs (cache (snd (pesimistic d w q tp))) q tp = Some built"
    by (simp add: eq execute_cache cache_lookups)
  show "getDescriptors (cache (snd (pesimistic d w q tp))) q = Some ds"
    by (simp add: eq execute_cache cache_lookups)
  show "getDescriptorsByID (cache (snd (pesimistic d w q tp))) ids = Some ds"
    by (simp add: eq execute_cache cache_lookups)
qed

lemma pesimistic_cycle_known_ids:
  assumes "prepare (conn w) q = (Ok ids, c1)" and "getDescriptorsByID (cache w) ids = Some ds"
    and "buildCodecs d q tp ds = Ok built"
  shows "pesimistic d w q tp =
           execute d (w\<lparr>conn := c1,
             cache := putCodecs (putDescriptors (cache w) q ds) q tp built\<rparr>) q tp built"
    and "sent (conn (snd (pesimistic d w q tp))) =
           sent (conn w) @ [prepareRequest q, executeRequest q built]"
    and "getCodecs (cache (snd (pesimistic d w q tp))) q tp = Some built"
    and "getDescriptors (cache (snd (pesimistic d w q tp))) q = Some ds"
proof -
  have s1: "sent c1 = sent (conn w) @ [prepareRequest q]"
    using prepare_sent [of "conn w" q] assms(1) by simp
  show eq: "pesimistic d w q tp =
           execute d (w\<lparr>conn := c1,
             cache := putCodecs (putDescriptors (cache w) q ds) q tp built\<rparr>) q tp built"
    by (simp add: pesimistic_known_ids [OF assms(1,2)] assms(3))
  show "sent (conn (snd (pesimistic d w q tp))) =
           sent (conn w) @ [prepareRequest q, executeRequest q built]"
    by (simp add: eq execute_sent s1)
  show "getCodecs (cache (snd (pesimistic d w q tp))) q tp = Some built"
    by (simp add: eq execute_cache cache_lookups)
  show "getDescriptors (cache (snd (pesimistic d w q tp))) q = Some ds"
    by (simp add: eq execute_cache cache_lookups)
qed

text \<open>
  C4.  \<^verbatim>\<open>granularFlow\<close> first determines the output type \<open>tp\<close> (the element type of
  the destination for a query of many results, where \<^verbatim>\<open>Elem\<close> panics on a type that
  has none).  If the codec cache has an entry for the query and \<open>tp\<close>, it is
  \<^verbatim>\<open>optimistic\<close> with the cached codecs, and the only buffer it sends is the
  optimistic request.  If it has none but the descriptor cache has the query's
  descriptors, it builds codecs from them for \<open>tp\<close> (whatever the cache holds for
  other output types), stores them under the query and \<open>tp\<close>, and is \<^verbatim>\<open>optimistic\<close>
  with them; if building fails it returns the error and sends nothing.  The
  optimistic request starts with \<^verbatim>\<open>OptimisticExecute\<close>; as long as it fits the 32-bit
  length field it is exactly an \<^verbatim>\<open>OptimisticExecute\<close> message followed by \<^verbatim>\<open>Sync\<close>,
  neither a \<^verbatim>\<open>Prepare\<close> nor a \<^verbatim>\<open>DescribeStatement\<close>.

  If both caches miss, it is \<^verbatim>\<open>pesimistic\<close>, whose first request is \<^verbatim>\<open>Prepare\<close>.
  When \<^verbatim>\<open>prepare\<close> fails, its error is returned and nothing else is sent.  When it
  returns descriptor IDs that the cache by ID does not know, the second request is
  \<^verbatim>\<open>DescribeStatement\<close>; a failure is returned with no \<^verbatim>\<open>Execute\<close> sent, and
  otherwise the descriptors are stored by ID and by query, codecs are built from them
  and stored under the query and \<open>tp\<close>, and the flow is \<^verbatim>\<open>execute\<close> with them: the
  requests sent are \<^verbatim>\<open>Prepare\<close>, \<^verbatim>\<open>DescribeStatement\<close>, \<^verbatim>\<open>Execute\<close>, in this
  order.  When the IDs are known, the \<^verbatim>\<open>DescribeStatement\<close> is skipped and the
  requests are \<^verbatim>\<open>Prepare\<close>, \<^verbatim>\<open>Execute\<close>.  A failure to build the codecs is returned
  after the descriptors were stored, with no \<^verbatim>\<open>Execute\<close> sent.
\<close>

theorem granularFlow_paths:
  "((if \<not> flat q then Elem (destType w) else Some (destType w)) = None \<longrightarrow>
      granularFlow d w q = (Panic ReflectPanic, w))
   \<and> ((if \<not> flat q then Elem (destType w) else Some (destType w)) = Some tp \<longrightarrow>
       (getCodecs (cache w) q tp = Some cdcs \<longrightarrow>
            granularFlow d w q = optimistic d w q tp cdcs
          \<and> sent (conn (snd (granularFlow d w q))) = sent (conn w) @ [optimisticRequest q cdcs])
       \<and> (getCodecs (cache w) q tp = None \<and> getDescriptors (cache w) q = Some descs
            \<and> buildCodecs d q tp descs = Ok cdcs \<longrightarrow>
            granularFlow d w q =
              optimistic d (w\<lparr>cache := putCodecs (cache w) q tp cdcs\<rparr>) q tp cdcs
          \<and> sent (conn (snd (granularFlow d w q))) = sent (conn w) @ [optimisticRequest q cdcs]
          \<and> getCodecs (cache (snd (granularFlow d w q))) q tp = Some cdcs)
       \<and> (getCodecs (cache w) q tp = None \<and> getDescriptors (cache w) q = Some descs
            \<and> buildCodecs d q tp descs = Err e \<longrightarrow>
            granularFlow d w q = (Err e, w))
       \<and> (getCodecs (cache w) q tp = None \<and> getDescriptors (cache w) q = None \<longrightarrow>
            granularFlow d w q = pesimistic d w q tp
          \<and> (\<exists>more. sent (conn (snd (granularFlow d w q)))
                      = sent (conn w) @ prepareRequest q # more)
          \<and> (prepare (conn w) q = (Err pe, c1) \<longrightarrow>
                granularFlow d w q = (Err pe, w\<lparr>conn := c1\<rparr>)
              \<and> sent c1 = sent (conn w) @ [prepareRequest q])
          \<and> (prepare (conn w) q = (Ok ids, c1) \<and> getDescriptorsByID (cache w) ids = None
                \<and> describe c1 = (Err de, c2) \<longrightarrow>
                granularFlow d w q = (Err de, w\<lparr>conn := c2\<rparr>)
              \<and> sent c2 = sent (conn w) @ [prepareRequest q, describeRequest])
          \<and> (prepare (conn w) q = (Ok ids, c1) \<and> getDescriptorsByID (cache w) ids = None
                \<and> describe c1 = (Ok ds, c2) \<longrightarrow>
                (buildCodecs d q tp ds = Ok built \<longrightarrow>
                   granularFlow d w q =
                     execute d (w\<lparr>conn := c2,
                        cache := putCodecs
                          (putDescriptors (putDescriptorsByID (cache w) ids ds) q ds)
                          q tp built\<rparr>) q tp built
                 \<and> sent (conn (snd (granularFlow d w q))) =
                     sent (conn w) @ [prepareRequest q, describeRequest, executeRequest q built]
                 \<and> getCodecs (cache (snd (granularFlow d w q))) q tp = Some built
                 \<and> getDescriptors (cache (snd (granularFlow d w q))) q = Some ds
                 \<and> getDescriptorsByID (cache (snd (granularFlow d w q))) ids = Some ds)
              \<and> (buildCodecs d q tp ds = Err be \<longrightarrow>
                   granularFlow d w q =
                     (Err be, w\<lparr>conn := c2,
                        cache := putDescriptors (putDescriptorsByID (cache w) ids ds) q ds\<rparr>)
                 \<and> sent c2 = sent (conn w) @ [prepareRequest q, describeRequest]))
          \<and> (prepare (conn w) q = (Ok ids, c1) \<and> getDescriptorsByID (cache w) ids = Some ds
                \<longrightarrow>
                (buildCodecs d q tp ds = Ok built \<longrightarrow>
                   granularFlow d w q =
                     execute d (w\<lparr>conn := c1,
                        cache := putCodecs (putDescriptors (cache w) q ds) q tp built\<rparr>)
                       q tp built
                 \<and> sent (conn (snd (granularFlow d w q))) =
                     sent (conn w) @ [prepareRequest q, executeRequest q built]
                 \<and> getCodecs (cache (snd (granularFlow d w q))) q tp = Some built
                 \<and> getDescriptors (cache (snd (granularFlow d w q))) q = Some ds)
              \<and> (buildCodecs d q tp ds = Err be \<longrightarrow>
                   granularFlow d w q =
                     (Err be, w\<lparr>conn := c1, cache := putDescriptors (cache w) q ds\<rparr>)
                 \<and> sent c1 = sent (conn w) @ [prepareRequest q]))))
   \<and> firstByte (optimisticRequest q cdcs) = Some OptimisticExecute
   \<and> (length (optimisticRequest q cdcs) \<le> 2 ^ 32 \<longrightarrow>
        requestTypes (optimisticRequest q cdcs) = Some [OptimisticExecute, Sync])
   \<and> firstByte (prepareRequest q) = Some Prepare
   \<and> firstByte describeRequest = Some DescribeStatement
   \<and> firstByte (executeRequest q built) = Some Execute
   \<and> OptimisticExecute \<noteq> Prepare \<and> OptimisticExecute \<noteq> DescribeStatement
   \<and> Sync \<noteq> Prepare \<and> Sync \<noteq> DescribeStatement"
  (is "?A \<and> (?T \<longrightarrow> ?H1 \<and> ?H2 \<and> ?H3 \<and> (?M \<longrightarrow> ?E \<and> ?S \<and> ?P1 \<and> ?P2 \<and> ?P3 \<and> ?P4)) \<and> ?F")
proof -
  have A: ?A by (simp add: granularFlow_def)
  have H1: ?H1 if ?T
    using that by (simp add: granularFlow_def optimistic_sent)
  have H2: ?H2 if ?T
    using that by (simp add: granularFlow_def optimistic_sent optimistic_cache cache_lookups)
  have H3: ?H3 if ?T
    using that by (simp add: granularFlow_def)
  have E: "granularFlow d w q = pesimistic d w q tp" if ?T ?M
    using that by (simp add: granularFlow_def)
  have s1: "sent c1 = sent (conn w) @ [prepareRequest q]"
    if "prepare (conn w) q = (r1, c1)" for r1
    using prepare_sent [of "conn w" q] that by simp
  have s2: "sent c2 = sent (conn w) @ [prepareRequest q, describeRequest]"
    if "prepare (conn w) q = (r1, c1)" "describe c1 = (r2, c2)" for r1 r2
    using describe_sent [of c1] s1 [OF that(1)] that(2) by simp
  have S: ?S if ?T ?M
    unfolding E [OF that] by (rule pesimistic_sent)
  have P1: ?P1 if ?T ?M
    unfolding E [OF that] using s1 [of "Err pe"] by (simp add: pesimistic_prepare_error)
  have P2: ?P2 if ?T ?M
    unfolding E [OF that] using s2 [of "Ok ids" "Err de"]
    by (simp add: pesimistic_describe_error)
  have P3: ?P3 if ?T ?M
    unfolding E [OF that]
  proof (intro impI conjI)
    assume a: "prepare (conn w) q = (Ok ids, c1) \<and> getDescriptorsByID (cache w) ids = None
                \<and> describe c1 = (Ok ds, c2)"
    then have 1: "prepare (conn w) q = (Ok ids, c1)"
      and 2: "getDescriptorsByID (cache w) ids = None"
      and 3: "describe c1 = (Ok ds, c2)" by simp_all
    { assume b: "buildCodecs d q tp ds = Ok built"
      note cyc = pesimistic_cycle [OF 1 2 3 b]
      show "pesimistic d w q tp =
              execute d (w\<lparr>conn := c2,
                 cache := putCodecs (putDescriptors (putDescriptorsByID (cache w) ids ds) q ds)
                            q tp built\<rparr>) q tp built"
        by (rule cyc(1))
      show "sent (conn (snd (pesimistic d w q tp))) =
              sent (conn w) @ [prepareRequest q, describeRequest, executeRequest q built]"
        by (rule cyc(2))
      show "getCodecs (cache (snd (pesimistic d w q tp))) q tp = Some built"
        by (rule cyc(3))
      show "getDescriptors (cache (snd (pesimistic d w q tp))) q = Some ds"
        by (rule cyc(4))
      show "getDescriptorsByID (cache (snd (pesimistic d w q tp))) ids = Some ds"
        by (rule cyc(5)) }
    { assume b: "buildCodecs d q tp ds = Err be"
      show "pesimistic d w q tp =
              (Err be, w\<lparr>conn := c2,
                 cache := putDescriptors (putDescriptorsByID (cache w) ids ds) q ds\<rparr>)"
        by (simp add: pesimistic_described [OF 1 2 3] b)
      show "sent c2 = sent (conn w) @ [prepareRequest q, describeRequest]"
        by (rule s2 [OF 1 3]) }
  qed
  have P4: ?P4 if ?T ?M
    unfolding E [OF that]
  proof (intro impI conjI)
    assume a: "prepare (conn w) q = (Ok ids, c1) \<and> getDescriptorsByID (cache w) ids = Some ds"
    then have 1: "prepare (conn w) q = (Ok ids, c1)"
      and 2: "getDescriptorsByID (cache w) ids = Some ds" by simp_all
    { assume b: "buildCodecs d q tp ds = Ok built"
      note cyc = pesimistic_cycle_known_ids [OF 1 2 b]
      show "pesimistic d w q tp =
              execute d (w\<lparr>conn := c1,
                 cache := putCodecs (putDescriptors (cache w) q ds) q tp built\<rparr>) q tp built"
        by (rule cyc(1))
      show "sent (conn (snd (pesimistic d w q tp))) =
              sent (conn w) @ [prepareRequest q, executeRequest q built]"
        by (rule cyc(2))
      show "getCodecs (cache (snd (pesimistic d w q tp))) q tp = Some built"
        by (rule cyc(3))
      show "getDescriptors (cache (snd (pesimistic d w q tp))) q = Some ds"
        by (rule cyc(4)) }
    { assume b: "buildCodecs d q tp ds = Err be"
      show "pesimistic d w q tp =
              (Err be, w\<lparr>conn := c1, cache := putDescriptors (cache w) q ds\<rparr>)"
        by (simp add: pesimistic_known_ids [OF 1 2] b)
      show "sent c1 = sent (conn w) @ [prepareRequest q]"
        by (rule s1 [OF 1]) }
  qed
  have F: ?F
    using optimisticRequest_types [of q cdcs]
    by (simp add: request_first_bytes message_consts)
  have mid: "?T \<longrightarrow> ?H1 \<and> ?H2 \<and> ?H3 \<and> (?M \<longrightarrow> ?E \<and> ?S \<and> ?P1 \<and> ?P2 \<and> ?P3 \<and> ?P4)"
  proof (rule impI)
    assume t: ?T
    have "?M \<longrightarrow> ?E \<and> ?S \<and> ?P1 \<and> ?P2 \<and> ?P3 \<and> ?P4"
    proof (rule impI)
      assume m: ?M
      from E [OF t m] S [OF t m] P1 [OF t m] P2 [OF t m] P3 [OF t m] P4 [OF t m]
      show "?E \<and> ?S \<and> ?P1 \<and> ?P2 \<and> ?P3 \<and> ?P4"
        by (intro conjI)
    qed
    with H1 [OF t] H2 [OF t] H3 [OF t]
    show "?H1 \<and> ?H2 \<and> ?H3 \<and> (?M \<longrightarrow> ?E \<and> ?S \<and> ?P1 \<and> ?P2 \<and> ?P3 \<and> ?P4)"
      by (intro conjI)
  qed
  show ?thesis by (rule conjI [OF A conjI [OF mid F]])
qed

theorem granularFlow_paths_witness:
  "granularFlow exampleDeps
      ((exampleWorld (Atom [9]) (Basic ''bytes'') [0x5a, 0,0,0,4])\<lparr>cache := exampleCaches\<rparr>)
      (exampleQuery One)
     = optimistic exampleDeps
         ((exampleWorld (Atom [9]) (Basic ''bytes'') [0x5a, 0,0,0,4])
            \<lparr>cache := putCodecs exampleCaches (exampleQuery One) (Basic ''bytes'')
                        exampleCodecs\<rparr>)
         (exampleQuery One) (Basic ''bytes'') exampleCodecs
   \<and> sent (conn (snd (granularFlow exampleDeps
      ((exampleWorld (Atom [9]) (Basic ''bytes'') [0x5a, 0,0,0,4])\<lparr>cache := exampleCaches\<rparr>)
      (exampleQuery One))))
     = [optimisticRequest (exampleQuery One) exampleCodecs]
   \<and> requestTypes (optimisticRequest (exampleQuery One) exampleCodecs)
     = Some [OptimisticExecute, Sync]
   \<and> fst (granularFlow exampleDeps exampleSession (exampleQuery One)) = Ok ()
   \<and> dest (snd (granularFlow exampleDeps exampleSession (exampleQuery One))) = Atom [0x2a]
   \<and> sent (conn (snd (granularFlow exampleDeps exampleSession (exampleQuery One))))
     = [prepareRequest (exampleQuery One), describeRequest,
        executeRequest (exampleQuery One) exampleCodecs]
   \<and> getCodecs (cache (snd (granularFlow exampleDeps exampleSession (exampleQuery One))))
        (exampleQuery One) (Basic ''bytes'') = Some exampleCodecs
   \<and> getDescriptors (cache (snd (granularFlow exampleDeps exampleSession (exampleQuery One))))
        (exampleQuery One) = Some \<lparr>descs_in = [7], descs_out = [8]\<rparr>"
proof -
  let ?w = "(exampleWorld (Atom [9]) (Basic ''bytes'') [0x5a, 0,0,0,4])
              \<lparr>cache := exampleCaches\<rparr>"
  let ?q = "exampleQuery One"
  let ?data = "[0x44, 0,0,0,7, 0,1, 0x2a, 0x43, 0,0,0,4, 0x5a, 0,0,0,4] :: byte list"
  let ?c1 = "\<lparr>sent = [prepareRequest ?q],
              replies = [Inr exampleDescribeReply, Inr ?data]\<rparr>"
  let ?c2 = "\<lparr>sent = [prepareRequest ?q] @ [describeRequest], replies = [Inr ?data]\<rparr>"
  let ?ds = "\<lparr>descs_in = [7], descs_out = [8]\<rparr>"
  have 1: "(if \<not> flat ?q then Elem (destType ?w) else Some (destType ?w))
           = Some (Basic ''bytes'')"
    by (simp add: flat_def exampleQuery_def exampleWorld_def)
  have 2: "length (optimisticRequest ?q exampleCodecs) \<le> 2 ^ 32"
    by (simp add: optimisticRequest_def exampleQuery_def exampleCodecs_def exampleCodec_def
          PutMsgLength_length PushString_def PushBytes_def be32_def Let_def)
  have 3: "getCodecs (cache ?w) ?q (Basic ''bytes'') = None"
    by (simp add: getCodecs_def exampleCaches_def exampleQuery_def)
  have 4: "getDescriptors (cache ?w) ?q = Some \<lparr>descs_in = [], descs_out = []\<rparr>"
    by (simp add: getDescriptors_def exampleCaches_def exampleQuery_def)
  have 5: "buildCodecs exampleDeps ?q (Basic ''bytes'')
             \<lparr>descs_in = [], descs_out = []\<rparr> = Ok exampleCodecs"
    by (simp add: exampleDeps_def)
  have 6: "sent (conn ?w) = []" by (simp add: exampleWorld_def)
  note paths = granularFlow_paths [where d = exampleDeps and w = ?w
        and q = ?q and tp = "Basic ''bytes''" and cdcs = exampleCodecs
        and descs = "\<lparr>descs_in = [], descs_out = []\<rparr>"]
  from paths 1 3 4 5 have a: "granularFlow exampleDeps ?w ?q
     = optimistic exampleDeps
         (?w\<lparr>cache := putCodecs (cache ?w) ?q (Basic ''bytes'') exampleCodecs\<rparr>)
         ?q (Basic ''bytes'') exampleCodecs"
    by blast
  from paths 1 3 4 5 have "sent (conn (snd (granularFlow exampleDeps ?w ?q)))
     = sent (conn ?w) @ [optimisticRequest ?q exampleCodecs]"
    by blast
  then have b: "sent (conn (snd (granularFlow exampleDeps ?w ?q)))
     = [optimisticRequest ?q exampleCodecs]"
    by (simp only: 6 append_Nil)
  from paths 2 have c: "requestTypes (optimisticRequest ?q exampleCodecs)
     = Some [OptimisticExecute, Sync]"
    by blast
  from a have a': "granularFlow exampleDeps ?w ?q
     = optimistic exampleDeps
         ((exampleWorld (Atom [9]) (Basic ''bytes'') [0x5a, 0,0,0,4])
            \<lparr>cache := putCodecs exampleCaches ?q (Basic ''bytes'') exampleCodecs\<rparr>)
         ?q (Basic ''bytes'') exampleCodecs"
    by simp
  have 7: "(if \<not> flat ?q then Elem (destType exampleSession)
            else Some (destType exampleSession)) = Some (Basic ''bytes'')"
    by (simp add: flat_def exampleQuery_def exampleSession_def exampleWorld_def)
  have 8: "getCodecs (cache exampleSession) ?q (Basic ''bytes'') = None
           \<and> getDescriptors (cache exampleSession) ?q = None"
    by (simp add: getCodecs_def getDescriptors_def exampleSession_def exampleWorld_def)
  have 9: "prepare (conn exampleSession) ?q = (Ok exampleIds, ?c1)
           \<and> getDescriptorsByID (cache exampleSession) exampleIds = None
           \<and> describe ?c1 = (Ok ?ds, ?c2)"
  proof (intro conjI)
    show "prepare (conn exampleSession) ?q = (Ok exampleIds, ?c1)"
      by (rule example_prepare)
    show "getDescriptorsByID (cache exampleSession) exampleIds = None"
      by (simp add: getDescriptorsByID_def exampleSession_def exampleWorld_def)
    show "describe ?c1 = (Ok ?ds, ?c2)"
      by (rule example_describe)
  qed
  have 10: "buildCodecs exampleDeps ?q (Basic ''bytes'') ?ds = Ok exampleCodecs"
    by (simp add: exampleDeps_def)
  have 11: "sent (conn exampleSession) = []"
    by (simp add: exampleSession_def exampleWorld_def)
  note cycle = granularFlow_paths [where d = exampleDeps and w = exampleSession
        and q = ?q and tp = "Basic ''bytes''" and ids = exampleIds and ?c1.0 = ?c1
        and ds = ?ds and ?c2.0 = ?c2 and built = exampleCodecs]
  from cycle 7 8 9 10 have run: "granularFlow exampleDeps exampleSession ?q =
      execute exampleDeps (exampleSession\<lparr>conn := ?c2,
         cache := putCodecs
           (putDescriptors (putDescriptorsByID (cache exampleSession) exampleIds ?ds) ?q ?ds)
           ?q (Basic ''bytes'') exampleCodecs\<rparr>) ?q (Basic ''bytes'') exampleCodecs"
    by blast
  from cycle 7 8 9 10 have "sent (conn (snd (granularFlow exampleDeps exampleSession ?q))) =
      sent (conn exampleSession)
        @ [prepareRequest ?q, describeRequest, executeRequest ?q exampleCodecs]"
    by blast
  then have d: "sent (conn (snd (granularFlow exampleDeps exampleSession ?q))) =
      [prepareRequest ?q, describeRequest, executeRequest ?q exampleCodecs]"
    by (simp only: 11 append_Nil)
  from cycle 7 8 9 10
  have e: "getCodecs (cache (snd (granularFlow exampleDeps exampleSession ?q)))
        ?q (Basic ''bytes'') = Some exampleCodecs"
    by blast
  from cycle 7 8 9 10
  have f: "getDescriptors (cache (snd (granularFlow exampleDeps exampleSession ?q))) ?q
        = Some ?ds"
    by blast
  have g: "fst (granularFlow exampleDeps exampleSession ?q) = Ok ()
         \<and> dest (snd (granularFlow exampleDeps exampleSession ?q)) = Atom [0x2a]"
    unfolding run
    by (simp add: execute_def writeAndRead_def exampleSession_def exampleWorld_def
          exampleQuery_def flat_def executeLoop.simps PopMessage_def be_nat_def Let_def
          PopUint8_def PopUint32_def PopUint16_def message_consts exampleCodecs_def
          exampleCodec_def)
  from g have g1: "fst (granularFlow exampleDeps exampleSession ?q) = Ok ()"
    and g2: "dest (snd (granularFlow exampleDeps exampleSession ?q)) = Atom [0x2a]"
    by simp_all
  show ?thesis
    by (intro conjI) (rule a', rule b, rule c, rule g1, rule g2, rule d, rule e, rule f)
qed

end
